(* ===== verification/Prelude.thy ===== *)
theory Prelude
  imports Complex_Main "HOL-Library.Word" "HOL-Library.AList"
begin

text \<open>
  Shared vocabulary of the development.

  Go maps are association lists with distinct keys: \<open>mget\<close>, \<open>mput\<close> and \<open>mdel\<close> are the
  lookup, the assignment and \<open>delete\<close>. The order of the list is the order in which one
  \<open>range\<close> over the map happens to visit it (Go leaves that order open, so every theorem is
  stated for an arbitrary list). Machine integers keep their width: \<open>u32\<close>, \<open>u64\<close> and
  \<open>i64\<close> (signed comparisons through \<open>sint\<close> or \<open><s\<close>). A \<open>float64\<close> is the exact rational
  it denotes.
\<close>

unbundle bit_operations_syntax

type_synonym u32 = "32 word"
type_synonym u64 = "64 word"
type_synonym i64 = "64 word"
type_synonym float64 = rat
type_synonym bytes = "8 word list"

named_theorems gomap \<open>lookup laws of the Go maps\<close>
named_theorems preserves \<open>preservation of the component invariants\<close>

section \<open>Go maps\<close>

type_synonym ('k, 'v) gomap = "('k \<times> 'v) list"

abbreviation mget :: "('k, 'v) gomap \<Rightarrow> 'k \<Rightarrow> 'v option" where
  "mget m k \<equiv> map_of m k"

abbreviation mput :: "('k, 'v) gomap \<Rightarrow> 'k \<Rightarrow> 'v \<Rightarrow> ('k, 'v) gomap" where
  "mput m k v \<equiv> AList.update k v m"

abbreviation mdel :: "('k, 'v) gomap \<Rightarrow> 'k \<Rightarrow> ('k, 'v) gomap" where
  "mdel m k \<equiv> AList.delete k m"

abbreviation mhas :: "('k, 'v) gomap \<Rightarrow> 'k \<Rightarrow> bool" where
  "mhas m k \<equiv> map_of m k \<noteq> None"

definition keys_ok :: "('k, 'v) gomap \<Rightarrow> bool" where
  "keys_ok m \<longleftrightarrow> distinct (map fst m)"

lemma mget_mput [gomap, simp]: "mget (mput m k v) k' = (if k' = k then Some v else mget m k')"
  by (simp add: update_conv)

lemma mget_mdel [gomap, simp]: "mget (mdel m k) k' = (if k' = k then None else mget m k')"
  by (simp add: delete_conv)

lemma keys_ok_Nil [simp]: "keys_ok []"
  by (simp add: keys_ok_def)

lemma keys_ok_mput [preserves, simp]: "keys_ok m \<Longrightarrow> keys_ok (mput m k v)"
  by (simp add: keys_ok_def distinct_update)

lemma keys_ok_mdel [preserves, simp]: "keys_ok m \<Longrightarrow> keys_ok (mdel m k)"
  by (simp add: keys_ok_def distinct_delete)

lemma keys_ok_mem: "keys_ok m \<Longrightarrow> (k, v) \<in> set m \<longleftrightarrow> mget m k = Some v"
  by (simp add: keys_ok_def map_of_eq_Some_iff)

lemma mget_SomeD: "mget m k = Some v \<Longrightarrow> (k, v) \<in> set m"
  by (rule map_of_SomeD)

lemma mget_filter_map:
  assumes "keys_ok m"
  shows "mget (List.map_filter (\<lambda>(k, v). map_option (Pair k) (f k v)) m) k
    = (case mget m k of None \<Rightarrow> None | Some v \<Rightarrow> f k v)"
  using assms
proof (induction m)
  case Nil
  then show ?case by (simp add: List.map_filter_def)
next
  case (Cons e m)
  obtain k0 v0 where e: "e = (k0, v0)" by (cases e)
  from Cons.prems have "keys_ok m" and k0: "k0 \<notin> fst ` set m"
    by (auto simp: keys_ok_def e)
  note IH = Cons.IH [OF this(1)]
  show ?case
  proof (cases "k = k0")
    case True
    with k0 have "mget m k = None" by (simp add: map_of_eq_None_iff)
    with True IH show ?thesis
      by (cases "f k0 v0") (auto simp: e List.map_filter_simps)
  next
    case False
    with IH show ?thesis
      by (cases "f k0 v0") (auto simp: e List.map_filter_simps)
  qed
qed

lemma keys_ok_filter_map:
  assumes "keys_ok m"
  shows "keys_ok (List.map_filter (\<lambda>(k, v). map_option (Pair k) (f k v)) m)"
proof -
  have sub: "fst ` set (List.map_filter (\<lambda>(k, v). map_option (Pair k) (f k v)) m') \<subseteq> fst ` set m'" for m'
    by (force simp: List.map_filter_def)
  from assms show ?thesis
    unfolding keys_ok_def
  proof (induction m)
    case Nil
    then show ?case by (simp add: List.map_filter_def)
  next
    case (Cons e m)
    obtain k v where e: "e = (k, v)" by (cases e)
    show ?case
      using Cons sub [of m] by (cases "f k v") (auto simp: e List.map_filter_simps)
  qed
qed

section \<open>Invariants of step relations\<close>

text \<open>
  What a component with a step relation promises: its invariant holds at the start and every step keeps it.
\<close>

locale step_invariant =
  fixes step :: "'s \<Rightarrow> 's \<Rightarrow> bool" and start :: "'s \<Rightarrow> bool" and inv :: "'s \<Rightarrow> bool"
  assumes inv_start: "start s \<Longrightarrow> inv s"
    and inv_step: "step s t \<Longrightarrow> inv s \<Longrightarrow> inv t"
begin

lemma inv_run: "step\<^sup>*\<^sup>* s t \<Longrightarrow> inv s \<Longrightarrow> inv t"
  by (induction rule: rtranclp_induct) (auto intro: inv_step)

lemma inv_reachable: "step\<^sup>*\<^sup>* s t \<Longrightarrow> start s \<Longrightarrow> inv t"
  using inv_run inv_start by blast

end

end
