(* ===== verification/Hlc.thy ===== *)
theory Hlc
  imports Prelude
begin

text \<open>
  The hybrid logical clock of \<^verbatim>\<open>peer_service/internal/common/time.go\<close>. The two package
  variables \<open>hlcTime\<close> and \<open>hlcLogical\<close> are signed 64-bit integers. \<open>wall n\<close> is what
  the \<open>n\<close>-th call of \<^verbatim>\<open>time.Now().UnixMilli()\<close> returns (an input: the machine's
  clock may stand still or go back), and \<open>reads\<close> counts those calls.
\<close>

section \<open>The clock and its operations\<close>

record hlc =
  hlc_time :: i64
  hlc_logical :: i64
  wall :: "nat \<Rightarrow> i64"
  reads :: nat

definition PackHLC :: "i64 \<Rightarrow> i64 \<Rightarrow> i64" where
  "PackHLC physical logical = push_bit 16 physical OR (logical AND 0xFFFF)"

definition UnpackHLC :: "i64 \<Rightarrow> i64 \<times> i64" where
  "UnpackHLC h = (signed_drop_bit 16 h, h AND 0xFFFF)"

definition read_wall :: "hlc \<Rightarrow> i64 \<times> hlc" where
  "read_wall c = (wall c (reads c), c\<lparr>reads := Suc (reads c)\<rparr>)"

definition GetCurrentHLC :: "hlc \<Rightarrow> i64 \<times> hlc" where
  "GetCurrentHLC c0 =
     (let (now, c) = read_wall c0;
          c' = (if hlc_time c <s now then c\<lparr>hlc_time := now, hlc_logical := 0\<rparr>
                else c\<lparr>hlc_logical := hlc_logical c + 1\<rparr>)
      in (PackHLC (hlc_time c') (hlc_logical c'), c'))"

definition UpdateHLC :: "i64 \<Rightarrow> hlc \<Rightarrow> i64 \<times> hlc" where
  "UpdateHLC remoteHLC c0 =
     (let (now, c) = read_wall c0;
          (remoteTime, remoteLogical) = UnpackHLC remoteHLC;
          oldTime = hlc_time c;
          max1 = (if now <s remoteTime then remoteTime else now);
          maxTime = (if max1 <s oldTime then oldTime else max1);
          logical =
            (if maxTime = oldTime \<and> maxTime = remoteTime then
               (if hlc_logical c <s remoteLogical then remoteLogical + 1 else hlc_logical c + 1)
             else if maxTime = oldTime then hlc_logical c + 1
             else if maxTime = remoteTime then remoteLogical + 1
             else 0);
          c' = c\<lparr>hlc_time := maxTime, hlc_logical := logical\<rparr>
      in (PackHLC maxTime logical, c'))"

section \<open>Stamps: the abstract clock values\<close>

text \<open>
  What a packed timestamp stands for: a physical time and a counter, ordered lexicographically.
\<close>

datatype stamp = Stamp (phys: int) (cnt: int)

instantiation stamp :: linorder
begin

definition less_eq_stamp :: "stamp \<Rightarrow> stamp \<Rightarrow> bool" where
  "less_eq_stamp a b \<longleftrightarrow> phys a < phys b \<or> (phys a = phys b \<and> cnt a \<le> cnt b)"

definition less_stamp :: "stamp \<Rightarrow> stamp \<Rightarrow> bool" where
  "less_stamp a b \<longleftrightarrow> phys a < phys b \<or> (phys a = phys b \<and> cnt a < cnt b)"

instance
  by standard (auto simp: less_eq_stamp_def less_stamp_def stamp.expand)

end

definition clock_stamp :: "hlc \<Rightarrow> stamp" where
  "clock_stamp c = Stamp (sint (hlc_time c)) (sint (hlc_logical c))"

text \<open>
  The range in which packing loses nothing: 47 bits of time and 16 bits of counter, with room
  for \<open>n\<close> further increments.
\<close>

definition time_ok :: "i64 \<Rightarrow> bool" where
  "time_ok t \<longleftrightarrow> 0 \<le> sint t \<and> sint t < 2 ^ 47"

definition room :: "nat \<Rightarrow> hlc \<Rightarrow> bool" where
  "room n c \<longleftrightarrow> time_ok (hlc_time c) \<and> (\<forall>k. time_ok (wall c k))
     \<and> 0 \<le> sint (hlc_logical c) \<and> sint (hlc_logical c) + int n < 2 ^ 16"

definition remote_room :: "nat \<Rightarrow> i64 \<Rightarrow> bool" where
  "remote_room n h \<longleftrightarrow> time_ok (fst (UnpackHLC h)) \<and> sint (snd (UnpackHLC h)) + int n < 2 ^ 16"

section \<open>Packing\<close>

lemma low16_take: "(l :: i64) AND 0xFFFF = take_bit 16 l"
  by (simp only: take_bit_eq_mask mask_eq_exp_minus_1) simp

lemma low16_uint: "uint ((l :: i64) AND 0xFFFF) = uint l mod 65536"
  unfolding low16_take unsigned_take_bit_eq by (simp add: take_bit_eq_mod)

lemma low16_sint: "sint ((l :: i64) AND 0xFFFF) = sint l mod 65536"
proof -
  have "uint l mod 65536 < 65536" by simp
  then have b: "uint (l AND 0xFFFF) < 2 ^ 63" unfolding low16_uint by simp
  have "- (2 ^ 63) \<le> uint (l AND 0xFFFF)"
    by (rule order_trans [OF _ uint_ge_0]) simp
  with b have "sint (l AND 0xFFFF) = uint (l AND 0xFFFF)"
    unfolding sint_uint by (intro signed_take_bit_int_eq_self) simp_all
  also have "\<dots> = uint l mod 65536" by (rule low16_uint)
  also have "\<dots> = sint l mod 65536"
    by (simp add: uint_sint take_bit_eq_mod mod_mod_cancel)
  finally show ?thesis .
qed

lemma PackHLC_plus: "PackHLC p l = p * 65536 + (l AND 0xFFFF)"
proof -
  have "push_bit 16 p AND (l AND 0xFFFF) = 0"
    unfolding low16_take by (rule bit_eqI) (auto simp: bit_simps)
  then have "push_bit 16 p OR (l AND 0xFFFF) = push_bit 16 p + (l AND 0xFFFF)"
    by (metis add_0 word_plus_and_or)
  then show ?thesis by (simp add: PackHLC_def push_bit_eq_mult mult.commute)
qed

lemma sint_PackHLC:
  assumes "- (2 ^ 47) \<le> sint p" "sint p < 2 ^ 47"
  shows "sint (PackHLC p l) = sint p * 65536 + sint l mod 65536"
proof -
  let ?k = "sint p * 65536 + sint l mod 65536"
  have "PackHLC p l = word_of_int (sint p) * 65536 + word_of_int (sint (l AND 0xFFFF))"
    by (simp add: PackHLC_plus)
  also have "\<dots> = word_of_int ?k"
    by (simp add: low16_sint)
  finally have pk: "PackHLC p l = word_of_int ?k" .
  have m: "0 \<le> sint l mod 65536" "sint l mod 65536 < 65536" by simp_all
  have "- (2 ^ 63) \<le> ?k" "?k < 2 ^ 63" using assms m by simp_all
  then have "signed_take_bit 63 ?k = ?k"
    by (intro signed_take_bit_int_eq_self) simp_all
  then show ?thesis by (simp add: sint_sbintrunc' pk del: of_int_add of_int_mult)
qed

lemma sint_PackHLC_stamp:
  assumes "time_ok (hlc_time c)" "0 \<le> sint (hlc_logical c)" "sint (hlc_logical c) < 2 ^ 16"
  shows "sint (PackHLC (hlc_time c) (hlc_logical c)) = sint (hlc_time c) * 65536 + sint (hlc_logical c)"
  using assms by (subst sint_PackHLC) (simp_all add: time_ok_def)

lemma sint_Unpack:
  "sint (fst (UnpackHLC h)) = sint h div 65536" "sint (snd (UnpackHLC h)) = sint h mod 65536"
  by (simp_all add: UnpackHLC_def sint_signed_drop_bit_eq drop_bit_eq_div low16_sint)

lemma sint_i64_bounds: "- (2 ^ 63) \<le> sint (x :: i64)" "sint (x :: i64) < 2 ^ 63"
  using sint_ge [of x] sint_lt [of x] by simp_all

lemma Unpack_time_bounds:
  "- (2 ^ 47) \<le> sint (fst (UnpackHLC h))" "sint (fst (UnpackHLC h)) < 2 ^ 47"
  using sint_i64_bounds [of h] by (simp_all add: sint_Unpack)

lemma Pack_Unpack: "PackHLC (fst (UnpackHLC h)) (snd (UnpackHLC h)) = h"
proof -
  have "sint (PackHLC (fst (UnpackHLC h)) (snd (UnpackHLC h))) = sint h"
    by (subst sint_PackHLC) (use Unpack_time_bounds [of h] in \<open>simp_all add: sint_Unpack\<close>)
  then show ?thesis by (simp add: signed_word_eqI)
qed

lemma Unpack_Pack:
  assumes "- (2 ^ 47) \<le> sint p" "sint p < 2 ^ 47" "0 \<le> sint l" "sint l < 2 ^ 16"
  shows "UnpackHLC (PackHLC p l) = (p, l)"
proof -
  have v: "sint (PackHLC p l) = sint p * 65536 + sint l"
    using assms by (subst sint_PackHLC) simp_all
  have "sint (fst (UnpackHLC (PackHLC p l))) = sint p" "sint (snd (UnpackHLC (PackHLC p l))) = sint l"
    using assms by (simp_all add: sint_Unpack v)
  then show ?thesis by (metis prod.collapse signed_word_eqI)
qed

lemma Unpack_Pack_iff:
  "UnpackHLC (PackHLC p l) = (p, l) \<longleftrightarrow>
     - (2 ^ 47) \<le> sint p \<and> sint p < 2 ^ 47 \<and> 0 \<le> sint l \<and> sint l < 2 ^ 16"
proof
  assume eq: "UnpackHLC (PackHLC p l) = (p, l)"
  have "sint l = sint (PackHLC p l) mod 65536" using sint_Unpack(2) [of "PackHLC p l"] eq by simp
  then have "0 \<le> sint l" "sint l < 65536" by simp_all
  then show "- (2 ^ 47) \<le> sint p \<and> sint p < 2 ^ 47 \<and> 0 \<le> sint l \<and> sint l < 2 ^ 16"
    using Unpack_time_bounds [of "PackHLC p l"] eq by simp
qed (simp add: Unpack_Pack)

section \<open>One clock event\<close>

datatype hlc_event = LocalEvent | RemoteStamp i64

fun hlc_step :: "hlc_event \<Rightarrow> hlc \<Rightarrow> i64 \<times> hlc" where
  "hlc_step LocalEvent c = GetCurrentHLC c"
| "hlc_step (RemoteStamp h) c = UpdateHLC h c"

definition clock_value :: "hlc \<Rightarrow> int" where
  "clock_value c = sint (PackHLC (hlc_time c) (hlc_logical c))"

fun event_room :: "nat \<Rightarrow> hlc_event \<Rightarrow> bool" where
  "event_room n LocalEvent = True"
| "event_room n (RemoteStamp h) = remote_room n h"

lemma sint_Suc:
  assumes "0 \<le> sint (x :: i64)" "sint x < 2 ^ 16"
  shows "sint (x + 1) = sint x + 1"
proof -
  have "x + 1 = word_of_int (sint x + 1)" by simp
  then have "sint (x + 1) = signed_take_bit 63 (sint x + 1)"
    by (simp only: sint_sbintrunc') simp
  also have "\<dots> = sint x + 1"
    using assms by (intro signed_take_bit_int_eq_self) simp_all
  finally show ?thesis .
qed

lemma room_less: "room n c \<Longrightarrow> m \<le> n \<Longrightarrow> room m c"
  by (simp add: room_def)

lemma room_value:
  "room n c \<Longrightarrow> clock_value c = sint (hlc_time c) * 65536 + sint (hlc_logical c)"
  unfolding clock_value_def by (rule sint_PackHLC_stamp) (simp_all add: room_def)

text \<open>Inside the range, packed order is the order of stamps.\<close>

lemma room_stamp_less:
  assumes "room n a" "room m b"
  shows "clock_value a < clock_value b \<longleftrightarrow> clock_stamp a < clock_stamp b"
proof -
  have "0 \<le> sint (hlc_logical a)" "sint (hlc_logical a) < 65536"
    "0 \<le> sint (hlc_logical b)" "sint (hlc_logical b) < 65536"
    using assms by (simp_all add: room_def)
  then show ?thesis
    by (auto simp: room_value [OF assms(1)] room_value [OF assms(2)] clock_stamp_def less_stamp_def)
qed

text \<open>Shape of the two operations: the new clock, and the timestamp read off it.\<close>

lemma hlc_step_value: "hlc_step e c = (t, c') \<Longrightarrow> sint t = clock_value c'"
  by (cases e) (auto simp: GetCurrentHLC_def UpdateHLC_def Let_def clock_value_def read_wall_def
      split: prod.splits)

lemma GetCurrentHLC_room:
  assumes "room (Suc n) c" "GetCurrentHLC c = (t, c')"
  shows "room n c'" and "clock_stamp c < clock_stamp c'"
proof -
  have l: "0 \<le> sint (hlc_logical c)" "sint (hlc_logical c) < 2 ^ 16"
    using assms(1) by (simp_all add: room_def)
  show "room n c'" "clock_stamp c < clock_stamp c'"
    using assms sint_Suc [OF l]
    by (auto simp: GetCurrentHLC_def Let_def read_wall_def room_def clock_stamp_def less_stamp_def
        word_sless_alt split: if_splits)
qed

definition remote_stamp :: "i64 \<Rightarrow> stamp" where
  "remote_stamp h = Stamp (sint (fst (UnpackHLC h))) (sint (snd (UnpackHLC h)))"

lemma remote_value: "sint h = phys (remote_stamp h) * 65536 + cnt (remote_stamp h)"
  by (simp add: remote_stamp_def sint_Unpack)

lemma UpdateHLC_room:
  assumes c: "room (Suc n) c" and h: "remote_room (Suc n) h" and u: "UpdateHLC h c = (t, c')"
  shows "room n c'" and "clock_stamp c < clock_stamp c'" and "remote_stamp h < clock_stamp c'"
proof -
  obtain rt rl where rem: "UnpackHLC h = (rt, rl)" by (cases "UnpackHLC h")
  have "0 \<le> sint rl" "sint rl < 2 ^ 16" using sint_Unpack(2) [of h] by (simp_all add: rem)
  note rl = this sint_Suc [OF this]
  have "0 \<le> sint (hlc_logical c)" "sint (hlc_logical c) < 2 ^ 16"
    using c by (simp_all add: room_def)
  note l = this sint_Suc [OF this]
  have eqs: "(a = b) = (sint a = sint b)" for a b :: i64
    by (metis signed_word_eqI)
  show "room n c'" "clock_stamp c < clock_stamp c'" "remote_stamp h < clock_stamp c'"
    using c h u rl l
    by (auto simp: UpdateHLC_def Let_def read_wall_def room_def remote_room_def clock_stamp_def
        less_stamp_def remote_stamp_def word_sless_alt rem eqs split: if_splits)
qed

section \<open>The interface of a logical clock\<close>

text \<open>
  What the rest of the peer relies on: every event the clock emits is later than the clock was,
  and the clock has moved to it, as long as there is room for the event.
\<close>

fun emit_all :: "('e \<Rightarrow> 'c \<Rightarrow> 't \<times> 'c) \<Rightarrow> 'e list \<Rightarrow> 'c \<Rightarrow> 't list" where
  "emit_all emit [] c = []"
| "emit_all emit (e # es) c = (case emit e c of (t, c') \<Rightarrow> t # emit_all emit es c')"

locale event_clock =
  fixes emit :: "'e \<Rightarrow> 'c \<Rightarrow> 't \<times> 'c"
    and stamp_val :: "'t \<Rightarrow> 'o :: linorder"
    and clock_val :: "'c \<Rightarrow> 'o"
    and fits :: "nat \<Rightarrow> 'c \<Rightarrow> bool"
    and fits_event :: "nat \<Rightarrow> 'e \<Rightarrow> bool"
  assumes emit_fits: "fits (Suc n) c \<Longrightarrow> fits_event (Suc n) e \<Longrightarrow> emit e c = (t, c') \<Longrightarrow> fits n c'"
    and emit_later: "fits (Suc n) c \<Longrightarrow> fits_event (Suc n) e \<Longrightarrow> emit e c = (t, c')
      \<Longrightarrow> clock_val c < clock_val c'"
    and emit_value: "emit e c = (t, c') \<Longrightarrow> stamp_val t = clock_val c'"
    and fits_event_less: "fits_event n e \<Longrightarrow> m \<le> n \<Longrightarrow> fits_event m e"
begin

lemma emit_all_increasing:
  assumes "fits (length es) c" "\<forall>e \<in> set es. fits_event (length es) e"
  shows "sorted_wrt (<) (clock_val c # map stamp_val (emit_all emit es c))"
  using assms
proof (induction es arbitrary: c)
  case Nil
  then show ?case by simp
next
  case (Cons e es)
  obtain t c' where e: "emit e c = (t, c')" by (cases "emit e c")
  have fe: "fits_event (Suc (length es)) e" using Cons.prems(2) by simp
  have later: "clock_val c < clock_val c'" and val: "stamp_val t = clock_val c'"
    and fits: "fits (length es) c'"
    using Cons.prems(1) emit_later [OF _ fe e] emit_fits [OF _ fe e] emit_value [OF e] by simp_all
  have "\<forall>x \<in> set es. fits_event (length es) x"
    using Cons.prems(2) by (auto intro: fits_event_less [of "Suc (length es)"])
  from Cons.IH [OF fits this] later val show ?case by (auto simp: e)
qed

lemma emit_all_distinct:
  assumes "fits (length es) c" "\<forall>e \<in> set es. fits_event (length es) e"
  shows "distinct (map stamp_val (emit_all emit es c))"
  using emit_all_increasing [OF assms]
  by (auto simp: strict_sorted_iff)

end

lemma remote_room_less: "remote_room n h \<Longrightarrow> m \<le> n \<Longrightarrow> remote_room m h"
  by (simp add: remote_room_def)

lemma hlc_step_room:
  assumes "room (Suc n) c" "event_room (Suc n) e" "hlc_step e c = (t, c')"
  shows "room n c'" and "clock_stamp c < clock_stamp c'"
  using assms by (cases e; auto dest: GetCurrentHLC_room UpdateHLC_room)+

interpretation hlc_clock: event_clock hlc_step "sint :: i64 \<Rightarrow> int" clock_value room event_room
proof unfold_locales
  fix n c e t c'
  assume a: "room (Suc n) c" "event_room (Suc n) e" "hlc_step e c = (t, c')"
  show "room n c'" by (rule hlc_step_room [OF a])
  from a(1) this have "clock_value c < clock_value c' \<longleftrightarrow> clock_stamp c < clock_stamp c'"
    by (rule room_stamp_less)
  with hlc_step_room(2) [OF a] show "clock_value c < clock_value c'" by simp
next
  fix n m e
  assume "event_room n e" "m \<le> n"
  then show "event_room m e" by (cases e) (simp_all add: remote_room_less)
qed (rule hlc_step_value)

definition hlc_run :: "hlc_event list \<Rightarrow> hlc \<Rightarrow> i64 list" where
  "hlc_run es c = emit_all hlc_step es c"

section \<open>Properties of the clock\<close>

text \<open>
  C31. Timestamps issued by one peer are strictly increasing (as signed 64-bit integers), whatever
  mix of local events and received timestamps drives the clock and whatever the wall clock
  does, as long as the 16-bit counter has room for the events.
\<close>

theorem hlc_run_increasing:
  assumes "room (length es) c" "\<forall>e \<in> set es. event_room (length es) e"
  shows "sorted_wrt (<) (clock_value c # map sint (hlc_run es c))"
  unfolding hlc_run_def using assms by (rule hlc_clock.emit_all_increasing)

theorem hlc_run_increasing_witness:
  "sorted_wrt (<) (clock_value \<lparr>hlc_time = 5, hlc_logical = 0, wall = (\<lambda>n. 7), reads = 0\<rparr>
     # map sint (hlc_run [LocalEvent, RemoteStamp 589825, LocalEvent]
         \<lparr>hlc_time = 5, hlc_logical = 0, wall = (\<lambda>n. 7), reads = 0\<rparr>))"
  by (rule hlc_run_increasing)
    (simp_all add: room_def time_ok_def remote_room_def sint_Unpack)

text \<open>
  Receiving a timestamp moves the clock past both the received timestamp and everything this
  peer issued before: the causal order of messages is kept.
\<close>

theorem UpdateHLC_after_remote_and_local:
  assumes "room (Suc 0) c" "remote_room (Suc 0) h" "UpdateHLC h c = (t, c')"
  shows "sint h < sint t \<and> clock_value c < sint t"
proof -
  have r: "room 0 c'" "clock_stamp c < clock_stamp c'" "remote_stamp h < clock_stamp c'"
    by (rule UpdateHLC_room [OF assms])+
  have t: "sint t = clock_value c'" using assms(3) hlc_step_value [of "RemoteStamp h"] by simp
  have "cnt (remote_stamp h) < 65536" "0 \<le> sint (hlc_logical c')"
    using r(1) by (simp_all add: remote_stamp_def sint_Unpack room_def)
  with r(3) have "sint h < clock_value c'"
    by (auto simp: remote_value [of h] room_value [OF r(1)] less_stamp_def clock_stamp_def)
  with t r(2) room_stamp_less [OF assms(1) r(1)] show ?thesis by simp
qed

theorem UpdateHLC_after_remote_and_local_witness:
  "\<exists>t c'. UpdateHLC 589825 \<lparr>hlc_time = 5, hlc_logical = 3, wall = (\<lambda>n. 7), reads = 0\<rparr> = (t, c')
     \<and> sint (589825 :: i64) < sint t
     \<and> clock_value \<lparr>hlc_time = 5, hlc_logical = 3, wall = (\<lambda>n. 7), reads = 0\<rparr> < sint t"
proof -
  let ?c = "\<lparr>hlc_time = 5, hlc_logical = 3, wall = (\<lambda>n. 7), reads = 0\<rparr>"
  obtain t c' where u: "UpdateHLC 589825 ?c = (t, c')" by (cases "UpdateHLC 589825 ?c")
  have "sint (589825 :: i64) < sint t \<and> clock_value ?c < sint t"
    by (rule UpdateHLC_after_remote_and_local [OF _ _ u])
      (simp_all add: room_def time_ok_def remote_room_def sint_Unpack)
  with u show ?thesis by blast
qed

text \<open>
  C32. Packing and unpacking are inverse in one direction always, in the other exactly on 48-bit
  signed times and 16-bit counters.
\<close>

theorem hlc_pack_roundtrip:
  "PackHLC (fst (UnpackHLC h)) (snd (UnpackHLC h)) = h \<and>
   (UnpackHLC (PackHLC p l) = (p, l) \<longleftrightarrow>
     - (2 ^ 47) \<le> sint p \<and> sint p < 2 ^ 47 \<and> 0 \<le> sint l \<and> sint l < 2 ^ 16)"
  by (simp add: Pack_Unpack Unpack_Pack_iff)

text \<open>
  The bound on the counter is needed: when the counter stands at \<open>0xFFFF\<close> and the wall clock is not
  ahead (for example after a message from a peer whose clock runs ahead), the next local event
  is stamped 65535 below the last one: the counter overflows out of its 16 bits.
\<close>

theorem GetCurrentHLC_counter_overflow:
  assumes "time_ok (hlc_time c)" "hlc_logical c = 0xFFFF" "\<not> hlc_time c <s wall c (reads c)"
  shows "sint (fst (GetCurrentHLC c)) = clock_value c - 65535"
proof -
  have "- (2 ^ 47) \<le> sint (hlc_time c)" "sint (hlc_time c) < 2 ^ 47"
    using assms(1) by (simp_all add: time_ok_def)
  note pack = sint_PackHLC [OF this]
  show ?thesis
    using assms(2,3) by (simp add: GetCurrentHLC_def read_wall_def Let_def clock_value_def pack)
qed

theorem GetCurrentHLC_counter_overflow_witness:
  "sint (fst (GetCurrentHLC \<lparr>hlc_time = 9, hlc_logical = 0xFFFF, wall = (\<lambda>n. 7), reads = 0\<rparr>))
     = clock_value \<lparr>hlc_time = 9, hlc_logical = 0xFFFF, wall = (\<lambda>n. 7), reads = 0\<rparr> - 65535"
  by (rule GetCurrentHLC_counter_overflow) (simp_all add: time_ok_def word_sless_alt)

end
