(* ===== verification/GoStrings.thy ===== *)
theory GoStrings
  imports Prelude
begin

text \<open>
  The functions of Go's \<^verbatim>\<open>strings\<close>, \<^verbatim>\<open>strconv\<close> and \<^verbatim>\<open>fmt\<close> packages
  the peer service calls. A Go string is a byte string, here a \<open>string\<close>. Case folding and
  white space are those of ASCII: a name with bytes above 127 keeps them unchanged here, where Go
  would fold the code points they encode.
\<close>

section \<open>strings\<close>

definition ascii_code :: "char \<Rightarrow> nat" where
  "ascii_code c = of_char c"

definition char_lower :: "char \<Rightarrow> char" where
  "char_lower c = (if 65 \<le> ascii_code c \<and> ascii_code c \<le> 90 then char_of (ascii_code c + 32) else c)"

definition is_space :: "char \<Rightarrow> bool" where
  "is_space c \<longleftrightarrow> (9 \<le> ascii_code c \<and> ascii_code c \<le> 13) \<or> ascii_code c = 32"

definition to_lower :: "string \<Rightarrow> string" where
  "to_lower s = map char_lower s"

definition trim_space :: "string \<Rightarrow> string" where
  "trim_space s = rev (dropWhile is_space (rev (dropWhile is_space s)))"

definition has_prefix :: "string \<Rightarrow> string \<Rightarrow> bool" where
  "has_prefix s p \<longleftrightarrow> take (length p) s = p"

definition has_suffix :: "string \<Rightarrow> string \<Rightarrow> bool" where
  "has_suffix s p \<longleftrightarrow> has_prefix (rev s) (rev p)"

definition trim_prefix :: "string \<Rightarrow> string \<Rightarrow> string" where
  "trim_prefix s p = (if has_prefix s p then drop (length p) s else s)"

definition trim_suffix :: "string \<Rightarrow> string \<Rightarrow> string" where
  "trim_suffix s p = (if has_suffix s p then take (length s - length p) s else s)"

fun contains_sub :: "string \<Rightarrow> string \<Rightarrow> bool" where
  "contains_sub [] p = (p = [])"
| "contains_sub (c # s) p = (has_prefix (c # s) p \<or> contains_sub s p)"

fun split_on :: "char \<Rightarrow> string \<Rightarrow> string list" where
  "split_on d [] = [[]]"
| "split_on d (c # s) =
     (if c = d then [] # split_on d s
      else (case split_on d s of [] \<Rightarrow> [[c]] | w # ws \<Rightarrow> (c # w) # ws))"

lemma ascii_code_char_of [simp]: "n < 256 \<Longrightarrow> ascii_code (char_of n) = n"
  by (simp add: ascii_code_def)

lemma char_lower_idem [simp]: "char_lower (char_lower c) = char_lower c"
  by (simp add: char_lower_def)

lemma is_space_char_lower [simp]: "is_space (char_lower c) = is_space c"
  by (simp add: is_space_def char_lower_def)

lemma to_lower_Nil [simp]: "to_lower [] = []"
  by (simp add: to_lower_def)

lemma to_lower_eq_Nil [simp]: "to_lower s = [] \<longleftrightarrow> s = []"
  by (simp add: to_lower_def)

lemma to_lower_idem [simp]: "to_lower (to_lower s) = to_lower s"
  by (simp add: to_lower_def)

lemma dropWhile_space_lower:
  "dropWhile is_space (map char_lower s) = map char_lower (dropWhile is_space s)"
  by (simp add: dropWhile_map comp_def)

lemma to_lower_trim: "to_lower (trim_space s) = trim_space (to_lower s)"
  by (simp add: to_lower_def trim_space_def dropWhile_space_lower rev_map)

lemma dropWhile_rev_dropWhile:
  "dropWhile p (rev (dropWhile p (rev (dropWhile p s)))) = rev (dropWhile p (rev (dropWhile p s)))"
proof (cases "dropWhile p s")
  case Nil
  show ?thesis unfolding Nil by simp
next
  case (Cons c t)
  then have c: "\<not> p c" by (metis dropWhile_eq_Cons_conv)
  have "dropWhile p (rev t @ [c]) = dropWhile p (rev t) @ [c]"
    using c by (induction t rule: rev_induct) auto
  with c show ?thesis unfolding Cons by simp
qed

lemma trim_space_idem [simp]: "trim_space (trim_space s) = trim_space s"
  by (simp add: trim_space_def dropWhile_rev_dropWhile)

lemma trim_space_Nil [simp]: "trim_space [] = []"
  by (simp add: trim_space_def)

lemma has_prefix_append [simp]: "has_prefix (p @ s) p"
  by (simp add: has_prefix_def)

lemma has_suffix_append [simp]: "has_suffix (s @ p) p"
  by (simp add: has_suffix_def)

lemma has_prefixE: "has_prefix s p \<Longrightarrow> \<exists>t. s = p @ t"
  by (metis has_prefix_def append_take_drop_id)

lemma has_suffixE: "has_suffix s p \<Longrightarrow> \<exists>t. s = t @ p"
  unfolding has_suffix_def by (drule has_prefixE) (metis rev_append rev_rev_ident)

lemma trim_prefix_append [simp]: "trim_prefix (p @ s) p = s"
  by (simp add: trim_prefix_def)

lemma trim_suffix_append [simp]: "trim_suffix (s @ p) p = s"
  by (simp add: trim_suffix_def)

lemma split_on_not_Nil [simp]: "split_on d s \<noteq> []"
  by (induction s) (auto split: list.splits)

lemma split_on_single: "d \<notin> set s \<Longrightarrow> split_on d s = [s]"
  by (induction s) auto

lemma split_on_append: "d \<notin> set w \<Longrightarrow> split_on d (w @ d # s) = w # split_on d s"
  by (induction w) auto

section \<open>Decimal numbers\<close>

definition digit :: "nat \<Rightarrow> char" where
  "digit n = char_of (48 + n)"

definition is_digit :: "char \<Rightarrow> bool" where
  "is_digit c \<longleftrightarrow> 48 \<le> ascii_code c \<and> ascii_code c \<le> 57"

definition digit_val :: "char \<Rightarrow> nat" where
  "digit_val c = ascii_code c - 48"

text \<open>\<^verbatim>\<open>fmt.Sprintf("%d", n)\<close> for an unsigned \<open>n\<close>.\<close>

fun dec :: "nat \<Rightarrow> string" where
  "dec n = (if n < 10 then [digit n] else dec (n div 10) @ [digit (n mod 10)])"

declare dec.simps [simp del]

definition dec_val :: "string \<Rightarrow> nat" where
  "dec_val s = foldl (\<lambda>v c. 10 * v + digit_val c) 0 s"

text \<open>Leading zeros up to a width.\<close>

definition pad0 :: "nat \<Rightarrow> string \<Rightarrow> string" where
  "pad0 k s = replicate (k - length s) (CHR ''0'') @ s"

text \<open>\<^verbatim>\<open>strconv.ParseUint(s, 10, 32)\<close>: a non-empty run of digits below \<open>2 ^ 32\<close>.\<close>

definition parse_uint32 :: "string \<Rightarrow> u32 option" where
  "parse_uint32 s =
     (if s \<noteq> [] \<and> list_all is_digit s \<and> dec_val s < 2 ^ 32
      then Some (word_of_nat (dec_val s)) else None)"

lemma is_digit_digit [simp]: "n < 10 \<Longrightarrow> is_digit (digit n)"
  by (simp add: is_digit_def digit_def)

lemma digit_val_digit [simp]: "n < 10 \<Longrightarrow> digit_val (digit n) = n"
  by (simp add: digit_val_def digit_def)

lemma dec_not_Nil [simp]: "dec n \<noteq> []"
  by (subst dec.simps) simp

lemma dec_digits: "list_all is_digit (dec n)"
  by (induction n rule: dec.induct) (subst dec.simps, simp)

lemma dec_val_snoc: "dec_val (s @ [c]) = 10 * dec_val s + digit_val c"
  by (simp add: dec_val_def)

lemma dec_val_dec [simp]: "dec_val (dec n) = n"
proof (induction n rule: dec.induct)
  case (1 n)
  show ?case
  proof (cases "n < 10")
    case True
    then show ?thesis by (simp add: dec.simps [of n] dec_val_def)
  next
    case False
    with 1 have "dec_val (dec (n div 10)) = n div 10" by simp
    with False show ?thesis by (simp add: dec.simps [of n] dec_val_snoc)
  qed
qed

lemma parse_uint32_dec: "n < 2 ^ 32 \<Longrightarrow> parse_uint32 (dec n) = Some (word_of_nat n)"
  by (simp add: parse_uint32_def dec_digits)

lemma parse_uint32_dec_unat [simp]: "parse_uint32 (dec (unat (w :: u32))) = Some w"
proof -
  have "unat w < 2 ^ 32" using unsigned_less [of w] by simp
  then show ?thesis by (simp add: parse_uint32_dec)
qed

end
