(* ===== verification/Roles.thy ===== *)
theory Roles
  imports GoStrings
begin

text \<open>
  Permissions and roles: \<^verbatim>\<open>peer_service/internal/roles/roles.go\<close>. A \<open>permission\<close> is a
  Go \<^verbatim>\<open>int\<close> used as a bit mask.
\<close>

type_synonym permission = "64 word"

definition PermView :: permission where "PermView = push_bit 0 1"
definition PermChat :: permission where "PermChat = push_bit 1 1"
definition PermKickUser :: permission where "PermKickUser = push_bit 2 1"
definition PermBanUser :: permission where "PermBanUser = push_bit 3 1"
definition PermModerateChat :: permission where "PermModerateChat = push_bit 4 1"
definition PermAddRemoveRoles :: permission where "PermAddRemoveRoles = push_bit 5 1"
definition PermManageUserRoles :: permission where "PermManageUserRoles = push_bit 6 1"
definition PermInvite :: permission where "PermInvite = push_bit 7 1"
definition PermStream :: permission where "PermStream = push_bit 8 1"
definition PermPlayPause :: permission where "PermPlayPause = push_bit 9 1"
definition PermSeek :: permission where "PermSeek = push_bit 10 1"
definition PermSetSpeed :: permission where "PermSetSpeed = push_bit 11 1"
definition PermQueue :: permission where "PermQueue = push_bit 12 1"
definition PermAll :: permission where "PermAll = push_bit 13 1 - 1"

lemmas perm_defs = PermView_def PermChat_def PermKickUser_def PermBanUser_def PermModerateChat_def
  PermAddRemoveRoles_def PermManageUserRoles_def PermInvite_def PermStream_def PermPlayPause_def
  PermSeek_def PermSetSpeed_def PermQueue_def PermAll_def

record role =
  role_name :: string
  role_perms :: permission

definition PermissionsForRoles :: "role list \<Rightarrow> permission" where
  "PermissionsForRoles rs = foldl (\<lambda>p r. p OR role_perms r) 0 rs"

definition HasPermission :: "permission \<Rightarrow> permission \<Rightarrow> bool" where
  "HasPermission required perms \<longleftrightarrow> perms AND required \<noteq> 0"

definition Has :: "permission \<Rightarrow> permission \<Rightarrow> bool" where
  "Has p required \<longleftrightarrow> p AND required \<noteq> 0"

lemma foldl_OR_bit:
  "bit (foldl (\<lambda>p r. p OR f r) (p0 :: 64 word) rs) n \<longleftrightarrow> bit p0 n \<or> (\<exists>r \<in> set rs. bit (f r) n)"
  by (induction rs arbitrary: p0) (auto simp: bit_or_iff)

lemma PermissionsForRoles_bit:
  "bit (PermissionsForRoles rs) n \<longleftrightarrow> (\<exists>r \<in> set rs. bit (role_perms r) n)"
  by (simp add: PermissionsForRoles_def foldl_OR_bit)

lemma Has_zero [simp]: "\<not> Has 0 q"
  by (simp add: Has_def)

lemma Has_bits: "Has p q \<longleftrightarrow> (\<exists>n. bit p n \<and> bit q n)"
proof -
  have "n < 64" if "bit p n" for n
    using bit_imp_le_length [OF that] by simp
  then show ?thesis by (auto simp: Has_def bit_eq_iff bit_and_iff)
qed

lemma Has_OR [simp]: "Has (p OR p') q \<longleftrightarrow> Has p q \<or> Has p' q"
  by (auto simp: Has_bits bit_or_iff)

text \<open>The single-bit permissions, and what \<open>PermAll\<close> holds.\<close>

definition perm_bits :: "permission list" where
  "perm_bits = [PermView, PermChat, PermKickUser, PermBanUser, PermModerateChat, PermAddRemoveRoles,
     PermManageUserRoles, PermInvite, PermStream, PermPlayPause, PermSeek, PermSetSpeed, PermQueue]"

lemma PermAll_mask: "PermAll = mask 13"
  by (simp add: PermAll_def mask_eq_exp_minus_1 push_bit_eq_mult)

lemma Has_PermAll: "q \<in> set perm_bits \<Longrightarrow> Has PermAll q"
  by (auto simp: perm_bits_def perm_defs Has_def push_bit_eq_mult)

lemma PermissionsForRoles_Has:
  "Has (PermissionsForRoles rs) q \<longleftrightarrow> (\<exists>r \<in> set rs. Has (role_perms r) q)"
  by (auto simp: Has_bits PermissionsForRoles_bit)

end
