(* ===== verification/Messages.thy ===== *)
theory Messages
  imports GoStrings
begin

text \<open>
  Peer identifiers and the protobuf messages of \<^verbatim>\<open>proto/\<close>: what the GUI sends to the peer
  service (\<open>client_msg\<close>) and what the service sends to the GUI and gossips to the other peers
  (\<open>server_msg\<close>). A Go pointer that the code compares with \<^verbatim>\<open>nil\<close> is an \<open>option\<close>.

  The textual form of a peer identifier and the wire form of a snapshot belong to libp2p and to
  protobuf, which are not part of this repository: they are the parameter \<open>codec\<close>.
\<close>

datatype peer_id = PeerID string

section \<open>Messages both sides share\<close>

record queue_item_pb =
  qp_file_path :: string
  qp_stored_by :: string
  qp_added_by :: string
  qp_first_seq :: u32
  qp_num_segs :: u32
  qp_hlc_ts :: i64

record queue_update =
  qu_items :: "queue_item_pb list"
  qu_hlc_ts :: i64

record role_definition_pb =
  rd_name :: string
  rd_permissions :: u32

record role_definitions_update =
  rdu_definitions :: "role_definition_pb option list"
  rdu_hlc_ts :: i64

record peer_role_assignment =
  pra_peer_id :: string
  pra_role_names :: "string list"
  pra_hlc_ts :: i64

record all_peer_role_assignments =
  apra_assignments :: "peer_role_assignment option list"
  apra_hlc_ts :: i64

record set_playback_state =
  sp_time_pos :: float64
  sp_is_playing :: bool
  sp_speed :: float64
  sp_hlc_ts :: i64
  sp_stream_seq :: u32

record playlist_reset =
  pr_sequence :: u32
  pr_start_pts :: float64
  pr_origin_sec :: float64
  pr_hlc_ts :: i64

record local_peer_identity =
  lpi_peer_id :: string
  lpi_username :: "string option"

record session_state_data =
  ssd_assignments :: "all_peer_role_assignments option"
  ssd_queue :: "queue_update option"
  ssd_playback :: "set_playback_state option"
  ssd_identities :: "local_peer_identity list"

record join_response =
  jr_session_id :: string
  jr_assigned_roles :: "string list"
  jr_snapshot :: bytes
  jr_session_name :: "string option"
  jr_error :: "string option"

record create_response =
  cr_session_id :: string
  cr_invite_code :: string
  cr_error :: "string option"

record auth_request =
  ar_session_id :: string
  ar_username :: string

section \<open>From the service to the clients and the other peers\<close>

record chat_msg =
  cm_message_id :: string
  cm_sender :: string
  cm_text :: string
  cm_hlc_ts :: i64
  cm_reply_to :: string

record chat_delete_msg =
  cd_message_id :: string
  cd_deleted_by :: string
  cd_hlc_ts :: i64

record peer_expelled =
  pe_peer_id :: string
  pe_issued_by :: string
  pe_reason :: string
  pe_hlc_ts :: i64

record peer_left =
  pl_peer_id :: string
  pl_reason :: string
  pl_hlc_ts :: i64

record stream_status =
  ss_file_path :: string
  ss_sequence :: u32
  ss_pts :: float64
  ss_duration :: float64
  ss_is_live :: bool

text \<open>What the streamer gossips for every segment.\<close>

record video_segment_gossip =
  vs_sequence :: u32
  vs_data :: bytes
  vs_duration :: float64

datatype server_msg =
    QueueUpdate queue_update
  | StreamStatus stream_status
  | ChatMsg chat_msg
  | RoleDefinitionsUpdate role_definitions_update
  | PeerRoleAssignment peer_role_assignment
  | AllPeerRoleAssignments all_peer_role_assignments
  | LocalPeerIdentity local_peer_identity
  | PlaybackStateMsg set_playback_state
  | PlaylistReset playlist_reset
  | CreateSessionResponse create_response
  | JoinSessionResponse join_response
  | ChatDeleteMsg chat_delete_msg
  | PeerKicked peer_expelled
  | PeerBanned peer_expelled
  | PeerLeft peer_left

section \<open>From the client to the service\<close>

text \<open>A proto3 enum is open: a value without a name reaches the code as a number.\<close>

datatype queue_cmd_type = APPEND | REMOVE | NEXT | CLEAR | SKIP_NEXT | SKIP_PREV | UNKNOWN_TYPE int

record queue_cmd =
  qc_type :: queue_cmd_type
  qc_file_path :: string
  qc_index :: int
  qc_hlc_ts :: i64

record target_cmd =
  tc_target :: string
  tc_reason :: string
  tc_hlc_ts :: i64

datatype client_msg =
    QueueCmd queue_cmd
  | PlaybackStateCmd set_playback_state
  | ChatCmd string i64 string
  | SetPeerRolesCmd string "string list" i64
  | UpdateRoleCmd "role_definition_pb option" i64
  | RemoveRoleCmd string i64
  | PlaybackStreamCompletedCmd u32 i64
  | CreateSessionRequest "string option" "string option"
  | JoinSessionRequest string "string option"
  | ChatDeleteCmd string i64
  | KickPeerCmd target_cmd
  | BanPeerCmd target_cmd
  | LeaveSessionRequest string i64

section \<open>The parameters for libp2p and protobuf\<close>

record codec =
  pid_string :: "peer_id \<Rightarrow> string"
  pid_decode :: "string \<Rightarrow> peer_id option"
  snap_marshal :: "session_state_data \<Rightarrow> bytes option"
  snap_unmarshal :: "bytes \<Rightarrow> session_state_data option"

text \<open>
  Documented behaviour of the two libraries: \<^verbatim>\<open>peer.Decode\<close> reads what \<^verbatim>\<open>ID.String\<close> prints,
  and \<^verbatim>\<open>proto.Unmarshal\<close> reads what \<^verbatim>\<open>proto.Marshal\<close> wrote.
\<close>

definition codec_ok :: "codec \<Rightarrow> bool" where
  "codec_ok K \<longleftrightarrow> (\<forall>p. pid_decode K (pid_string K p) = Some p)
     \<and> (\<forall>d b. snap_marshal K d = Some b \<longrightarrow> snap_unmarshal K b = Some d)"

lemma codec_ok_decode [simp]: "codec_ok K \<Longrightarrow> pid_decode K (pid_string K p) = Some p"
  by (simp add: codec_ok_def)

lemma codec_ok_inj: "codec_ok K \<Longrightarrow> pid_string K p = pid_string K q \<longleftrightarrow> p = q"
  by (metis codec_ok_decode option.inject)

lemma codec_ok_snapshot: "codec_ok K \<Longrightarrow> snap_marshal K d = Some b \<Longrightarrow> snap_unmarshal K b = Some d"
  by (simp add: codec_ok_def)

text \<open>A concrete codec for the examples: identifiers print as themselves, nothing else decodes.\<close>

definition plain_codec :: codec where
  "plain_codec = \<lparr>pid_string = (\<lambda>p. case p of PeerID s \<Rightarrow> s), pid_decode = (\<lambda>s. Some (PeerID s)),
     snap_marshal = (\<lambda>d. None), snap_unmarshal = (\<lambda>b. None)\<rparr>"

lemma plain_codec_ok [simp]: "codec_ok plain_codec"
  by (auto simp: codec_ok_def plain_codec_def split: peer_id.split)

lemma plain_codec_simps [simp]:
  "pid_string plain_codec (PeerID s) = s" "pid_decode plain_codec s = Some (PeerID s)"
  by (simp_all add: plain_codec_def)

end
