(* ===== verification/RoleManager.thy ===== *)
theory RoleManager
  imports Roles Messages Hlc
begin

text \<open>
  The role manager: \<^verbatim>\<open>peer_service/internal/roles/role_manager.go\<close>. Role definitions by
  normalised name, role assignments by peer with the HLC time of their last change. Operations
  take and return the manager, and the clock where they stamp something; an error return is
  \<open>Inl\<close>.
\<close>

section \<open>State\<close>

record peer_assignment =
  role_names :: "string list"
  assign_ts :: i64

record role_manager =
  definitions :: "(string, role) gomap"
  assignments :: "(peer_id, peer_assignment) gomap"

datatype rm_error =
    RoleNotDefined string
  | RoleNameEmpty
  | NilUpdate
  | NilSnapshot

definition defaultRoleDefinitions :: "role list" where
  "defaultRoleDefinitions =
    [\<lparr>role_name = ''Admin'', role_perms = PermAll\<rparr>,
     \<lparr>role_name = ''Moderator'', role_perms =
        PermKickUser OR PermBanUser OR PermModerateChat OR PermAddRemoveRoles OR
        PermManageUserRoles OR PermInvite\<rparr>,
     \<lparr>role_name = ''Streamer'', role_perms =
        PermStream OR PermPlayPause OR PermSeek OR PermSetSpeed OR PermQueue\<rparr>,
     \<lparr>role_name = ''Viewer'', role_perms = PermView OR PermChat\<rparr>]"

definition NewRoleManager :: role_manager where
  "NewRoleManager =
    \<lparr>definitions = fold (\<lambda>r m. mput m (to_lower (role_name r)) r) defaultRoleDefinitions [],
     assignments = []\<rparr>"

section \<open>Queries\<close>

definition GetDefinitions :: "role_manager \<Rightarrow> role list" where
  "GetDefinitions rm = map snd (definitions rm)"

definition GetDefinition :: "string \<Rightarrow> role_manager \<Rightarrow> role option" where
  "GetDefinition n rm = mget (definitions rm) (to_lower n)"

definition GetAssignedRoles :: "peer_id \<Rightarrow> role_manager \<Rightarrow> string list \<times> i64" where
  "GetAssignedRoles p rm =
     (case mget (assignments rm) p of
        None \<Rightarrow> ([], 0)
      | Some st \<Rightarrow> (role_names st, assign_ts st))"

definition GetPermissionsForPeer :: "role_manager \<Rightarrow> peer_id \<Rightarrow> permission" where
  "GetPermissionsForPeer rm p =
     foldl (\<lambda>eff n. case mget (definitions rm) n of
                      None \<Rightarrow> eff
                    | Some r \<Rightarrow> eff OR role_perms r) 0 (fst (GetAssignedRoles p rm))"

definition GetAllAssignments :: "codec \<Rightarrow> role_manager \<Rightarrow> peer_role_assignment list" where
  "GetAllAssignments K rm =
     map (\<lambda>(p, st). \<lparr>pra_peer_id = pid_string K p, pra_role_names = role_names st,
                      pra_hlc_ts = assign_ts st\<rparr>) (assignments rm)"

definition slicesEqual :: "string list \<Rightarrow> string list \<Rightarrow> bool" where
  "slicesEqual a b \<longleftrightarrow> length a = length b \<and> (\<forall>i \<in> set [0..<length a]. a ! i = b ! i)"

text \<open>
  The validation loop \<open>SetPeerRoles\<close> and \<open>ApplyPeerAssignment\<close> share: the first undefined name
  stops it.
\<close>

fun normalize_names :: "(string, role) gomap \<Rightarrow> string list \<Rightarrow> string + string list" where
  "normalize_names defs [] = Inr []"
| "normalize_names defs (n # ns) =
     (let normName = to_lower (trim_space n) in
      if \<not> mhas defs normName then Inl n
      else (case normalize_names defs ns of
              Inl e \<Rightarrow> Inl e
            | Inr rest \<Rightarrow> Inr (if normName \<noteq> [] then normName # rest else rest)))"

fun parse_loop :: "(string, role) gomap \<Rightarrow> string list \<Rightarrow> rm_error + role list" where
  "parse_loop defs [] = Inr []"
| "parse_loop defs (raw # raws) =
     (let name = to_lower (trim_space raw) in
      if name = [] then parse_loop defs raws
      else (case mget defs name of
              None \<Rightarrow> Inl (RoleNotDefined raw)
            | Some r \<Rightarrow> (case parse_loop defs raws of
                           Inl e \<Rightarrow> Inl e
                         | Inr rs \<Rightarrow> Inr (r # rs))))"

definition ParseRoleNames :: "string \<Rightarrow> role_manager \<Rightarrow> rm_error + role list" where
  "ParseRoleNames s rm = parse_loop (definitions rm) (split_on (CHR '','') s)"

section \<open>Local changes\<close>

definition SetPeerRoles ::
  "codec \<Rightarrow> peer_id \<Rightarrow> string list \<Rightarrow> role_manager \<times> hlc
     \<Rightarrow> (rm_error + peer_role_assignment option) \<times> role_manager \<times> hlc" where
  "SetPeerRoles K target names s =
     (case s of (rm, c) \<Rightarrow>
       (case normalize_names (definitions rm) names of
          Inl n \<Rightarrow> (Inl (RoleNotDefined n), rm, c)
        | Inr normName \<Rightarrow>
            (let changed = (case mget (assignments rm) target of
                              None \<Rightarrow> True
                            | Some st \<Rightarrow> \<not> slicesEqual (role_names st) normName)
             in if changed then
                  (let (ts, c') = GetCurrentHLC c;
                       as = (if length normName > 0
                             then mput (assignments rm) target \<lparr>role_names = normName, assign_ts = ts\<rparr>
                             else mdel (assignments rm) target)
                   in (Inr (Some \<lparr>pra_peer_id = pid_string K target, pra_role_names = normName,
                                  pra_hlc_ts = ts\<rparr>),
                       rm\<lparr>assignments := as\<rparr>, c'))
                else (Inr None, rm, c))))"

definition pb_of_role :: "role \<Rightarrow> role_definition_pb option" where
  "pb_of_role r = Some \<lparr>rd_name = role_name r, rd_permissions = ucast (role_perms r)\<rparr>"

definition definitions_message :: "role_manager \<Rightarrow> role_definitions_update" where
  "definitions_message rm =
     \<lparr>rdu_definitions = map (\<lambda>(k, r). pb_of_role r) (definitions rm), rdu_hlc_ts = 0\<rparr>"

definition UpdateDefinition ::
  "string \<Rightarrow> permission \<Rightarrow> role_manager \<Rightarrow> (rm_error + role_definitions_update) \<times> role_manager" where
  "UpdateDefinition name perms rm =
     (let normName = to_lower (trim_space name) in
      if normName = [] then (Inl RoleNameEmpty, rm)
      else (let rm' = rm\<lparr>definitions := mput (definitions rm) normName
                            \<lparr>role_name = name, role_perms = perms\<rparr>\<rparr>
            in (Inr (definitions_message rm'), rm')))"

text \<open>The clean-up loop of \<open>RemoveDefinition\<close> over the assignments, one clock tick per change.\<close>

fun strip_role ::
  "codec \<Rightarrow> string \<Rightarrow> (peer_id, peer_assignment) gomap \<Rightarrow> hlc
     \<Rightarrow> (peer_id, peer_assignment) gomap \<times> peer_role_assignment list \<times> hlc" where
  "strip_role K r [] c = ([], [], c)"
| "strip_role K r ((p, st) # m) c =
     (let newNames = filter (\<lambda>n. n \<noteq> r) (role_names st);
          roleWasRemoved = (r \<in> set (role_names st))
      in if roleWasRemoved then
           (let (ts, c1) = GetCurrentHLC c;
                (m', msgs, c2) = strip_role K r m c1
            in ((if length newNames = 0 then m'
                 else (p, \<lparr>role_names = newNames, assign_ts = ts\<rparr>) # m'),
                \<lparr>pra_peer_id = pid_string K p, pra_role_names = newNames, pra_hlc_ts = ts\<rparr> # msgs, c2))
         else
           (let (m', msgs, c2) = strip_role K r m c in ((p, st) # m', msgs, c2)))"

definition RemoveDefinition ::
  "codec \<Rightarrow> string \<Rightarrow> role_manager \<times> hlc
     \<Rightarrow> (rm_error + role_definitions_update \<times> peer_role_assignment list) \<times> role_manager \<times> hlc" where
  "RemoveDefinition K name s =
     (case s of (rm, c) \<Rightarrow>
       (let normName = to_lower (trim_space name) in
        if \<not> mhas (definitions rm) normName then (Inl (RoleNotDefined name), rm, c)
        else
          (let rm1 = rm\<lparr>definitions := mdel (definitions rm) normName\<rparr>;
               (as, affected, c') = strip_role K normName (assignments rm1) c
           in (Inr (definitions_message rm1, affected), rm1\<lparr>assignments := as\<rparr>, c'))))"

section \<open>Updates received from other peers\<close>

text \<open>One turn of the loop over the received definitions.\<close>

definition apply_definition ::
  "role_definition_pb option \<Rightarrow> (string, role) gomap \<Rightarrow> (string, role) gomap" where
  "apply_definition d m =
     (case d of
        None \<Rightarrow> m
      | Some pb \<Rightarrow>
          (if rd_name pb = [] then m
           else mput m (to_lower (rd_name pb))
                  \<lparr>role_name = rd_name pb, role_perms = ucast (rd_permissions pb)\<rparr>))"

definition ApplyDefinitionsUpdate ::
  "role_definitions_update option \<Rightarrow> role_manager \<Rightarrow> (rm_error + unit) \<times> role_manager" where
  "ApplyDefinitionsUpdate update rm =
     (case update of
        None \<Rightarrow> (Inl NilUpdate, rm)
      | Some u \<Rightarrow>
          (Inr (), rm\<lparr>definitions := fold apply_definition (rdu_definitions u) []\<rparr>))"

definition ApplyPeerAssignment ::
  "peer_id \<Rightarrow> string list \<Rightarrow> i64 \<Rightarrow> role_manager \<Rightarrow> (rm_error + bool) \<times> role_manager" where
  "ApplyPeerAssignment p names ts rm =
     (case normalize_names (definitions rm) names of
        Inl n \<Rightarrow> (Inl (RoleNotDefined n), rm)
      | Inr normName \<Rightarrow>
          (if (case mget (assignments rm) p of None \<Rightarrow> True | Some st \<Rightarrow> assign_ts st <s ts) then
             (Inr True, rm\<lparr>assignments :=
                (if length normName > 0
                 then mput (assignments rm) p \<lparr>role_names = normName, assign_ts = ts\<rparr>
                 else mdel (assignments rm) p)\<rparr>)
           else (Inr False, rm)))"

fun apply_assignments :: "codec \<Rightarrow> peer_role_assignment option list \<Rightarrow> role_manager \<Rightarrow> role_manager" where
  "apply_assignments K [] rm = rm"
| "apply_assignments K (None # as) rm = apply_assignments K as rm"
| "apply_assignments K (Some a # as) rm =
     (case pid_decode K (pra_peer_id a) of
        None \<Rightarrow> apply_assignments K as rm
      | Some p \<Rightarrow>
          apply_assignments K as (snd (ApplyPeerAssignment p (pra_role_names a) (pra_hlc_ts a) rm)))"

definition ApplyAllAssignmentsSnapshot ::
  "codec \<Rightarrow> all_peer_role_assignments option \<Rightarrow> role_manager \<Rightarrow> (rm_error + unit) \<times> role_manager" where
  "ApplyAllAssignmentsSnapshot K snapshot rm =
     (case snapshot of
        None \<Rightarrow> (Inl NilSnapshot, rm)
      | Some s \<Rightarrow> (Inr (), apply_assignments K (apra_assignments s) rm))"

section \<open>Lemmas on the shared loops\<close>

definition normalized :: "string list \<Rightarrow> string list" where
  "normalized ns = filter (\<lambda>n. n \<noteq> []) (map (\<lambda>n. to_lower (trim_space n)) ns)"

lemma slicesEqual_eq [simp]: "slicesEqual a b \<longleftrightarrow> a = b"
  unfolding slicesEqual_def by (auto intro!: nth_equalityI)

lemma normalize_names_find:
  "normalize_names defs ns =
     (case find (\<lambda>n. \<not> mhas defs (to_lower (trim_space n))) ns of
        Some n \<Rightarrow> Inl n | None \<Rightarrow> Inr (normalized ns))"
  by (induction ns) (simp_all add: normalized_def Let_def split: option.split)

lemma normalize_names_Inr:
  "normalize_names defs ns = Inr r \<longleftrightarrow>
     (\<forall>n \<in> set ns. mhas defs (to_lower (trim_space n))) \<and> r = normalized ns"
proof (cases "find (\<lambda>n. \<not> mhas defs (to_lower (trim_space n))) ns")
  case None
  then have "\<forall>n \<in> set ns. mhas defs (to_lower (trim_space n))"
    unfolding find_None_iff by blast
  with None show ?thesis by (auto simp: normalize_names_find)
next
  case (Some n)
  then have "\<exists>n \<in> set ns. \<not> mhas defs (to_lower (trim_space n))"
    unfolding find_Some_iff by (metis nth_mem)
  with Some show ?thesis by (auto simp: normalize_names_find)
qed

lemma normalize_names_Inl:
  "normalize_names defs ns = Inl n \<Longrightarrow> n \<in> set ns \<and> \<not> mhas defs (to_lower (trim_space n))"
proof (cases "find (\<lambda>n. \<not> mhas defs (to_lower (trim_space n))) ns")
  case (Some n')
  assume "normalize_names defs ns = Inl n"
  with Some have "n' = n" by (simp add: normalize_names_find)
  with Some show ?thesis unfolding find_Some_iff by (metis nth_mem)
qed (simp add: normalize_names_find)

lemma normalized_idem [simp]: "normalized (normalized ns) = normalized ns"
  by (induction ns) (auto simp: normalized_def to_lower_trim)

lemma normalized_clean:
  "n \<in> set (normalized ns) \<Longrightarrow> n \<noteq> [] \<and> to_lower (trim_space n) = n"
  by (auto simp: normalized_def to_lower_trim)

lemma foldl_opt_perm_Has:
  "Has (foldl (\<lambda>eff n. case f n of None \<Rightarrow> eff | Some r \<Rightarrow> eff OR role_perms r) p0 ns) q \<longleftrightarrow>
     Has p0 q \<or> (\<exists>n \<in> set ns. \<exists>r. f n = Some r \<and> Has (role_perms r) q)"
  by (induction ns arbitrary: p0) (auto split: option.splits)

lemma GetPermissionsForPeer_Has:
  "Has (GetPermissionsForPeer rm p) q \<longleftrightarrow>
     (\<exists>n \<in> set (fst (GetAssignedRoles p rm)). \<exists>r. mget (definitions rm) n = Some r \<and> Has (role_perms r) q)"
  by (simp add: GetPermissionsForPeer_def foldl_opt_perm_Has)

lemma GetPermissionsForPeer_cong:
  "fst (GetAssignedRoles p rm) = fst (GetAssignedRoles p rm') \<Longrightarrow>
   (\<And>n. n \<in> set (fst (GetAssignedRoles p rm)) \<Longrightarrow> mget (definitions rm) n = mget (definitions rm') n) \<Longrightarrow>
   GetPermissionsForPeer rm p = GetPermissionsForPeer rm' p"
  unfolding GetPermissionsForPeer_def by (auto intro!: foldl_cong)

section \<open>Invariant\<close>

definition names_clean :: "string list \<Rightarrow> bool" where
  "names_clean ns \<longleftrightarrow> ns \<noteq> [] \<and> (\<forall>n \<in> set ns. n \<noteq> [] \<and> to_lower (trim_space n) = n)"

definition defs_ok :: "(string, role) gomap \<Rightarrow> bool" where
  "defs_ok m \<longleftrightarrow> keys_ok m \<and> (\<forall>k. mhas m k \<longrightarrow> k \<noteq> [] \<and> to_lower k = k)"

definition rm_ok :: "role_manager \<Rightarrow> bool" where
  "rm_ok rm \<longleftrightarrow> defs_ok (definitions rm) \<and> keys_ok (assignments rm)
     \<and> (\<forall>p st. mget (assignments rm) p = Some st \<longrightarrow> names_clean (role_names st))"

lemma normalized_names_clean: "normalized ns \<noteq> [] \<Longrightarrow> names_clean (normalized ns)"
  unfolding names_clean_def using normalized_clean by blast

lemma defs_ok_mput [simp]: "defs_ok m \<Longrightarrow> k \<noteq> [] \<Longrightarrow> to_lower k = k \<Longrightarrow> defs_ok (mput m k r)"
  by (auto simp: defs_ok_def)

lemma defs_ok_mdel [simp]: "defs_ok m \<Longrightarrow> defs_ok (mdel m k)"
  by (auto simp: defs_ok_def)

lemma defs_ok_Nil [simp]: "defs_ok []"
  by (simp add: defs_ok_def)

lemma rm_ok_New: "rm_ok NewRoleManager"
proof -
  have "defs_ok (fold (\<lambda>r m. mput m (to_lower (role_name r)) r) rs m)"
    if "\<forall>r \<in> set rs. role_name r \<noteq> []" "defs_ok m" for rs m
    using that by (induction rs arbitrary: m) auto
  moreover have "\<forall>r \<in> set defaultRoleDefinitions. role_name r \<noteq> []"
    by (simp add: defaultRoleDefinitions_def)
  ultimately show ?thesis by (simp add: rm_ok_def NewRoleManager_def)
qed

lemma rm_ok_SetPeerRoles:
  "rm_ok rm \<Longrightarrow> SetPeerRoles K p ns (rm, c) = (res, rm', c') \<Longrightarrow> rm_ok rm'"
  by (auto simp: SetPeerRoles_def Let_def rm_ok_def normalize_names_Inr normalized_names_clean
      split: sum.splits if_splits option.splits prod.splits)

lemma rm_ok_UpdateDefinition:
  "rm_ok rm \<Longrightarrow> UpdateDefinition n q rm = (res, rm') \<Longrightarrow> rm_ok rm'"
  by (auto simp: UpdateDefinition_def Let_def rm_ok_def split: if_splits)

lemma strip_role_drop:
  assumes "r \<in> set (role_names st)" "GetCurrentHLC c = (ts, c1)" "strip_role K r m c1 = (m', msgs, c2)"
  shows "strip_role K r ((p, st) # m) c =
    (let ns = filter (\<lambda>n. n \<noteq> r) (role_names st) in
     (if ns = [] then m' else (p, \<lparr>role_names = ns, assign_ts = ts\<rparr>) # m',
      \<lparr>pra_peer_id = pid_string K p, pra_role_names = ns, pra_hlc_ts = ts\<rparr> # msgs, c2))"
  using assms by (simp add: Let_def)

lemma strip_role_keep:
  assumes "r \<notin> set (role_names st)" "strip_role K r m c = (m', msgs, c2)"
  shows "strip_role K r ((p, st) # m) c = ((p, st) # m', msgs, c2)"
  using assms by (simp add: Let_def)

text \<open>One induction for everything said about the clean-up loop.\<close>

lemma strip_role_induct [consumes 1, case_names Nil drop keep]:
  assumes run: "strip_role K r m c = (m', msgs, c')"
    and Nil: "\<And>c. P [] c [] [] c"
    and drop: "\<And>p st m c ts c1 m' msgs c2. r \<in> set (role_names st) \<Longrightarrow>
      GetCurrentHLC c = (ts, c1) \<Longrightarrow> P m c1 m' msgs c2 \<Longrightarrow>
      P ((p, st) # m) c
        (let ns = filter (\<lambda>n. n \<noteq> r) (role_names st)
         in if ns = [] then m' else (p, \<lparr>role_names = ns, assign_ts = ts\<rparr>) # m')
        (\<lparr>pra_peer_id = pid_string K p, pra_role_names = filter (\<lambda>n. n \<noteq> r) (role_names st),
          pra_hlc_ts = ts\<rparr> # msgs) c2"
    and keep: "\<And>p st m c m' msgs c2. r \<notin> set (role_names st) \<Longrightarrow>
      P m c m' msgs c2 \<Longrightarrow> P ((p, st) # m) c ((p, st) # m') msgs c2"
  shows "P m c m' msgs c'"
  using run
proof (induction m arbitrary: c m' msgs c')
  case (Cons e m)
  obtain p st where e: "e = (p, st)" by (cases e)
  show ?case
  proof (cases "r \<in> set (role_names st)")
    case True
    obtain ts c1 where g: "GetCurrentHLC c = (ts, c1)" by (cases "GetCurrentHLC c")
    obtain m1 ms c2 where s: "strip_role K r m c1 = (m1, ms, c2)" by (cases "strip_role K r m c1")
    show ?thesis
      using drop [OF True g Cons.IH [OF s], of p] Cons.prems strip_role_drop [OF True g s, of p]
      by (simp add: e Let_def del: strip_role.simps)
  next
    case False
    obtain m1 ms c2 where s: "strip_role K r m c = (m1, ms, c2)" by (cases "strip_role K r m c")
    show ?thesis
      using keep [OF False Cons.IH [OF s], of p] Cons.prems strip_role_keep [OF False s, of p]
      by (simp add: e del: strip_role.simps)
  qed
qed (simp add: Nil)

lemma strip_role_keys:
  "strip_role K r m c = (m', msgs, c') \<Longrightarrow> fst ` set m' \<subseteq> fst ` set m"
  by (induction rule: strip_role_induct) (auto simp: Let_def)

lemma strip_role_keys_ok:
  assumes "strip_role K r m c = (m', msgs, c')" and "keys_ok m"
  shows "keys_ok m' \<and> fst ` set m' \<subseteq> fst ` set m"
  using assms by (induction rule: strip_role_induct) (auto simp: Let_def keys_ok_def)

lemma strip_role_names:
  assumes "strip_role K r m c = (m', msgs, c')" and "keys_ok m"
  shows "map_option role_names (mget m' p) =
    (case mget m p of None \<Rightarrow> None
     | Some st \<Rightarrow> if r \<in> set (role_names st) \<and> filter (\<lambda>n. n \<noteq> r) (role_names st) = [] then None
                  else Some (filter (\<lambda>n. n \<noteq> r) (role_names st)))
    \<and> fst ` set m' \<subseteq> fst ` set m"
  using assms
proof (induction rule: strip_role_induct)
  case (drop p0 st m c ts c1 m' msgs c2)
  then have km: "keys_ok m" "p0 \<notin> fst ` set m" by (auto simp: keys_ok_def)
  from drop.IH [OF km(1)] km(2) have "mget m' p0 = None" "mget m p0 = None"
    by (auto simp: map_of_eq_None_iff)
  with drop.IH [OF km(1)] drop.hyps(1) show ?case by (auto simp: Let_def)
next
  case (keep p0 st m c m' msgs c2)
  then have "keys_ok m" by (auto simp: keys_ok_def)
  moreover have "filter (\<lambda>n. n \<noteq> r) (role_names st) = role_names st"
    using keep.hyps by (auto simp: filter_id_conv)
  ultimately show ?case using keep by auto
qed simp

lemma rm_ok_RemoveDefinition:
  assumes ok: "rm_ok rm" and r: "RemoveDefinition K n (rm, c) = (res, rm', c')"
  shows "rm_ok rm'"
proof (cases "mhas (definitions rm) (to_lower (trim_space n))")
  case False
  with ok r show ?thesis by (simp add: RemoveDefinition_def Let_def)
next
  case True
  let ?r = "to_lower (trim_space n)"
  obtain as msgs c1 where s: "strip_role K ?r (assignments rm) c = (as, msgs, c1)"
    by (cases "strip_role K ?r (assignments rm) c")
  have rm': "rm' = rm\<lparr>definitions := mdel (definitions rm) ?r, assignments := as\<rparr>"
    using r True s by (auto simp: RemoveDefinition_def Let_def)
  have k: "keys_ok (assignments rm)" using ok by (simp add: rm_ok_def)
  have "names_clean (role_names st)" if st: "mget as p = Some st" for p st
  proof -
    obtain st0 where st0: "mget (assignments rm) p = Some st0"
      using strip_role_names [OF s k, of p] st by (auto split: option.splits)
    have "names_clean (role_names st0)" using ok st0 by (simp add: rm_ok_def)
    moreover have "role_names st = filter (\<lambda>n. n \<noteq> ?r) (role_names st0)"
      "?r \<notin> set (role_names st0) \<or> role_names st \<noteq> []"
      using strip_role_names [OF s k, of p] st st0 by (auto split: if_splits)
    moreover have "filter (\<lambda>n. n \<noteq> ?r) (role_names st0) = role_names st0"
      if "?r \<notin> set (role_names st0)" using that by (auto simp: filter_id_conv)
    ultimately show ?thesis
      by (auto simp: names_clean_def)
  qed
  with ok strip_role_keys_ok [OF s k] show ?thesis by (simp add: rm_ok_def rm')
qed

lemma defs_ok_apply_definition: "defs_ok m \<Longrightarrow> defs_ok (fold apply_definition ds m)"
  by (induction ds arbitrary: m) (auto simp: apply_definition_def split: option.split)

lemma rm_ok_ApplyDefinitionsUpdate:
  "rm_ok rm \<Longrightarrow> ApplyDefinitionsUpdate u rm = (res, rm') \<Longrightarrow> rm_ok rm'"
  by (auto simp: ApplyDefinitionsUpdate_def rm_ok_def defs_ok_apply_definition split: option.splits)

lemma rm_ok_ApplyPeerAssignment:
  "rm_ok rm \<Longrightarrow> ApplyPeerAssignment p ns ts rm = (res, rm') \<Longrightarrow> rm_ok rm'"
  by (auto simp: ApplyPeerAssignment_def rm_ok_def normalize_names_Inr normalized_names_clean
      split: sum.splits if_splits option.splits)

lemma rm_ok_apply_assignments: "rm_ok rm \<Longrightarrow> rm_ok (apply_assignments K as rm)"
  by (induction K as rm rule: apply_assignments.induct)
    (auto split: option.split intro: rm_ok_ApplyPeerAssignment [OF _ surjective_pairing])

lemma rm_ok_ApplyAllAssignmentsSnapshot:
  "rm_ok rm \<Longrightarrow> ApplyAllAssignmentsSnapshot K s rm = (res, rm') \<Longrightarrow> rm_ok rm'"
  by (auto simp: ApplyAllAssignmentsSnapshot_def rm_ok_apply_assignments split: option.splits)

lemmas rm_ok_ops = rm_ok_SetPeerRoles rm_ok_UpdateDefinition rm_ok_RemoveDefinition
  rm_ok_ApplyDefinitionsUpdate rm_ok_ApplyPeerAssignment rm_ok_ApplyAllAssignmentsSnapshot

section \<open>Commands\<close>

text \<open>
  Everything that can change a manager, as the control stream and the gossip handlers call it.
\<close>

datatype rm_cmd =
    CmdSetRoles peer_id "string list"
  | CmdDefine string permission
  | CmdRemoveDef string
  | CmdApplyDefs "role_definitions_update option"
  | CmdApplyAssignment peer_id "string list" i64
  | CmdApplySnapshot "all_peer_role_assignments option"

fun rm_exec :: "codec \<Rightarrow> rm_cmd \<Rightarrow> role_manager \<times> hlc \<Rightarrow> role_manager \<times> hlc" where
  "rm_exec K (CmdSetRoles p ns) (rm, c) = snd (SetPeerRoles K p ns (rm, c))"
| "rm_exec K (CmdDefine n q) (rm, c) = (snd (UpdateDefinition n q rm), c)"
| "rm_exec K (CmdRemoveDef n) (rm, c) = snd (RemoveDefinition K n (rm, c))"
| "rm_exec K (CmdApplyDefs u) (rm, c) = (snd (ApplyDefinitionsUpdate u rm), c)"
| "rm_exec K (CmdApplyAssignment p ns ts) (rm, c) = (snd (ApplyPeerAssignment p ns ts rm), c)"
| "rm_exec K (CmdApplySnapshot s) (rm, c) = (snd (ApplyAllAssignmentsSnapshot K s rm), c)"

lemma rm_ok_exec: "rm_ok (fst s) \<Longrightarrow> rm_ok (fst (rm_exec K cmd s))"
proof -
  obtain rm c where s: "s = (rm, c)" by (cases s)
  assume "rm_ok (fst s)"
  then have "rm_ok rm" by (simp add: s)
  note ops = rm_ok_ops [OF this]
  show ?thesis
  proof (cases cmd)
    case (CmdSetRoles p ns)
    then show ?thesis using ops(1) by (cases "SetPeerRoles K p ns (rm, c)") (auto simp: s)
  next
    case (CmdDefine n q)
    then show ?thesis using ops(2) by (cases "UpdateDefinition n q rm") (auto simp: s)
  next
    case (CmdRemoveDef n)
    then show ?thesis using ops(3) by (cases "RemoveDefinition K n (rm, c)") (auto simp: s)
  next
    case (CmdApplyDefs u)
    then show ?thesis using ops(4) by (cases "ApplyDefinitionsUpdate u rm") (auto simp: s)
  next
    case (CmdApplyAssignment p ns ts)
    then show ?thesis using ops(5) by (cases "ApplyPeerAssignment p ns ts rm") (auto simp: s)
  next
    case (CmdApplySnapshot u)
    then show ?thesis using ops(6) by (cases "ApplyAllAssignmentsSnapshot K u rm") (auto simp: s)
  qed
qed

lemma rm_ok_fold: "rm_ok (fst s) \<Longrightarrow> rm_ok (fst (fold (rm_exec K) cmds s))"
  by (induction cmds arbitrary: s) (auto simp: rm_ok_exec)

section \<open>Properties of the role manager\<close>

text \<open>
  After any sequence of local and remote commands, every definition is stored under a
  non-empty lower-case name, and every peer in the assignment table holds a non-empty list of
  trimmed lower-case names. (No peer is left with an empty entry.)
\<close>

theorem rm_ok_reachable: "rm_ok (fst (fold (rm_exec K) cmds (NewRoleManager, c)))"
  by (rule rm_ok_fold) (simp add: rm_ok_New)

lemma SetPeerRoles_cases:
  assumes "SetPeerRoles K p ns (rm, c) = (res, rm', c')"
  obtains (undefined) n where "n \<in> set ns" "\<not> mhas (definitions rm) (to_lower (trim_space n))"
      "res = Inl (RoleNotDefined n)" "rm' = rm" "c' = c"
    | (same) st where "\<forall>n \<in> set ns. mhas (definitions rm) (to_lower (trim_space n))"
      "mget (assignments rm) p = Some st" "role_names st = normalized ns" "res = Inr None"
      "rm' = rm" "c' = c"
    | (changed) ts where "\<forall>n \<in> set ns. mhas (definitions rm) (to_lower (trim_space n))"
      "GetCurrentHLC c = (ts, c')"
      "res = Inr (Some \<lparr>pra_peer_id = pid_string K p, pra_role_names = normalized ns, pra_hlc_ts = ts\<rparr>)"
      "rm' = rm\<lparr>assignments := if normalized ns = [] then mdel (assignments rm) p
                  else mput (assignments rm) p \<lparr>role_names = normalized ns, assign_ts = ts\<rparr>\<rparr>"
proof (cases "normalize_names (definitions rm) ns")
  case (Inl n)
  have "res = Inl (RoleNotDefined n)" "rm' = rm" "c' = c"
    using assms Inl by (simp_all add: SetPeerRoles_def)
  with normalize_names_Inl [OF Inl] show thesis using undefined by blast
next
  case (Inr r)
  note r = Inr [unfolded normalize_names_Inr]
  obtain ts c1 where g: "GetCurrentHLC c = (ts, c1)" by (cases "GetCurrentHLC c")
  show thesis
  proof (cases "\<exists>st. mget (assignments rm) p = Some st \<and> role_names st = normalized ns")
    case True
    then obtain st where st: "mget (assignments rm) p = Some st" "role_names st = normalized ns"
      by blast
    then have "res = Inr None" "rm' = rm" "c' = c"
      using assms Inr r by (simp_all add: SetPeerRoles_def)
    with st r show thesis using same by blast
  next
    case False
    then have ch: "(case mget (assignments rm) p of None \<Rightarrow> True
        | Some st \<Rightarrow> \<not> slicesEqual (role_names st) (normalized ns))"
      by (auto split: option.split)
    have "GetCurrentHLC c = (ts, c')"
      "res = Inr (Some \<lparr>pra_peer_id = pid_string K p, pra_role_names = normalized ns, pra_hlc_ts = ts\<rparr>)"
      "rm' = rm\<lparr>assignments := if normalized ns = [] then mdel (assignments rm) p
                  else mput (assignments rm) p \<lparr>role_names = normalized ns, assign_ts = ts\<rparr>\<rparr>"
      using assms Inr r ch g by (auto simp: SetPeerRoles_def)
    with r show thesis using changed by blast
  qed
qed

lemma GetAssignedRoles_update:
  "fst (GetAssignedRoles p' (rm\<lparr>assignments := if ns = [] then mdel (assignments rm) p
       else mput (assignments rm) p \<lparr>role_names = ns, assign_ts = ts\<rparr>\<rparr>))
   = (if p' = p then ns else fst (GetAssignedRoles p' rm))"
  by (simp add: GetAssignedRoles_def)

lemma rm_ok_no_empty_key: "rm_ok rm \<Longrightarrow> mget (definitions rm) [] = None"
  by (auto simp: rm_ok_def defs_ok_def)

lemma set_normalized:
  "\<forall>n \<in> set ns. mhas defs (to_lower (trim_space n)) \<Longrightarrow> mget defs [] = None
   \<Longrightarrow> set (normalized ns) = (\<lambda>n. to_lower (trim_space n)) ` set ns"
  by (auto simp: normalized_def)

text \<open>
  C13. \<open>SetPeerRoles\<close> decides the target's permissions and nobody else's: on success the target
  holds a permission exactly when one of the named roles (up to case and surrounding spaces)
  carries it; a name that is not defined is reported and changes nothing; a repeated assignment
  is answered by \<open>None\<close> and changes nothing.
\<close>

theorem SetPeerRoles_grants:
  assumes ok: "rm_ok rm" and run: "SetPeerRoles K p names (rm, c) = (res, rm', c')"
  shows "definitions rm' = definitions rm \<and>
    (\<forall>p'. p' \<noteq> p \<longrightarrow> GetPermissionsForPeer rm' p' = GetPermissionsForPeer rm p') \<and>
    (case res of
       Inl e \<Rightarrow> rm' = rm \<and> c' = c \<and> (\<exists>n \<in> set names. e = RoleNotDefined n
                  \<and> mget (definitions rm) (to_lower (trim_space n)) = None)
     | Inr msg \<Rightarrow>
         (\<forall>q. Has (GetPermissionsForPeer rm' p) q \<longleftrightarrow>
            (\<exists>n \<in> set names. \<exists>r. mget (definitions rm) (to_lower (trim_space n)) = Some r
               \<and> Has (role_perms r) q))
         \<and> (msg = None \<longrightarrow> rm' = rm \<and> c' = c))"
  using run
proof (cases rule: SetPeerRoles_cases)
  case (same st)
  then have "set (role_names st) = (\<lambda>n. to_lower (trim_space n)) ` set names"
    using set_normalized rm_ok_no_empty_key [OF ok] by metis
  with same show ?thesis by (simp add: GetPermissionsForPeer_Has GetAssignedRoles_def)
next
  case (changed ts)
  have "GetPermissionsForPeer rm' p' = GetPermissionsForPeer rm p'" if "p' \<noteq> p" for p'
    using that changed(4) by (simp add: GetPermissionsForPeer_def GetAssignedRoles_def)
  with changed set_normalized [OF changed(1) rm_ok_no_empty_key [OF ok]] show ?thesis
    by (simp add: GetPermissionsForPeer_Has GetAssignedRoles_update)
qed auto

theorem SetPeerRoles_grants_witness:
  "\<exists>rm' c' m. SetPeerRoles plain_codec (PeerID ''bob'') ['' Streamer'', ''VIEWER'']
      (NewRoleManager, \<lparr>hlc_time = 5, hlc_logical = 0, wall = (\<lambda>n. 7), reads = 0\<rparr>) = (Inr m, rm', c')
    \<and> definitions rm' = definitions NewRoleManager
    \<and> GetPermissionsForPeer rm' (PeerID ''eve'') = GetPermissionsForPeer NewRoleManager (PeerID ''eve'')"
proof -
  let ?c = "\<lparr>hlc_time = 5, hlc_logical = 0, wall = (\<lambda>n. 7), reads = 0\<rparr>"
  obtain res rm' c' where run: "SetPeerRoles plain_codec (PeerID ''bob'') ['' Streamer'', ''VIEWER'']
      (NewRoleManager, ?c) = (res, rm', c')"
    by (cases "SetPeerRoles plain_codec (PeerID ''bob'') ['' Streamer'', ''VIEWER''] (NewRoleManager, ?c)")
  have def: "\<forall>n \<in> set ['' Streamer'', ''VIEWER''].
      mget (definitions NewRoleManager) (to_lower (trim_space n)) \<noteq> None"
    by code_simp
  note spec = SetPeerRoles_grants [OF rm_ok_New run]
  with def have "\<exists>m. res = Inr m" by (cases res) auto
  with run spec show ?thesis by auto
qed

lemma strip_role_msgs:
  "strip_role K r m c = (m', msgs, c') \<Longrightarrow>
   map (\<lambda>a. (pra_peer_id a, pra_role_names a)) msgs =
   map (\<lambda>(p, st). (pid_string K p, filter (\<lambda>n. n \<noteq> r) (role_names st)))
     (filter (\<lambda>(p, st). r \<in> set (role_names st)) m)"
  by (induction rule: strip_role_induct) auto

lemma RemoveDefinition_InrE:
  assumes "RemoveDefinition K n (rm, c) = (Inr (upd, msgs), rm', c')"
  obtains as where "mhas (definitions rm) (to_lower (trim_space n))"
    "strip_role K (to_lower (trim_space n)) (assignments rm) c = (as, msgs, c')"
    "rm' = rm\<lparr>definitions := mdel (definitions rm) (to_lower (trim_space n)), assignments := as\<rparr>"
    "upd = definitions_message rm'"
proof -
  obtain as ms c1 where
    s: "strip_role K (to_lower (trim_space n)) (assignments rm) c = (as, ms, c1)"
    by (cases "strip_role K (to_lower (trim_space n)) (assignments rm) c")
  show thesis
    using assms that [of as] s
    by (auto simp: RemoveDefinition_def Let_def definitions_message_def split: if_splits)
qed

lemma RemoveDefinition_defined:
  assumes "mhas (definitions rm) (to_lower (trim_space n))"
  shows "\<exists>upd msgs rm' c'. RemoveDefinition K n (rm, c) = (Inr (upd, msgs), rm', c')"
  using assms
  by (cases "strip_role K (to_lower (trim_space n)) (assignments rm) c")
    (simp add: RemoveDefinition_def Let_def)

lemma GetAssignedRoles_names:
  "fst (GetAssignedRoles p rm) =
     (case map_option role_names (mget (assignments rm) p) of None \<Rightarrow> [] | Some ns \<Rightarrow> ns)"
  by (simp add: GetAssignedRoles_def split: option.split)

text \<open>
  C14. Removing a definition revokes it everywhere: no peer keeps the role, every other role and
  the permissions it carries stay, and the returned messages name exactly the peers that held it,
  with the roles they are left with.
\<close>

theorem RemoveDefinition_revokes:
  assumes ok: "rm_ok rm" and run: "RemoveDefinition K n (rm, c) = (Inr (upd, msgs), rm', c')"
  shows "let r = to_lower (trim_space n) in
    mget (definitions rm') = (mget (definitions rm))(r := None) \<and>
    (\<forall>p. fst (GetAssignedRoles p rm') = filter (\<lambda>m. m \<noteq> r) (fst (GetAssignedRoles p rm))) \<and>
    (\<forall>p q. Has (GetPermissionsForPeer rm' p) q \<longleftrightarrow>
       (\<exists>m \<in> set (fst (GetAssignedRoles p rm)). m \<noteq> r \<and>
          (\<exists>d. mget (definitions rm) m = Some d \<and> Has (role_perms d) q))) \<and>
    map (\<lambda>a. (pra_peer_id a, pra_role_names a)) msgs =
      map (\<lambda>(p, st). (pid_string K p, filter (\<lambda>m. m \<noteq> r) (role_names st)))
        (filter (\<lambda>(p, st). r \<in> set (role_names st)) (assignments rm))"
proof -
  let ?r = "to_lower (trim_space n)"
  obtain as where s: "strip_role K ?r (assignments rm) c = (as, msgs, c')"
    and rm': "rm' = rm\<lparr>definitions := mdel (definitions rm) ?r, assignments := as\<rparr>"
    by (rule RemoveDefinition_InrE [OF run])
  have k: "keys_ok (assignments rm)" using ok by (simp add: rm_ok_def)
  have roles: "fst (GetAssignedRoles p rm') = filter (\<lambda>m. m \<noteq> ?r) (fst (GetAssignedRoles p rm))" for p
    using strip_role_names [OF s k, of p]
    by (auto simp: GetAssignedRoles_names rm' split: option.split)
  have "mget (definitions rm') = (mget (definitions rm))(?r := None)"
    by (rule ext) (simp add: rm')
  with roles strip_role_msgs [OF s] show ?thesis
    by (auto simp: Let_def GetPermissionsForPeer_Has)
qed

theorem RemoveDefinition_revokes_witness:
  "\<exists>upd msgs rm' c'. RemoveDefinition plain_codec ''VIEWER ''
      (NewRoleManager\<lparr>assignments := [(PeerID ''bob'', \<lparr>role_names = [''viewer'', ''streamer''], assign_ts = 3\<rparr>)]\<rparr>,
       \<lparr>hlc_time = 5, hlc_logical = 0, wall = (\<lambda>n. 7), reads = 0\<rparr>) = (Inr (upd, msgs), rm', c')
    \<and> fst (GetAssignedRoles (PeerID ''bob'') rm') = [''streamer'']"
proof -
  let ?rm = "NewRoleManager\<lparr>assignments := [(PeerID ''bob'', \<lparr>role_names = [''viewer'', ''streamer''], assign_ts = 3\<rparr>)]\<rparr>"
  let ?c = "\<lparr>hlc_time = 5, hlc_logical = 0, wall = (\<lambda>n. 7), reads = 0\<rparr>"
  have low: "to_lower (trim_space ''VIEWER '') = ''viewer''" by code_simp
  have clean: "names_clean [''viewer'', ''streamer'']" by code_simp
  have ok: "rm_ok ?rm" using rm_ok_New clean by (auto simp: rm_ok_def keys_ok_def)
  have "mget (definitions NewRoleManager) ''viewer'' \<noteq> None" by code_simp
  then have "mhas (definitions ?rm) (to_lower (trim_space ''VIEWER ''))" by (simp add: low)
  from RemoveDefinition_defined [OF this] obtain upd msgs rm' c' where
    run: "RemoveDefinition plain_codec ''VIEWER '' (?rm, ?c) = (Inr (upd, msgs), rm', c')"
    by blast
  from RemoveDefinition_revokes [OF ok run] run show ?thesis
    by (simp add: Let_def low GetAssignedRoles_def)
qed

end
