(* ===== verification/RoleReplication.thy ===== *)
theory RoleReplication
  imports RoleManager "HOL-Library.Multiset"
begin

text \<open>
  How the role tables of several peers agree: assignments are a last-writer-wins register per
  peer, definitions are replaced as a whole by the last received set.
\<close>

section \<open>Last-writer-wins registers\<close>

text \<open>
  The contract of a store of registers: an update with a newer stamp (or to an empty register)
  is taken, any other leaves the store as it is.
\<close>

locale lww_store =
  fixes deliver :: "'u \<Rightarrow> 's \<Rightarrow> 's"
    and entry :: "'s \<Rightarrow> 'k \<Rightarrow> ('v \<times> 'o :: linorder) option"
    and key :: "'u \<Rightarrow> 'k" and payload :: "'u \<Rightarrow> 'v" and stamp :: "'u \<Rightarrow> 'o"
    and valid :: "'s \<Rightarrow> 'u \<Rightarrow> bool"
  assumes takes: "valid s u \<Longrightarrow> (\<And>v t. entry s (key u) = Some (v, t) \<Longrightarrow> t < stamp u) \<Longrightarrow>
      entry (deliver u s) = (entry s)(key u \<mapsto> (payload u, stamp u))"
    and ignores: "valid s u \<Longrightarrow> entry s (key u) = Some (v, t) \<Longrightarrow> stamp u \<le> t \<Longrightarrow>
      entry (deliver u s) = entry s"
    and keeps_valid: "valid (deliver u s) u' = valid s u'"
begin

definition put_newer :: "'u \<Rightarrow> ('k \<Rightarrow> ('v \<times> 'o) option) \<Rightarrow> ('k \<Rightarrow> ('v \<times> 'o) option)" where
  "put_newer u e = (case e (key u) of
      None \<Rightarrow> e(key u \<mapsto> (payload u, stamp u))
    | Some (v, t) \<Rightarrow> if t < stamp u then e(key u \<mapsto> (payload u, stamp u)) else e)"

lemma entry_deliver: "valid s u \<Longrightarrow> entry (deliver u s) = put_newer u (entry s)"
  using takes [of s u] ignores [of s u]
  by (auto simp: put_newer_def not_less split: option.split)

lemma valid_fold: "valid (fold deliver us s) u = valid s u"
  by (induction us arbitrary: s) (simp_all add: keeps_valid)

lemma entry_fold:
  "\<forall>u \<in> set us. valid s u \<Longrightarrow> entry (fold deliver us s) = fold put_newer us (entry s)"
  by (induction us arbitrary: s) (simp_all add: entry_deliver keeps_valid)

lemma put_newer_commute:
  "key u \<noteq> key u' \<or> stamp u \<noteq> stamp u' \<Longrightarrow> put_newer u (put_newer u' e) = put_newer u' (put_newer u e)"
  by (rule ext) (auto simp: put_newer_def split: option.splits)

lemma put_newer_twice: "put_newer u (put_newer u e) = put_newer u e"
  by (rule ext) (auto simp: put_newer_def split: option.split)

text \<open>The registers depend on the set of delivered updates only: neither order nor repetition matters.\<close>

lemma same_set:
  assumes "set us = set us'" and "\<forall>u \<in> set us. valid s u"
    and "\<And>u u'. u \<in> set us \<Longrightarrow> u' \<in> set us \<Longrightarrow> key u = key u' \<Longrightarrow> stamp u = stamp u' \<Longrightarrow> u = u'"
  shows "entry (fold deliver us s) = entry (fold deliver us' s)"
proof -
  have idem: "comp_fun_idem_on (set us) put_newer"
  proof
    fix u u' assume "u \<in> set us" "u' \<in> set us"
    then show "put_newer u' \<circ> put_newer u = put_newer u \<circ> put_newer u'"
      using assms(3) [of u u'] by (cases "u = u'") (simp_all add: comp_def put_newer_commute [of u u'] del: fun_upd_apply, metis put_newer_commute)
  qed (simp add: fun_eq_iff put_newer_twice)
  have "fold put_newer us e = fold put_newer us' e" for e
    using comp_fun_idem_on.fold_set_fold [OF idem, of us e] comp_fun_idem_on.fold_set_fold [OF idem, of us' e] assms(1) by simp
  then show ?thesis using assms(1,2) by (simp add: entry_fold)
qed

text \<open>In particular, any two delivery orders of the same updates give the same registers.\<close>

lemma order_irrelevant:
  assumes "mset us = mset us'" and "\<forall>u \<in> set us. valid s u"
    and "\<And>u u'. u \<in> set us \<Longrightarrow> u' \<in> set us \<Longrightarrow> key u = key u' \<Longrightarrow> stamp u = stamp u' \<Longrightarrow> u = u'"
  shows "entry (fold deliver us s) = entry (fold deliver us' s)"
  by (rule same_set [OF mset_eq_setD [OF assms(1)] assms(2,3)])

text \<open>A register ends with its newest update, if that is newer than what it held.\<close>

lemma newest_wins:
  assumes "\<forall>u \<in> set us. valid s u" and "u \<in> set us"
    and "\<And>u'. u' \<in> set us \<Longrightarrow> key u' = key u \<Longrightarrow> u' \<noteq> u \<Longrightarrow> stamp u' < stamp u"
    and "\<And>v t. entry s (key u) = Some (v, t) \<Longrightarrow> t < stamp u"
  shows "entry (fold deliver us s) (key u) = Some (payload u, stamp u)"
proof -
  have keep: "fold put_newer us e (key u) = Some (payload u, stamp u)"
    if "e (key u) = Some (payload u, stamp u)"
      "\<forall>u' \<in> set us. key u' = key u \<longrightarrow> u' \<noteq> u \<longrightarrow> stamp u' < stamp u" for us e
    using that
  proof (induction us arbitrary: e)
    case (Cons a us)
    have "put_newer a e (key u) = Some (payload u, stamp u)"
      using Cons.prems by (cases "key a = key u"; cases "a = u")
        (auto simp: put_newer_def split: option.split)
    with Cons show ?case by simp
  qed simp
  have reach: "fold put_newer us e (key u) = Some (payload u, stamp u)"
    if "u \<in> set us" "\<forall>u' \<in> set us. key u' = key u \<longrightarrow> u' \<noteq> u \<longrightarrow> stamp u' < stamp u"
      "\<forall>v t. e (key u) = Some (v, t) \<longrightarrow> t < stamp u" for us e
    using that
  proof (induction us arbitrary: e)
    case (Cons a us)
    show ?case
    proof (cases "a = u")
      case True
      with Cons.prems(3) have "put_newer a e (key u) = Some (payload u, stamp u)"
        by (auto simp: put_newer_def split: option.split)
      with Cons.prems(2) keep show ?thesis by simp
    next
      case False
      with Cons.prems(1) have u: "u \<in> set us" by auto
      have "\<forall>v t. put_newer a e (key u) = Some (v, t) \<longrightarrow> t < stamp u"
        using Cons.prems(2,3) False
        by (cases "e (key a)") (auto simp: put_newer_def split: if_splits)
      with Cons.IH [of "put_newer a e"] u Cons.prems(2) show ?thesis by simp
    qed
  qed simp
  show ?thesis
    using assms reach [of us "entry s"] by (auto simp: entry_fold)
qed

end

section \<open>Role assignments as registers\<close>

record role_update =
  ru_peer :: peer_id
  ru_names :: "string list"
  ru_ts :: i64

definition deliver_update :: "role_update \<Rightarrow> role_manager \<Rightarrow> role_manager" where
  "deliver_update u rm = snd (ApplyPeerAssignment (ru_peer u) (ru_names u) (ru_ts u) rm)"

definition role_entry :: "role_manager \<Rightarrow> peer_id \<Rightarrow> (string list \<times> int) option" where
  "role_entry rm p = map_option (\<lambda>st. (role_names st, sint (assign_ts st))) (mget (assignments rm) p)"

text \<open>Every named role is defined, and at least one is named.\<close>

definition update_valid :: "role_manager \<Rightarrow> role_update \<Rightarrow> bool" where
  "update_valid rm u \<longleftrightarrow> normalized (ru_names u) \<noteq> [] \<and>
     (\<forall>n \<in> set (ru_names u). mhas (definitions rm) (to_lower (trim_space n)))"

lemma deliver_update_definitions [simp]: "definitions (deliver_update u rm) = definitions rm"
  by (auto simp: deliver_update_def ApplyPeerAssignment_def split: sum.split)

lemma update_valid_normalize:
  "update_valid rm u \<Longrightarrow> normalize_names (definitions rm) (ru_names u) = Inr (normalized (ru_names u))"
  by (simp add: update_valid_def normalize_names_Inr)

interpretation role_lww: lww_store deliver_update role_entry ru_peer
  "\<lambda>u. normalized (ru_names u)" "\<lambda>u. sint (ru_ts u)" update_valid
proof unfold_locales
  fix rm u
  assume v: "update_valid rm u"
    and new: "\<And>v t. role_entry rm (ru_peer u) = Some (v, t) \<Longrightarrow> t < sint (ru_ts u)"
  from new have "case mget (assignments rm) (ru_peer u) of None \<Rightarrow> True | Some st \<Rightarrow> assign_ts st <s ru_ts u"
    by (auto simp: role_entry_def word_sless_alt split: option.split)
  with update_valid_normalize [OF v] v
  show "role_entry (deliver_update u rm) =
    (role_entry rm)(ru_peer u \<mapsto> (normalized (ru_names u), sint (ru_ts u)))"
    by (auto simp: deliver_update_def ApplyPeerAssignment_def role_entry_def update_valid_def fun_eq_iff)
next
  fix rm u v t
  assume v: "update_valid rm u" and e: "role_entry rm (ru_peer u) = Some (v, t)" "sint (ru_ts u) \<le> t"
  then have "\<not> (case mget (assignments rm) (ru_peer u) of None \<Rightarrow> True | Some st \<Rightarrow> assign_ts st <s ru_ts u)"
    by (auto simp: role_entry_def word_sless_alt)
  with update_valid_normalize [OF v] show "role_entry (deliver_update u rm) = role_entry rm"
    by (simp add: deliver_update_def ApplyPeerAssignment_def)
qed (simp add: update_valid_def)

lemma role_entry_perms:
  assumes "role_entry rm = role_entry rm'" "definitions rm = definitions rm'"
  shows "GetPermissionsForPeer rm p = GetPermissionsForPeer rm' p \<and>
    fst (GetAssignedRoles p rm) = fst (GetAssignedRoles p rm')"
proof -
  have "role_entry rm p = role_entry rm' p" using assms(1) by simp
  then have "map_option role_names (mget (assignments rm) p) = map_option role_names (mget (assignments rm') p)"
    by (auto simp: role_entry_def map_option_case split: option.splits)
  then show ?thesis
    by (simp add: GetPermissionsForPeer_def GetAssignedRoles_names assms(2))
qed

lemma deliver_fold_definitions [simp]: "definitions (fold deliver_update us rm) = definitions rm"
  by (induction us arbitrary: rm) simp_all

section \<open>Properties\<close>

text \<open>
  Role assignments converge: two peers with the same tables that receive the same
  non-empty, valid assignments in different orders end with the same roles and permissions for
  everybody, if assignments to one peer carry different timestamps.
\<close>

theorem ApplyPeerAssignment_converges:
  assumes "mset us = mset us'" and "\<forall>u \<in> set us. update_valid rm u"
    and "\<And>u u'. u \<in> set us \<Longrightarrow> u' \<in> set us \<Longrightarrow> ru_peer u = ru_peer u' \<Longrightarrow> ru_ts u = ru_ts u' \<Longrightarrow> u = u'"
  shows "GetPermissionsForPeer (fold deliver_update us rm) p = GetPermissionsForPeer (fold deliver_update us' rm) p
    \<and> fst (GetAssignedRoles p (fold deliver_update us rm)) = fst (GetAssignedRoles p (fold deliver_update us' rm))"
  by (rule role_entry_perms, rule role_lww.order_irrelevant [OF assms(1,2)])
    (use assms(3) in \<open>auto simp: signed_word_eqI\<close>)

theorem ApplyPeerAssignment_converges_witness:
  "GetPermissionsForPeer (fold deliver_update
      [\<lparr>ru_peer = PeerID ''b'', ru_names = [''Viewer''], ru_ts = 4\<rparr>,
       \<lparr>ru_peer = PeerID ''b'', ru_names = [''admin'', ''viewer''], ru_ts = 6\<rparr>] NewRoleManager) (PeerID ''b'')
   = GetPermissionsForPeer (fold deliver_update
      [\<lparr>ru_peer = PeerID ''b'', ru_names = [''admin'', ''viewer''], ru_ts = 6\<rparr>,
       \<lparr>ru_peer = PeerID ''b'', ru_names = [''Viewer''], ru_ts = 4\<rparr>] NewRoleManager) (PeerID ''b'')"
proof -
  have "update_valid NewRoleManager \<lparr>ru_peer = PeerID ''b'', ru_names = [''Viewer''], ru_ts = 4\<rparr>"
    "update_valid NewRoleManager \<lparr>ru_peer = PeerID ''b'', ru_names = [''admin'', ''viewer''], ru_ts = 6\<rparr>"
    by code_simp+
  then show ?thesis
    by (intro ApplyPeerAssignment_converges [THEN conjunct1]) auto
qed

lemma fold_apply_definition:
  assumes "\<forall>(k, r) \<in> set m. k = to_lower (role_name r) \<and> role_name r \<noteq> [] \<and> uint (role_perms r) < 2 ^ 32"
    and "keys_ok m"
  shows "mget (fold apply_definition (map (\<lambda>(k, r). pb_of_role r) m) acc) k =
    (case mget m k of None \<Rightarrow> mget acc k | Some r \<Rightarrow> Some r)"
  using assms
proof (induction m arbitrary: acc)
  case (Cons e m)
  obtain k0 r where e: "e = (k0, r)" by (cases e)
  have r: "k0 = to_lower (role_name r)" "role_name r \<noteq> []" "uint (role_perms r) < 2 ^ 32"
    and m: "keys_ok m" "k0 \<notin> fst ` set m"
    using Cons.prems by (auto simp: e keys_ok_def)
  have none: "mget m k0 = None" using m(2) by (simp add: map_of_eq_None_iff)
  have "ucast (ucast (role_perms r) :: u32) = role_perms r"
    by (rule word_uint_eqI) (use r(3) in \<open>simp add: unsigned_ucast_eq unsigned_take_bit_eq take_bit_int_eq_self\<close>)
  then have "apply_definition (pb_of_role r) acc = mput acc k0 r"
    using r(1,2) by (cases r) (simp add: apply_definition_def pb_of_role_def)
  with Cons.IH [of "mput acc k0 r"] Cons.prems(1) m none show ?case
    by (auto simp: e split: option.split)
qed simp

lemma to_lower_trim_neq:
  assumes "to_lower s = to_lower (trim_space s)"
  shows "trim_space s = s"
proof -
  have "length s = length (trim_space s)"
    using arg_cong [OF assms, of length] by (simp add: to_lower_def)
  moreover have "length (dropWhile is_space s) \<le> length s"
    "length (trim_space s) \<le> length (dropWhile is_space s)"
    using length_dropWhile_le [of is_space s] length_dropWhile_le [of is_space "rev (dropWhile is_space s)"]
    by (simp_all add: trim_space_def)
  ultimately have "length (dropWhile is_space s) = length s"
    "length (dropWhile is_space (rev (dropWhile is_space s))) = length (rev (dropWhile is_space s))"
    by (simp_all add: trim_space_def)
  moreover have full: "dropWhile p t = t" if "length (dropWhile p t) = length t" for p and t :: string
  proof -
    have "takeWhile p t @ dropWhile p t = t" by simp
    then have "takeWhile p t = []" using that
      by (metis add_cancel_left_left length_0_conv length_append)
    then show ?thesis by (metis append_Nil takeWhile_dropWhile_id)
  qed
  ultimately have s: "dropWhile is_space s = s"
    and "dropWhile is_space (rev (dropWhile is_space s)) = rev (dropWhile is_space s)"
    using full by blast+
  then show ?thesis by (simp add: trim_space_def)
qed

text \<open>Every role is stored under its own lower-case name, with permissions that fit the 32 bits of a message.\<close>

definition defs_canonical :: "role_manager \<Rightarrow> bool" where
  "defs_canonical rm \<longleftrightarrow> (\<forall>(k, r) \<in> set (definitions rm). k = to_lower (role_name r) \<and> uint (role_perms r) < 2 ^ 32)"

lemma defs_canonical_get:
  "keys_ok (definitions rm) \<Longrightarrow> defs_canonical rm \<longleftrightarrow>
     (\<forall>k r. mget (definitions rm) k = Some r \<longrightarrow> k = to_lower (role_name r) \<and> uint (role_perms r) < 2 ^ 32)"
  by (auto simp: defs_canonical_def keys_ok_mem)

lemma definitions_message_applied:
  assumes "rm_ok rm" "defs_canonical rm" "rdu_definitions u = rdu_definitions (definitions_message rm)"
  shows "mget (definitions (snd (ApplyDefinitionsUpdate (Some u) remote))) = mget (definitions rm)"
    "assignments (snd (ApplyDefinitionsUpdate (Some u) remote)) = assignments remote"
    "fst (ApplyDefinitionsUpdate (Some u) remote) = Inr ()"
proof -
  have kk: "keys_ok (definitions rm)" using assms(1) by (simp add: rm_ok_def defs_ok_def)
  have "k \<noteq> []" if "(k, r) \<in> set (definitions rm)" for k r
    using assms(1) that by (auto simp: rm_ok_def defs_ok_def keys_ok_mem)
  then have "\<forall>(k, r) \<in> set (definitions rm). k = to_lower (role_name r) \<and> role_name r \<noteq> [] \<and> uint (role_perms r) < 2 ^ 32"
    using assms(2) unfolding defs_canonical_def by fastforce
  note eq = fold_apply_definition [OF this kk]
  show "mget (definitions (snd (ApplyDefinitionsUpdate (Some u) remote))) = mget (definitions rm)"
    by (rule ext) (simp add: ApplyDefinitionsUpdate_def assms(3) definitions_message_def eq split: option.split)
qed (simp_all add: ApplyDefinitionsUpdate_def)

text \<open>
  A broadcast of the definitions reproduces them: a peer that applies the message built by
  \<open>UpdateDefinition\<close> or \<open>RemoveDefinition\<close> looks up the same role under every name, and so computes
  the same permissions from equal assignments, when every role is stored under its own lower-case
  name and its permissions fit the 32 bits of the message.
\<close>

theorem ApplyDefinitionsUpdate_reproduces:
  assumes "rm_ok rm" "defs_canonical rm"
    and "ApplyDefinitionsUpdate (Some (definitions_message rm)) remote = (res, remote')"
    and "assignments remote = assignments rm"
  shows "res = Inr () \<and> GetDefinition n remote' = GetDefinition n rm \<and>
    GetPermissionsForPeer remote' p = GetPermissionsForPeer rm p"
  using definitions_message_applied [OF assms(1,2) refl, of remote] assms(3,4)
  by (simp add: GetDefinition_def GetPermissionsForPeer_def GetAssignedRoles_def)

theorem ApplyDefinitionsUpdate_reproduces_witness:
  "GetDefinition ''Moderator'' (snd (ApplyDefinitionsUpdate (Some (definitions_message NewRoleManager))
      \<lparr>definitions = [], assignments = []\<rparr>)) = GetDefinition ''Moderator'' NewRoleManager"
proof -
  have d: "defs_canonical NewRoleManager" unfolding defs_canonical_def by code_simp
  show ?thesis
    by (rule ApplyDefinitionsUpdate_reproduces
          [OF rm_ok_New d surjective_pairing, THEN conjunct2, THEN conjunct1])
      (simp add: NewRoleManager_def)
qed

text \<open>
  The condition on the stored names is needed: a definition whose name has surrounding white
  space is kept under the trimmed name by the peer that creates it, and under the untrimmed one by
  every peer that receives it. An assignment of that role is then refused there.
\<close>

theorem UpdateDefinition_untrimmed_diverges:
  assumes "rm_ok rm" and "\<forall>(k, r) \<in> set (definitions rm). k = to_lower (role_name r)"
    and "trim_space name \<noteq> name" and "UpdateDefinition name q rm = (Inr upd, rm')"
    and "ApplyDefinitionsUpdate (Some upd) remote = (res, remote')"
  shows "(\<exists>d. GetDefinition (trim_space name) rm' = Some d \<and> role_perms d = q) \<and>
    GetDefinition (trim_space name) remote' = None \<and>
    ApplyPeerAssignment p [trim_space name] ts remote' = (Inl (RoleNotDefined (trim_space name)), remote')"
proof -
  let ?k = "to_lower (trim_space name)"
  have rm': "rm' = rm\<lparr>definitions := mput (definitions rm) ?k \<lparr>role_name = name, role_perms = q\<rparr>\<rparr>"
    and upd: "upd = definitions_message rm'"
    using assms(4) by (auto simp: UpdateDefinition_def Let_def split: if_splits)
  have neq: "to_lower name \<noteq> ?k" using to_lower_trim_neq assms(3) by metis
  have names: "to_lower (role_name r) \<noteq> ?k" if "(k, r) \<in> set (definitions rm')" for k r
  proof -
    have "keys_ok (definitions rm')" using assms(1) by (simp add: rm' rm_ok_def defs_ok_def)
    with that have "mget (definitions rm') k = Some r" by (simp add: keys_ok_mem)
    then consider "k = ?k" "r = \<lparr>role_name = name, role_perms = q\<rparr>"
      | "k \<noteq> ?k" "mget (definitions rm) k = Some r"
      by (auto simp: rm' split: if_splits)
    then show ?thesis using neq assms(2) by cases (auto dest!: mget_SomeD)
  qed
  have gone: "mget (fold apply_definition (map (\<lambda>(k, r). pb_of_role r) ds) acc) ?k = None"
    if "\<forall>e \<in> set ds. to_lower (role_name (snd e)) \<noteq> ?k" "mget acc ?k = None" for ds acc
    using that
    by (induction ds arbitrary: acc) (auto simp: apply_definition_def pb_of_role_def)
  have "\<forall>e \<in> set (definitions rm'). to_lower (role_name (snd e)) \<noteq> ?k"
    using names by auto
  from gone [OF this, of "[]"]
  have "mget (fold apply_definition (map (\<lambda>(k, r). pb_of_role r) (definitions rm')) []) ?k = None"
    by simp
  then have none: "mget (definitions remote') ?k = None"
    using assms(5) by (auto simp: upd definitions_message_def ApplyDefinitionsUpdate_def)
  then show ?thesis
    by (simp add: GetDefinition_def rm' ApplyPeerAssignment_def Let_def)
qed

theorem UpdateDefinition_untrimmed_diverges_witness:
  "GetDefinition ''dj'' (snd (ApplyDefinitionsUpdate
      (Some (definitions_message (snd (UpdateDefinition '' DJ'' PermQueue NewRoleManager)))) NewRoleManager)) = None"
proof -
  have d: "\<forall>(k, r) \<in> set (definitions NewRoleManager). k = to_lower (role_name r)"
    by code_simp
  have t: "trim_space '' DJ'' = ''DJ''" by code_simp
  have low: "to_lower ''DJ'' = ''dj''" "to_lower ''dj'' = ''dj''" by code_simp+
  obtain u rm' where run: "UpdateDefinition '' DJ'' PermQueue NewRoleManager = (Inr u, rm')"
    by (simp add: UpdateDefinition_def t Let_def)
  have u: "u = definitions_message rm'"
    using run by (auto simp: UpdateDefinition_def Let_def t)
  obtain res remote' where a: "ApplyDefinitionsUpdate (Some u) NewRoleManager = (res, remote')"
    by (cases "ApplyDefinitionsUpdate (Some u) NewRoleManager")
  have "GetDefinition (trim_space '' DJ'') remote' = None"
    using UpdateDefinition_untrimmed_diverges [OF rm_ok_New d _ run a] t by simp
  moreover have "GetDefinition (trim_space '' DJ'') remote' = GetDefinition ''dj'' remote'"
    unfolding GetDefinition_def t low ..
  ultimately show ?thesis using run a u by simp
qed

text \<open>
  The non-emptiness in the convergence property is needed: a revocation (an assignment of no
  roles) deletes the entry with its timestamp, so an older assignment that arrives after it is taken
  again. The same two messages in the order of their timestamps leave the peer without roles.
\<close>

theorem ApplyPeerAssignment_stale_after_revoke:
  assumes "update_valid rm u" and "ru_names r = []" and "ru_peer r = ru_peer u"
    and "sint (ru_ts u) < sint (ru_ts r)"
    and "\<forall>st. mget (assignments rm) (ru_peer u) = Some st \<longrightarrow> sint (assign_ts st) < sint (ru_ts u)"
  shows "fst (GetAssignedRoles (ru_peer u) (fold deliver_update [u, r] rm)) = [] \<and>
    fst (GetAssignedRoles (ru_peer u) (fold deliver_update [r, u] rm)) = normalized (ru_names u)"
proof -
  have r: "deliver_update r rm0 = rm0\<lparr>assignments := mdel (assignments rm0) (ru_peer u)\<rparr>"
    if "\<forall>st. mget (assignments rm0) (ru_peer u) = Some st \<longrightarrow> sint (assign_ts st) < sint (ru_ts r)" for rm0
    using that assms(2,3)
    by (auto simp: deliver_update_def ApplyPeerAssignment_def word_sless_alt split: option.split)
  have u: "deliver_update u rm0 = rm0\<lparr>assignments := mput (assignments rm0) (ru_peer u)
      \<lparr>role_names = normalized (ru_names u), assign_ts = ru_ts u\<rparr>\<rparr>"
    if "\<forall>st. mget (assignments rm0) (ru_peer u) = Some st \<longrightarrow> sint (assign_ts st) < sint (ru_ts u)"
      "update_valid rm0 u" for rm0
    using that update_valid_normalize [OF that(2)]
    by (auto simp: deliver_update_def ApplyPeerAssignment_def word_sless_alt update_valid_def
        split: option.split)
  have "\<forall>st. mget (assignments rm) (ru_peer u) = Some st \<longrightarrow> sint (assign_ts st) < sint (ru_ts r)"
    using assms(4,5) by force
  note r1 = r [OF this]
  have "update_valid (deliver_update r rm) u" using assms(1) by (simp add: update_valid_def)
  with u [of "deliver_update r rm"] r1
  have 2: "fst (GetAssignedRoles (ru_peer u) (deliver_update u (deliver_update r rm))) = normalized (ru_names u)"
    by (simp add: GetAssignedRoles_def)
  have 1: "fst (GetAssignedRoles (ru_peer u) (deliver_update r (deliver_update u rm))) = []"
    using r [of "deliver_update u rm"] u [OF assms(5,1)] assms(4) by (simp add: GetAssignedRoles_def)
  from 1 2 show ?thesis by simp
qed

theorem ApplyPeerAssignment_stale_after_revoke_witness:
  "fst (GetAssignedRoles (PeerID ''b'') (fold deliver_update
      [\<lparr>ru_peer = PeerID ''b'', ru_names = [], ru_ts = 9\<rparr>,
       \<lparr>ru_peer = PeerID ''b'', ru_names = [''admin''], ru_ts = 4\<rparr>] NewRoleManager)) = normalized [''admin'']"
proof -
  have v: "update_valid NewRoleManager \<lparr>ru_peer = PeerID ''b'', ru_names = [''admin''], ru_ts = 4\<rparr>"
    by code_simp
  show ?thesis
    using ApplyPeerAssignment_stale_after_revoke
      [OF v, of "\<lparr>ru_peer = PeerID ''b'', ru_names = [], ru_ts = 9\<rparr>"]
    by (simp add: NewRoleManager_def)
qed

end
