(* ===== verification/Sessions.thy ===== *)
theory Sessions
  imports RoleManager
begin

text \<open>
  Sessions, their members and their bans: \<^verbatim>\<open>peer_service/internal/session/session.go\<close> and
  \<^verbatim>\<open>session_manager.go\<close>. The manager shares the role manager (and its clock) with the rest of the peer, so the
  operations that assign roles also take and return those. \<^verbatim>\<open>uuid.NewString\<close> is an argument: the
  fresh identifier. \<^verbatim>\<open>rm == nil\<close>, which \<^verbatim>\<open>main\<close> never passes, is not modelled.
\<close>

record user_info =
  ui_username :: string
  ui_roles :: "string list"
  ui_peer :: peer_id

record ban_info =
  bi_peer :: peer_id
  bi_username :: string
  bi_by :: peer_id
  bi_reason :: string
  bi_at :: i64

record session =
  sess_id :: string
  AdminPeerID :: peer_id
  sess_name :: string
  IsPrivate :: bool
  InviteCode :: string
  Members :: "(peer_id, user_info) gomap"
  Banned :: "(peer_id, ban_info) gomap"

type_synonym session_manager = "(string, session) gomap"

datatype session_error = SessionNotFound string | SessionCollision string

definition no_user :: user_info where
  "no_user = \<lparr>ui_username = '''', ui_roles = [], ui_peer = PeerID ''''\<rparr>"

definition no_ban :: ban_info where
  "no_ban = \<lparr>bi_peer = PeerID '''', bi_username = '''', bi_by = PeerID '''', bi_reason = '''', bi_at = 0\<rparr>"

definition NewSessionManager :: session_manager where
  "NewSessionManager = []"

definition CreateSession ::
  "codec \<Rightarrow> string \<Rightarrow> peer_id \<Rightarrow> string \<Rightarrow> string \<Rightarrow> session_manager \<times> role_manager \<times> hlc
     \<Rightarrow> (session_error + session) \<times> session_manager \<times> role_manager \<times> hlc" where
  "CreateSession K sessionID admin adminUsername sessionName s =
     (case s of (sm, rm, c) \<Rightarrow>
       (if mhas sm sessionID then (Inl (SessionCollision sessionID), sm, rm, c)
        else
          (let adminRoles = [''Admin''];
               adminInfo = \<lparr>ui_username = adminUsername, ui_roles = adminRoles, ui_peer = admin\<rparr>;
               newSession = \<lparr>sess_id = sessionID, AdminPeerID = admin, sess_name = sessionName,
                             IsPrivate = False, InviteCode = sessionID,
                             Members = mput [] admin adminInfo, Banned = []\<rparr>;
               (res, rm', c') = SetPeerRoles K admin adminRoles (rm, c)
           in (Inr newSession, mput sm sessionID newSession, rm', c'))))"

definition GetSession :: "string \<Rightarrow> session_manager \<Rightarrow> session option" where
  "GetSession sessionID sm = mget sm sessionID"

definition AddPeerToSession ::
  "codec \<Rightarrow> string \<Rightarrow> peer_id \<Rightarrow> string \<Rightarrow> string list \<Rightarrow> session_manager \<times> role_manager \<times> hlc
     \<Rightarrow> (session_error + session \<times> user_info) \<times> session_manager \<times> role_manager \<times> hlc" where
  "AddPeerToSession K sessionID p username initialRoles s =
     (case s of (sm, rm, c) \<Rightarrow>
       (case mget sm sessionID of
          None \<Rightarrow> (Inl (SessionNotFound sessionID), sm, rm, c)
        | Some session \<Rightarrow>
            (case mget (Members session) p of
               Some info \<Rightarrow> (Inr (session, info), sm, rm, c)
             | None \<Rightarrow>
                 (let roles = (if length initialRoles = 0 then [''Viewer''] else initialRoles);
                      newUserInfo = \<lparr>ui_username = username, ui_roles = roles, ui_peer = p\<rparr>;
                      session' = session\<lparr>Members := mput (Members session) p newUserInfo\<rparr>;
                      (res, rm', c') = SetPeerRoles K p roles (rm, c)
                  in (Inr (session', newUserInfo), mput sm sessionID session', rm', c')))))"

definition RemovePeerFromSession ::
  "string \<Rightarrow> peer_id \<Rightarrow> session_manager \<Rightarrow> (session_error + user_info \<times> bool) \<times> session_manager" where
  "RemovePeerFromSession sessionID p sm =
     (case mget sm sessionID of
        None \<Rightarrow> (Inl (SessionNotFound sessionID), sm)
      | Some session \<Rightarrow>
          (case mget (Members session) p of
             None \<Rightarrow> (Inr (no_user, False), sm)
           | Some info \<Rightarrow>
               (Inr (info, True), mput sm sessionID (session\<lparr>Members := mdel (Members session) p\<rparr>))))"

definition IsPeerBanned :: "string \<Rightarrow> peer_id \<Rightarrow> session_manager \<Rightarrow> bool \<times> ban_info" where
  "IsPeerBanned sessionID p sm =
     (case mget sm sessionID of
        None \<Rightarrow> (False, no_ban)
      | Some session \<Rightarrow>
          (case mget (Banned session) p of None \<Rightarrow> (False, no_ban) | Some b \<Rightarrow> (True, b)))"

definition BanPeer ::
  "string \<Rightarrow> peer_id \<Rightarrow> peer_id \<Rightarrow> string \<Rightarrow> i64 \<Rightarrow> session_manager
     \<Rightarrow> (session_error + ban_info) \<times> session_manager" where
  "BanPeer sessionID p bannedBy reason bannedAt sm =
     (case mget sm sessionID of
        None \<Rightarrow> (Inl (SessionNotFound sessionID), sm)
      | Some session \<Rightarrow>
          (let banInfo = \<lparr>bi_peer = p, bi_username = '''', bi_by = bannedBy, bi_reason = reason,
                          bi_at = bannedAt\<rparr>;
               (banInfo', session') =
                 (case mget (Members session) p of
                    Some info \<Rightarrow> (banInfo\<lparr>bi_username := ui_username info\<rparr>,
                                  session\<lparr>Members := mdel (Members session) p\<rparr>)
                  | None \<Rightarrow> (banInfo, session));
               session'' = session'\<lparr>Banned := mput (Banned session') p banInfo'\<rparr>
           in (Inr banInfo', mput sm sessionID session'')))"

definition IsPeerInSession :: "string \<Rightarrow> peer_id \<Rightarrow> session_manager \<Rightarrow> bool" where
  "IsPeerInSession sessionID p sm =
     (case mget sm sessionID of None \<Rightarrow> False | Some session \<Rightarrow> mhas (Members session) p)"

definition GetSessionMembers :: "string \<Rightarrow> session_manager \<Rightarrow> session_error + user_info list" where
  "GetSessionMembers sessionID sm =
     (case mget sm sessionID of
        None \<Rightarrow> Inl (SessionNotFound sessionID)
      | Some session \<Rightarrow> Inr (map snd (Members session)))"

section \<open>Invariant\<close>

definition session_ok :: "string \<Rightarrow> session \<Rightarrow> bool" where
  "session_ok sid s \<longleftrightarrow> sess_id s = sid \<and> InviteCode s = sid \<and> keys_ok (Members s) \<and> keys_ok (Banned s)
     \<and> (\<forall>p u. mget (Members s) p = Some u \<longrightarrow> ui_peer u = p \<and> ui_roles u \<noteq> [])
     \<and> (\<forall>p b. mget (Banned s) p = Some b \<longrightarrow> bi_peer b = p)"

definition sm_ok :: "session_manager \<Rightarrow> bool" where
  "sm_ok sm \<longleftrightarrow> keys_ok sm \<and> (\<forall>sid s. mget sm sid = Some s \<longrightarrow> session_ok sid s)"

lemma sm_ok_mput: "sm_ok sm \<Longrightarrow> session_ok sid s \<Longrightarrow> sm_ok (mput sm sid s)"
  by (simp add: sm_ok_def)

lemma sm_okD: "sm_ok sm \<Longrightarrow> mget sm sid = Some s \<Longrightarrow> session_ok sid s"
  by (simp add: sm_ok_def)

datatype session_cmd =
    CmdCreate string peer_id string string
  | CmdAdd string peer_id string "string list"
  | CmdRemovePeer string peer_id
  | CmdBan string peer_id peer_id string i64

type_synonym session_state = "session_manager \<times> role_manager \<times> hlc"

fun session_exec :: "codec \<Rightarrow> session_cmd \<Rightarrow> session_state \<Rightarrow> session_state" where
  "session_exec K (CmdCreate sid admin u n) s = snd (CreateSession K sid admin u n s)"
| "session_exec K (CmdAdd sid p u rs) s = snd (AddPeerToSession K sid p u rs s)"
| "session_exec K (CmdRemovePeer sid p) (sm, rm, c) = (snd (RemovePeerFromSession sid p sm), rm, c)"
| "session_exec K (CmdBan sid p b r t) (sm, rm, c) = (snd (BanPeer sid p b r t sm), rm, c)"

text \<open>The four operations by the shape of their result.\<close>

lemma CreateSession_sm:
  "fst (snd (CreateSession K sid admin u n s)) =
     (if mhas (fst s) sid then fst s
      else mput (fst s) sid \<lparr>sess_id = sid, AdminPeerID = admin, sess_name = n, IsPrivate = False, InviteCode = sid,
             Members = mput [] admin \<lparr>ui_username = u, ui_roles = [''Admin''], ui_peer = admin\<rparr>, Banned = []\<rparr>)"
  by (cases s) (simp add: CreateSession_def Let_def split: prod.split)

lemma AddPeer_sm:
  "fst (snd (AddPeerToSession K sid p u rs st)) =
     (case mget (fst st) sid of None \<Rightarrow> fst st
      | Some s \<Rightarrow> if mhas (Members s) p then fst st
          else mput (fst st) sid (s\<lparr>Members := mput (Members s) p
                 \<lparr>ui_username = u, ui_roles = if rs = [] then [''Viewer''] else rs, ui_peer = p\<rparr>\<rparr>))"
  by (cases st) (simp add: AddPeerToSession_def Let_def split: prod.split option.split)

lemma RemovePeer_sm:
  "snd (RemovePeerFromSession sid p sm) =
     (case mget sm sid of None \<Rightarrow> sm
      | Some s \<Rightarrow> if mhas (Members s) p then mput sm sid (s\<lparr>Members := mdel (Members s) p\<rparr>) else sm)"
  by (simp add: RemovePeerFromSession_def split: option.split)

definition banned_as :: "session \<Rightarrow> peer_id \<Rightarrow> peer_id \<Rightarrow> string \<Rightarrow> i64 \<Rightarrow> ban_info" where
  "banned_as s p b r t = \<lparr>bi_peer = p,
     bi_username = (case mget (Members s) p of None \<Rightarrow> '''' | Some i \<Rightarrow> ui_username i),
     bi_by = b, bi_reason = r, bi_at = t\<rparr>"

lemma BanPeer_sm:
  "snd (BanPeer sid p b r t sm) =
     (case mget sm sid of None \<Rightarrow> sm
      | Some s \<Rightarrow> mput sm sid
          (s\<lparr>Members := if mhas (Members s) p then mdel (Members s) p else Members s,
             Banned := mput (Banned s) p (banned_as s p b r t)\<rparr>))"
  by (auto simp: BanPeer_def Let_def banned_as_def split: option.split)

lemma session_exec_sm [simp]:
  "fst (session_exec K (CmdRemovePeer sid p) s) = snd (RemovePeerFromSession sid p (fst s))"
  "fst (session_exec K (CmdBan sid p b r t) s) = snd (BanPeer sid p b r t (fst s))"
  by (cases s, simp)+

lemma sm_ok_exec: "sm_ok (fst s) \<Longrightarrow> sm_ok (fst (session_exec K cmd s))"
proof -
  assume ok: "sm_ok (fst s)"
  show ?thesis
  proof (cases cmd)
    case (CmdCreate sid p u n)
    then show ?thesis
      using ok by (auto simp: session_exec_sm CreateSession_sm session_ok_def keys_ok_def intro!: sm_ok_mput)
  next
    case (CmdAdd sid p u rs)
    then show ?thesis
      using ok sm_okD [OF ok]
      by (auto simp: session_exec_sm AddPeer_sm session_ok_def intro!: sm_ok_mput split: option.split)
  next
    case (CmdRemovePeer sid p)
    then show ?thesis
      using ok sm_okD [OF ok]
      by (auto simp: session_exec_sm RemovePeer_sm session_ok_def intro!: sm_ok_mput split: option.split)
  next
    case (CmdBan sid p b r t)
    then show ?thesis
      using ok sm_okD [OF ok]
      by (auto simp: session_exec_sm BanPeer_sm session_ok_def banned_as_def intro!: sm_ok_mput split: option.split)
  qed
qed

lemma sm_ok_fold: "sm_ok (fst s) \<Longrightarrow> sm_ok (fst (fold (session_exec K) cmds s))"
  by (induction cmds arbitrary: s) (simp_all add: sm_ok_exec)

lemma sm_ok_New [simp]: "sm_ok NewSessionManager"
  by (simp add: sm_ok_def NewSessionManager_def)

definition is_banned :: "session_manager \<Rightarrow> string \<Rightarrow> peer_id \<Rightarrow> bool" where
  "is_banned sm sid p \<longleftrightarrow> fst (IsPeerBanned sid p sm)"

lemma is_banned_iff: "is_banned sm sid p \<longleftrightarrow> (\<exists>s. mget sm sid = Some s \<and> mhas (Banned s) p)"
  by (auto simp: is_banned_def IsPeerBanned_def split: option.split)

lemma banned_exec: "is_banned (fst s) sid p \<Longrightarrow> is_banned (fst (session_exec K cmd s)) sid p"
  by (cases cmd) (auto simp: is_banned_iff session_exec_sm CreateSession_sm AddPeer_sm RemovePeer_sm BanPeer_sm
      split: option.split)

lemma banned_fold: "is_banned (fst s) sid p \<Longrightarrow> is_banned (fst (fold (session_exec K) cmds s)) sid p"
  by (induction cmds arbitrary: s) (simp_all add: banned_exec)

section \<open>Properties\<close>

text \<open>
  After any sequence of session operations every session is filed under its own identifier, which is
  also its invite code; every member entry carries the peer it is filed under and at least one role, and
  every ban the peer it is filed under.
\<close>

theorem sessions_reachable:
  "let sm = fst (fold (session_exec K) cmds (NewSessionManager, rm, c)) in
    \<forall>sid s. GetSession sid sm = Some s \<longrightarrow> sess_id s = sid \<and> InviteCode s = sid \<and>
      (\<forall>p u. mget (Members s) p = Some u \<longrightarrow> ui_peer u = p \<and> ui_roles u \<noteq> []) \<and>
      (\<forall>p b. mget (Banned s) p = Some b \<longrightarrow> bi_peer b = p)"
  using sm_okD [OF sm_ok_fold [of "(NewSessionManager, rm, c)" K cmds]]
  by (auto simp: Let_def GetSession_def session_ok_def)

theorem sessions_reachable_witness:
  "\<exists>s. GetSession ''s1'' (fst (fold (session_exec plain_codec)
      [CmdCreate ''s1'' (PeerID ''a'') ''ann'' ''film'', CmdAdd ''s1'' (PeerID ''b'') ''bob'' []]
      (NewSessionManager, \<lparr>definitions = [], assignments = []\<rparr>,
       \<lparr>hlc_time = 5, hlc_logical = 0, wall = (\<lambda>n. 7), reads = 0\<rparr>))) = Some s \<and> InviteCode s = ''s1''"
proof -
  let ?c = "\<lparr>hlc_time = 5, hlc_logical = 0, wall = (\<lambda>n. 7), reads = 0\<rparr>"
  let ?rm = "\<lparr>definitions = [], assignments = []\<rparr>"
  let ?cmds = "[CmdCreate ''s1'' (PeerID ''a'') ''ann'' ''film'', CmdAdd ''s1'' (PeerID ''b'') ''bob'' []]"
  have "mhas (fst (fold (session_exec plain_codec) ?cmds (NewSessionManager, ?rm, ?c))) ''s1''"
    by (simp add: session_exec_sm CreateSession_sm AddPeer_sm NewSessionManager_def)
  then obtain s where
    "GetSession ''s1'' (fst (fold (session_exec plain_codec) ?cmds (NewSessionManager, ?rm, ?c))) = Some s"
    by (auto simp: GetSession_def)
  with sessions_reachable [of plain_codec ?cmds ?rm ?c] show ?thesis by (auto simp: Let_def)
qed

text \<open>
  A ban takes effect at once and for good: the banned peer is no longer a member, the ban records
  who issued it and why, no other peer is affected, and no later operation lifts it.
\<close>

theorem BanPeer_permanent:
  assumes "BanPeer sid p by reason t sm = (Inr info, sm')"
  shows "\<not> IsPeerInSession sid p sm' \<and> IsPeerBanned sid p sm' = (True, info) \<and>
    bi_by info = by \<and> bi_reason info = reason \<and> bi_at info = t \<and>
    (\<forall>sid' p'. (sid', p') \<noteq> (sid, p) \<longrightarrow> IsPeerInSession sid' p' sm' = IsPeerInSession sid' p' sm \<and>
        IsPeerBanned sid' p' sm' = IsPeerBanned sid' p' sm) \<and>
    fst (IsPeerBanned sid p (fst (fold (session_exec K) cmds (sm', rm, c))))"
proof -
  obtain s where s: "mget sm sid = Some s" using assms by (auto simp: BanPeer_def split: option.splits)
  have sm': "sm' = mput sm sid
      (s\<lparr>Members := if mhas (Members s) p then mdel (Members s) p else Members s,
         Banned := mput (Banned s) p (banned_as s p by reason t)\<rparr>)"
    using arg_cong [OF assms, of snd] by (simp add: BanPeer_sm s)
  have info: "info = banned_as s p by reason t"
    using assms by (auto simp: BanPeer_def s Let_def banned_as_def split: option.splits)
  have "is_banned sm' sid p" by (simp add: is_banned_iff sm')
  then have "is_banned (fst (fold (session_exec K) cmds (sm', rm, c))) sid p"
    using banned_fold [of "(sm', rm, c)"] by simp
  moreover have "IsPeerInSession sid' p' sm' = IsPeerInSession sid' p' sm \<and>
      IsPeerBanned sid' p' sm' = IsPeerBanned sid' p' sm" if "(sid', p') \<noteq> (sid, p)" for sid' p'
    using that s by (auto simp: sm' IsPeerInSession_def IsPeerBanned_def split: option.splits)
  ultimately show ?thesis
    by (auto simp: is_banned_def IsPeerInSession_def IsPeerBanned_def sm' info banned_as_def)
qed

theorem BanPeer_permanent_witness:
  "\<exists>info sm'. BanPeer ''s1'' (PeerID ''b'') (PeerID ''a'') ''spam'' 4
      (fst (snd (CreateSession plain_codec ''s1'' (PeerID ''a'') ''ann'' ''film''
        ([], NewRoleManager, \<lparr>hlc_time = 5, hlc_logical = 0, wall = (\<lambda>n. 7), reads = 0\<rparr>)))) = (Inr info, sm')
    \<and> IsPeerBanned ''s1'' (PeerID ''b'') sm' = (True, info)"
proof -
  let ?sm = "fst (snd (CreateSession plain_codec ''s1'' (PeerID ''a'') ''ann'' ''film''
        ([], NewRoleManager, \<lparr>hlc_time = 5, hlc_logical = 0, wall = (\<lambda>n. 7), reads = 0\<rparr>)))"
  obtain info sm' where b: "BanPeer ''s1'' (PeerID ''b'') (PeerID ''a'') ''spam'' 4 ?sm = (Inr info, sm')"
    by (simp add: BanPeer_def CreateSession_sm Let_def)
  from BanPeer_permanent [OF b] b show ?thesis by blast
qed

end
