(* ===== verification/Queue.thy ===== *)
theory Queue
  imports Messages
begin

text \<open>
  The media queue: \<^verbatim>\<open>peer_service/internal/p2p/queue.go\<close>. A list of items and a cursor, \<open>-1\<close> when
  nothing is playing. A result of type \<open>option\<close> is a Go panic when it is \<open>None\<close>; a Go pair
  \<open>(QueueItem, bool)\<close> is a pair.
\<close>

section \<open>State and operations\<close>

record queue_item =
  FilePath :: string
  StoredBy :: peer_id
  AddedBy :: peer_id
  FirstSeq :: u32
  NumSegs :: u32
  HlcTs :: i64

definition zero_item :: queue_item where
  "zero_item = \<lparr>FilePath = '''', StoredBy = PeerID '''', AddedBy = PeerID '''', FirstSeq = 0,
     NumSegs = 0, HlcTs = 0\<rparr>"

record queue =
  items :: "queue_item list"
  cursor :: int

definition NewQueue :: queue where
  "NewQueue = \<lparr>items = [], cursor = -1\<rparr>"

definition Len :: "queue \<Rightarrow> int" where
  "Len q = int (length (items q))"

definition updateCursorAfterMutation :: "int \<Rightarrow> queue \<Rightarrow> queue" where
  "updateCursorAfterMutation changedAtIndex q =
     (if Len q = 0 then q\<lparr>cursor := -1\<rparr>
      else (let q1 = (if cursor q \<ge> Len q then q\<lparr>cursor := Len q - 1\<rparr> else q)
            in if cursor q1 = -1 \<and> Len q1 > 0 then q1\<lparr>cursor := 0\<rparr> else q1))"

definition ReplaceItems :: "queue_item list \<Rightarrow> queue \<Rightarrow> queue" where
  "ReplaceItems newItems q = updateCursorAfterMutation 0 (q\<lparr>items := newItems\<rparr>)"

definition HeadNoLock :: "queue \<Rightarrow> (queue_item \<times> bool) option" where
  "HeadNoLock q =
     (if Len q = 0 then Some (zero_item, False)
      else if cursor q < 0 \<or> cursor q \<ge> Len q then None
      else Some (items q ! nat (cursor q), cursor q \<ge> 0 \<and> cursor q < Len q))"

definition PopHeadNoLock :: "queue \<Rightarrow> bool \<times> queue" where
  "PopHeadNoLock q =
     (if Len q > 0 then (True, q\<lparr>items := tl (items q)\<rparr>) else (False, q))"

definition ItemsNoLock :: "queue \<Rightarrow> queue_item list" where
  "ItemsNoLock q = items q"

definition Append :: "queue_item \<Rightarrow> queue \<Rightarrow> queue_item \<times> queue" where
  "Append it q =
     (let q1 = q\<lparr>items := items q @ [it]\<rparr>;
          q2 = (if cursor q1 = -1 \<and> Len q1 > 0 then q1\<lparr>cursor := Len q1 - 1\<rparr> else q1)
      in (it, q2))"

definition Remove :: "int \<Rightarrow> queue \<Rightarrow> bool \<times> queue" where
  "Remove idx q =
     (if idx < 0 \<or> idx \<ge> Len q then (False, q)
      else (let q1 = q\<lparr>items := take (nat idx) (items q) @ drop (nat idx + 1) (items q)\<rparr>;
                q2 = (if Len q1 = 0 then q1\<lparr>cursor := -1\<rparr>
                      else if cursor q1 = idx then
                        (if idx \<ge> Len q1 then q1\<lparr>cursor := Len q1 - 1\<rparr> else q1)
                      else if cursor q1 > idx then q1\<lparr>cursor := cursor q1 - 1\<rparr>
                      else q1)
            in (True, q2)))"

definition Clear :: "queue \<Rightarrow> queue" where
  "Clear q = q\<lparr>items := [], cursor := -1\<rparr>"

definition Head :: "queue \<Rightarrow> queue_item \<times> bool" where
  "Head q =
     (if cursor q < 0 \<or> cursor q \<ge> Len q then (zero_item, False)
      else (items q ! nat (cursor q), True))"

definition AdvanceCursor :: "queue \<Rightarrow> (queue_item \<times> bool) \<times> queue" where
  "AdvanceCursor q =
     (if cursor q < 0 \<or> cursor q + 1 \<ge> Len q then ((zero_item, False), q\<lparr>cursor := -1\<rparr>)
      else (let q1 = q\<lparr>cursor := cursor q + 1\<rparr> in ((items q1 ! nat (cursor q1), True), q1)))"

definition Items :: "queue \<Rightarrow> queue_item list" where
  "Items q = items q"

definition SetItemAtCursor :: "queue_item \<Rightarrow> queue \<Rightarrow> bool \<times> queue" where
  "SetItemAtCursor item q =
     (if cursor q \<ge> 0 \<and> cursor q < Len q
      then (True, q\<lparr>items := (items q)[nat (cursor q) := item]\<rparr>)
      else (False, q))"

definition GetCursor :: "queue \<Rightarrow> int" where
  "GetCursor q = cursor q"

definition SetCursor :: "int \<Rightarrow> queue \<Rightarrow> bool \<times> queue" where
  "SetCursor idx q =
     (if idx = -1 \<or> (idx \<ge> 0 \<and> idx < Len q) then (True, q\<lparr>cursor := idx\<rparr>) else (False, q))"

definition RewindCursor :: "queue \<Rightarrow> (queue_item \<times> bool) \<times> queue" where
  "RewindCursor q =
     (if cursor q \<le> 0 \<or> Len q = 0 then ((zero_item, False), q\<lparr>cursor := -1\<rparr>)
      else (let q1 = q\<lparr>cursor := cursor q - 1\<rparr> in ((items q1 ! nat (cursor q1), True), q1)))"

section \<open>Invariant\<close>

definition queue_ok :: "queue \<Rightarrow> bool" where
  "queue_ok q \<longleftrightarrow> -1 \<le> cursor q \<and> cursor q < Len q"

lemma Len_simps [simp]: "Len \<lparr>items = xs, cursor = i\<rparr> = int (length xs)"
  "Len (q\<lparr>cursor := i\<rparr>) = Len q" "Len (q\<lparr>items := xs\<rparr>) = int (length xs)"
  by (simp_all add: Len_def)

lemmas queue_defs = NewQueue_def updateCursorAfterMutation_def ReplaceItems_def Append_def Remove_def
  Clear_def Head_def AdvanceCursor_def SetItemAtCursor_def SetCursor_def RewindCursor_def

datatype queue_op =
    OpReplace "queue_item list" | OpAppend queue_item | OpRemove int | OpClear | OpAdvance
  | OpRewind | OpSetItem queue_item | OpSetCursor int

fun queue_exec :: "queue_op \<Rightarrow> queue \<Rightarrow> queue" where
  "queue_exec (OpReplace xs) q = ReplaceItems xs q"
| "queue_exec (OpAppend it) q = snd (Append it q)"
| "queue_exec (OpRemove i) q = snd (Remove i q)"
| "queue_exec OpClear q = Clear q"
| "queue_exec OpAdvance q = snd (AdvanceCursor q)"
| "queue_exec OpRewind q = snd (RewindCursor q)"
| "queue_exec (OpSetItem it) q = snd (SetItemAtCursor it q)"
| "queue_exec (OpSetCursor i) q = snd (SetCursor i q)"

lemma queue_ok_New [simp]: "queue_ok NewQueue"
  by (simp add: queue_ok_def NewQueue_def)

lemma queue_ok_exec: "queue_ok q \<Longrightarrow> queue_ok (queue_exec op q)"
  by (cases op) (auto simp: queue_ok_def queue_defs Let_def Len_def)

lemma queue_ok_fold: "queue_ok q \<Longrightarrow> queue_ok (fold queue_exec ops q)"
  by (induction ops arbitrary: q) (simp_all add: queue_ok_exec)

lemma queue_ok_ops:
  assumes "queue_ok q"
  shows "queue_ok (ReplaceItems xs q)" "queue_ok (snd (Append it q))" "queue_ok (snd (Remove i q))"
    "queue_ok (Clear q)" "queue_ok (snd (AdvanceCursor q))" "queue_ok (snd (RewindCursor q))"
    "queue_ok (snd (SetItemAtCursor it q))" "queue_ok (snd (SetCursor i q))"
  using queue_ok_exec [OF assms] by (metis queue_exec.simps)+

section \<open>The abstract playlist\<close>

text \<open>Either nothing plays, or one item does, with those before and after it.\<close>

datatype 'i playlist = Idle "'i list" | Playing "'i list" 'i "'i list"

fun pl_items :: "'i playlist \<Rightarrow> 'i list" where
  "pl_items (Idle xs) = xs"
| "pl_items (Playing bs c as) = bs @ c # as"

fun pl_current :: "'i playlist \<Rightarrow> 'i option" where
  "pl_current (Idle xs) = None"
| "pl_current (Playing bs c as) = Some c"

fun pl_advance :: "'i playlist \<Rightarrow> 'i playlist" where
  "pl_advance (Idle xs) = Idle xs"
| "pl_advance (Playing bs c []) = Idle (bs @ [c])"
| "pl_advance (Playing bs c (a # as)) = Playing (bs @ [c]) a as"

fun pl_rewind :: "'i playlist \<Rightarrow> 'i playlist" where
  "pl_rewind (Idle xs) = Idle xs"
| "pl_rewind (Playing bs c as) =
     (if bs = [] then Idle (c # as) else Playing (butlast bs) (last bs) (c # as))"

fun pl_append :: "'i \<Rightarrow> 'i playlist \<Rightarrow> 'i playlist" where
  "pl_append x (Idle xs) = Playing xs x []"
| "pl_append x (Playing bs c as) = Playing bs c (as @ [x])"

text \<open>Removing the current item passes the turn to the next one, or else to the previous one.\<close>

fun pl_remove :: "nat \<Rightarrow> 'i playlist \<Rightarrow> 'i playlist" where
  "pl_remove i (Idle xs) = Idle (take i xs @ drop (Suc i) xs)"
| "pl_remove i (Playing bs c as) =
     (if i < length bs then Playing (take i bs @ drop (Suc i) bs) c as
      else if i = length bs then
        (case as of a # as' \<Rightarrow> Playing bs a as'
         | [] \<Rightarrow> if bs = [] then Idle [] else Playing (butlast bs) (last bs) [])
      else (let j = i - Suc (length bs) in Playing bs c (take j as @ drop (Suc j) as)))"

fun pl_set :: "'i \<Rightarrow> 'i playlist \<Rightarrow> 'i playlist" where
  "pl_set x (Idle xs) = Idle xs"
| "pl_set x (Playing bs c as) = Playing bs x as"

text \<open>The playlist of the items \<open>xs\<close> in which the one at \<open>i\<close> plays.\<close>

definition pl_at :: "nat \<Rightarrow> 'i list \<Rightarrow> 'i playlist" where
  "pl_at i xs = Playing (take i xs) (xs ! i) (drop (Suc i) xs)"

definition pl_goto :: "int \<Rightarrow> 'i playlist \<Rightarrow> 'i playlist" where
  "pl_goto i pl =
     (let xs = pl_items pl
      in if i = -1 then Idle xs else if 0 \<le> i \<and> i < int (length xs) then pl_at (nat i) xs else pl)"

text \<open>New items are played from the position of the current one, or from the last item if there are fewer; an idle playlist starts.\<close>

fun pl_replace :: "'i list \<Rightarrow> 'i playlist \<Rightarrow> 'i playlist" where
  "pl_replace [] pl = Idle []"
| "pl_replace (x # xs) (Idle ys) = Playing [] x xs"
| "pl_replace (x # xs) (Playing bs c as) = pl_at (min (length bs) (length xs)) (x # xs)"

text \<open>
  The contract of a playlist implementation: each operation does to the representation what the
  abstract one does to the playlist it stands for.
\<close>

locale playlist_impl =
  fixes absq :: "'q \<Rightarrow> 'i playlist" and okq :: "'q \<Rightarrow> bool"
    and current :: "'q \<Rightarrow> 'i option" and listing :: "'q \<Rightarrow> 'i list"
    and advance :: "'q \<Rightarrow> 'q" and append :: "'i \<Rightarrow> 'q \<Rightarrow> 'q"
  assumes current_abs: "okq q \<Longrightarrow> current q = pl_current (absq q)"
    and listing_abs: "okq q \<Longrightarrow> listing q = pl_items (absq q)"
    and advance_abs: "okq q \<Longrightarrow> absq (advance q) = pl_advance (absq q)"
    and append_abs: "okq q \<Longrightarrow> absq (append x q) = pl_append x (absq q)"
    and advance_ok: "okq q \<Longrightarrow> okq (advance q)"
    and append_ok: "okq q \<Longrightarrow> okq (append x q)"
begin

text \<open>What is heard: the current item, and then what follows each advance.\<close>

fun play :: "nat \<Rightarrow> 'q \<Rightarrow> 'i list" where
  "play 0 q = []"
| "play (Suc n) q = (case current q of None \<Rightarrow> [] | Some x \<Rightarrow> x # play n (advance q))"

lemma play_Idle: "okq q \<Longrightarrow> absq q = Idle xs \<Longrightarrow> play n q = []"
  by (cases n) (simp_all add: current_abs)

lemma play_Playing: "okq q \<Longrightarrow> absq q = Playing bs c as \<Longrightarrow> length as < n \<Longrightarrow> play n q = c # as"
proof (induction as arbitrary: n q bs c)
  case Nil
  then obtain m where "n = Suc m" by (cases n) auto
  with Nil play_Idle [of "advance q"] show ?case
    by (simp add: current_abs advance_abs advance_ok)
next
  case (Cons a as)
  then obtain m where "n = Suc m" by (cases n) auto
  with Cons show ?case by (simp add: current_abs advance_abs advance_ok)
qed

lemma append_all_Playing:
  "okq q \<Longrightarrow> absq q = Playing bs c as \<Longrightarrow>
    okq (fold append xs q) \<and> absq (fold append xs q) = Playing bs c (as @ xs)"
  by (induction xs arbitrary: q as) (simp_all add: append_abs append_ok)

lemma play_appended:
  assumes "okq q" "absq q = Idle ys" "length xs \<le> n"
  shows "play n (fold append xs q) = xs"
proof (cases xs)
  case Nil
  with assms play_Idle show ?thesis by simp
next
  case (Cons x xs')
  have q1: "okq (append x q)" "absq (append x q) = Playing ys x []"
    using assms by (simp_all add: append_ok append_abs)
  have "okq (fold append xs' (append x q)) \<and> absq (fold append xs' (append x q)) = Playing ys x xs'"
    using append_all_Playing [OF q1] by simp
  with Cons assms(3) play_Playing show ?thesis by simp
qed

lemma append_keeps_current: "okq q \<Longrightarrow> current q = Some c \<Longrightarrow> current (append x q) = Some c"
  by (cases "absq q") (simp_all add: current_abs append_abs append_ok)

end

section \<open>The queue implements the playlist\<close>

definition abs_queue :: "queue \<Rightarrow> queue_item playlist" where
  "abs_queue q =
     (if cursor q < 0 then Idle (items q)
      else Playing (take (nat (cursor q)) (items q)) (items q ! nat (cursor q))
             (drop (Suc (nat (cursor q))) (items q)))"

definition head_opt :: "queue \<Rightarrow> queue_item option" where
  "head_opt q = (case Head q of (x, b) \<Rightarrow> if b then Some x else None)"

text \<open>A valid queue is idle, or its list splits at the cursor.\<close>

lemma queue_okE:
  assumes "queue_ok q"
  obtains (idle) xs where "q = \<lparr>items = xs, cursor = -1\<rparr>"
    | (playing) bs c as where "q = \<lparr>items = bs @ c # as, cursor = int (length bs)\<rparr>"
proof (cases q)
  case (fields xs i)
  show thesis
  proof (cases "i = -1")
    case True
    with fields idle show thesis by simp
  next
    case False
    with assms fields have i: "0 \<le> i" "i < int (length xs)" by (simp_all add: queue_ok_def)
    then have "nat i < length xs" by simp
    from id_take_nth_drop [OF this] obtain bs c as where "xs = bs @ c # as" "length bs = nat i"
      by (metis \<open>nat i < length xs\<close> length_take min.absorb2 less_imp_le)
    with i fields show thesis using playing [of bs c as] by simp
  qed
qed

lemma abs_idle [simp]: "abs_queue \<lparr>items = xs, cursor = -1\<rparr> = Idle xs"
  by (simp add: abs_queue_def)

lemma abs_playing [simp]:
  "abs_queue \<lparr>items = bs @ c # as, cursor = int (length bs)\<rparr> = Playing bs c as"
  by (simp add: abs_queue_def)

text \<open>Each operation on the two shapes.\<close>

lemma nth_middle [simp]: "(bs @ c # as) ! length bs = c"
  by simp

lemma Head_shapes [simp]:
  "Head \<lparr>items = xs, cursor = -1\<rparr> = (zero_item, False)"
  "Head \<lparr>items = bs @ c # as, cursor = int (length bs)\<rparr> = (c, True)"
  by (simp_all add: Head_def)

lemma nat_Suc_int [simp]: "nat (1 + int n) = Suc n" "nat (int n + 1) = Suc n"
  by simp_all

lemma abs_Append: "queue_ok q \<Longrightarrow> abs_queue (snd (Append x q)) = pl_append x (abs_queue q)"
  by (erule queue_okE) (simp_all add: Append_def abs_queue_def)

lemma abs_Advance: "queue_ok q \<Longrightarrow> abs_queue (snd (AdvanceCursor q)) = pl_advance (abs_queue q)"
proof (erule queue_okE)
  fix bs c as
  assume q: "q = \<lparr>items = bs @ c # as, cursor = int (length bs)\<rparr>"
  show ?thesis
    by (cases as) (simp_all add: q AdvanceCursor_def abs_queue_def nat_add_distrib nth_append)
qed (simp add: AdvanceCursor_def)

lemma abs_Rewind: "queue_ok q \<Longrightarrow> abs_queue (snd (RewindCursor q)) = pl_rewind (abs_queue q)"
proof (erule queue_okE)
  fix bs c as
  assume q: "q = \<lparr>items = bs @ c # as, cursor = int (length bs)\<rparr>"
  show ?thesis
    by (cases bs rule: rev_cases)
      (simp_all add: q RewindCursor_def abs_queue_def nth_append)
qed (simp add: RewindCursor_def)

lemma abs_Set: "queue_ok q \<Longrightarrow> abs_queue (snd (SetItemAtCursor x q)) = pl_set x (abs_queue q)"
  by (erule queue_okE) (simp_all add: SetItemAtCursor_def abs_queue_def)

lemma abs_Clear: "abs_queue (Clear q) = Idle []"
  by (simp add: Clear_def abs_queue_def)

lemma abs_Remove:
  assumes "queue_ok q"
  shows "abs_queue (snd (Remove i q)) =
    (if 0 \<le> i \<and> i < Len q then pl_remove (nat i) (abs_queue q) else abs_queue q)"
  using assms
proof (cases rule: queue_okE)
  case (idle xs)
  show ?thesis
  proof (cases "0 \<le> i \<and> i < int (length xs)")
    case True
    then have "cursor (snd (Remove i q)) = -1" "items (snd (Remove i q)) = take (nat i) xs @ drop (Suc (nat i)) xs"
      by (simp_all add: idle Remove_def Let_def)
    with True show ?thesis by (simp add: abs_queue_def idle)
  next
    case False
    then have "i < 0 \<or> int (length xs) \<le> i" by linarith
    then have "snd (Remove i q) = q" by (simp add: Remove_def idle)
    with False show ?thesis by (simp add: idle) blast
  qed
next
  case (playing bs c as)
  show ?thesis
  proof (cases "0 \<le> i \<and> i < Len q")
    case False
    then show ?thesis by (auto simp: Remove_def)
  next
    case True
    from True obtain k where ik: "i = int k" by (metis zero_le_imp_eq_int)
    from True have "i < Len q" by blast
    then have "k < length bs + Suc (length as)" by (simp add: playing ik)
    note k = ik this
    consider "k < length bs" | "k = length bs" | j where "k = Suc (length bs) + j"
    proof (cases "k \<le> length bs")
      case False
      then have "k = Suc (length bs) + (k - Suc (length bs))" by simp
      then show thesis using that(3) by blast
    qed (use that in linarith)
    then show ?thesis
    proof cases
      case 1
      then have "length (take k bs @ drop (Suc k) bs) = length bs - 1" by simp
      moreover from 1 have "bs \<noteq> []" by auto
      ultimately show ?thesis using 1
        by (simp add: playing k Remove_def Let_def abs_queue_def nth_append nat_diff_distrib)
    next
      case 2
      then show ?thesis
        by (cases as; cases bs rule: rev_cases)
          (simp_all add: playing k Remove_def Let_def abs_queue_def nth_append)
    next
      case 3
      have "nat (1 + (int (length bs) + int j)) = Suc (length bs + j)" by simp
      with 3 show ?thesis
        by (simp add: playing k Remove_def Let_def abs_queue_def nth_append)
    qed
  qed
qed

lemma pl_items_abs: "queue_ok q \<Longrightarrow> pl_items (abs_queue q) = items q"
  by (erule queue_okE) simp_all

lemma abs_SetCursor: "queue_ok q \<Longrightarrow> abs_queue (snd (SetCursor i q)) = pl_goto i (abs_queue q)"
  using pl_items_abs [of q] by (auto simp: SetCursor_def pl_goto_def Let_def pl_at_def Len_def) (simp_all add: abs_queue_def)

lemma abs_Replace: "queue_ok q \<Longrightarrow> abs_queue (ReplaceItems xs q) = pl_replace xs (abs_queue q)"
proof (erule queue_okE)
  fix ys
  assume q: "q = \<lparr>items = ys, cursor = -1\<rparr>"
  show ?thesis by (cases xs) (simp_all add: q ReplaceItems_def updateCursorAfterMutation_def abs_queue_def)
next
  fix bs c as
  assume q: "q = \<lparr>items = bs @ c # as, cursor = int (length bs)\<rparr>"
  show ?thesis
  proof (cases xs)
    case (Cons x ys)
    have "ReplaceItems xs q = \<lparr>items = xs, cursor = int (min (length bs) (length ys))\<rparr>"
      by (simp add: q Cons ReplaceItems_def updateCursorAfterMutation_def)
    then show ?thesis by (simp add: q Cons abs_queue_def pl_at_def)
  qed (simp add: q ReplaceItems_def updateCursorAfterMutation_def abs_queue_def)
qed

text \<open>What the cursor operations answer is the item they move to.\<close>

definition answered :: "queue_item \<times> bool \<Rightarrow> queue_item option" where
  "answered r = (if snd r then Some (fst r) else None)"

lemma answered_Advance: "queue_ok q \<Longrightarrow> answered (fst (AdvanceCursor q)) = pl_current (pl_advance (abs_queue q))"
proof (erule queue_okE)
  fix bs c as
  assume q: "q = \<lparr>items = bs @ c # as, cursor = int (length bs)\<rparr>"
  show ?thesis by (cases as) (simp_all add: q answered_def AdvanceCursor_def nth_append)
qed (simp add: answered_def AdvanceCursor_def)

lemma answered_Rewind: "queue_ok q \<Longrightarrow> answered (fst (RewindCursor q)) = pl_current (pl_rewind (abs_queue q))"
proof (erule queue_okE)
  fix bs c as
  assume q: "q = \<lparr>items = bs @ c # as, cursor = int (length bs)\<rparr>"
  show ?thesis by (cases bs rule: rev_cases) (simp_all add: q answered_def RewindCursor_def nth_append abs_queue_def)
qed (simp add: answered_def RewindCursor_def)

interpretation queue_playlist: playlist_impl abs_queue queue_ok head_opt Items
  "\<lambda>q. snd (AdvanceCursor q)" "\<lambda>x q. snd (Append x q)"
proof unfold_locales
  show "head_opt q = pl_current (abs_queue q)" if "queue_ok q" for q
    using that by (rule queue_okE) (simp_all add: head_opt_def)
  show "Items q = pl_items (abs_queue q)" if "queue_ok q" for q
    using that by (rule queue_okE) (simp_all add: Items_def)
qed (simp_all add: abs_Append abs_Advance queue_ok_ops)

section \<open>Properties of the queue\<close>

text \<open>
  After any sequence of queue operations the cursor is -1 or the index of an item; \<open>Head\<close> answers
  with an item exactly when the cursor is not -1 (so no operation of the queue indexes out of range), while the
  lock-free \<open>HeadNoLock\<close> panics on a non-empty queue at which nothing plays.
\<close>

theorem queue_ops_valid:
  "let q = fold queue_exec ops NewQueue in
    -1 \<le> cursor q \<and> cursor q < Len q \<and> (snd (Head q) \<longleftrightarrow> cursor q \<noteq> -1) \<and>
    (HeadNoLock q = None \<longleftrightarrow> cursor q = -1 \<and> items q \<noteq> [])"
  using queue_ok_fold [OF queue_ok_New, of ops]
  by (auto simp: Let_def queue_ok_def Head_def HeadNoLock_def Len_def)

text \<open>
  C11. The queue refines the abstract playlist: a new queue is the idle empty playlist, and on a valid queue every operation does to
  items and cursor what the playlist operation does to the current item and the items before and after it, and answers accordingly.
  So removing any item but the current one keeps the current one, and removing the current one passes the turn to the next, or
  to the previous one if it was the last. Replacing the items keeps the position and not the item.
\<close>

theorem queue_refines_playlist:
  assumes "queue_ok q"
  shows "abs_queue NewQueue = Idle [] \<and>
    abs_queue (ReplaceItems xs q) = pl_replace xs (abs_queue q) \<and>
    abs_queue (snd (Append x q)) = pl_append x (abs_queue q) \<and>
    abs_queue (snd (Remove i q)) =
      (if 0 \<le> i \<and> i < Len q then pl_remove (nat i) (abs_queue q) else abs_queue q) \<and>
    (fst (Remove i q) \<longleftrightarrow> 0 \<le> i \<and> i < Len q) \<and>
    abs_queue (snd (AdvanceCursor q)) = pl_advance (abs_queue q) \<and>
    answered (fst (AdvanceCursor q)) = pl_current (pl_advance (abs_queue q)) \<and>
    abs_queue (snd (RewindCursor q)) = pl_rewind (abs_queue q) \<and>
    answered (fst (RewindCursor q)) = pl_current (pl_rewind (abs_queue q)) \<and>
    abs_queue (snd (SetItemAtCursor x q)) = pl_set x (abs_queue q) \<and>
    (fst (SetItemAtCursor x q) \<longleftrightarrow> pl_current (abs_queue q) \<noteq> None) \<and>
    abs_queue (snd (SetCursor i q)) = pl_goto i (abs_queue q) \<and>
    (fst (SetCursor i q) \<longleftrightarrow> -1 \<le> i \<and> i < int (length (pl_items (abs_queue q)))) \<and>
    abs_queue (Clear q) = Idle [] \<and>
    Items q = pl_items (abs_queue q) \<and> answered (Head q) = pl_current (abs_queue q)"
proof -
  have "head_opt q = answered (Head q)" by (simp add: head_opt_def answered_def case_prod_beta)
  moreover have "fst (SetItemAtCursor x q) \<longleftrightarrow> pl_current (abs_queue q) \<noteq> None"
    using assms by (auto simp: SetItemAtCursor_def abs_queue_def queue_ok_def)
  moreover have "fst (SetCursor i q) \<longleftrightarrow> -1 \<le> i \<and> i < int (length (pl_items (abs_queue q)))"
    using pl_items_abs [OF assms] by (auto simp: SetCursor_def Len_def)
  moreover have "fst (Remove i q) \<longleftrightarrow> 0 \<le> i \<and> i < Len q" "abs_queue NewQueue = Idle []"
    by (auto simp: Remove_def NewQueue_def Let_def)
  ultimately show ?thesis
    using assms abs_Remove [OF assms, of i] queue_playlist.listing_abs [OF assms] queue_playlist.current_abs [OF assms]
    by (simp add: abs_Append abs_Advance abs_Rewind abs_Set abs_Clear abs_SetCursor abs_Replace answered_Advance answered_Rewind)
qed

definition item_named :: "string \<Rightarrow> queue_item" where
  "item_named f = zero_item\<lparr>FilePath := f\<rparr>"

theorem queue_refines_playlist_witness:
  "abs_queue (snd (Remove 0 \<lparr>items = [item_named ''a'', item_named ''b''], cursor = 1\<rparr>))
     = Playing [] (item_named ''b'') []"
proof -
  have "queue_ok \<lparr>items = [item_named ''a'', item_named ''b''], cursor = 1\<rparr>"
    by (simp add: queue_ok_def)
  from queue_refines_playlist [OF this, of "[]" zero_item 0] show ?thesis
    by (simp add: abs_queue_def)
qed

text \<open>The items a client hears when it plays until the queue stops, at most \<open>n\<close> of them.\<close>

fun played :: "nat \<Rightarrow> queue \<Rightarrow> queue_item list" where
  "played 0 q = []"
| "played (Suc n) q =
     (case Head q of (x, b) \<Rightarrow> if b then x # played n (snd (AdvanceCursor q)) else [])"

lemma played_play: "played n q = queue_playlist.play n q"
  by (induction n arbitrary: q) (auto simp: head_opt_def split: prod.split option.split)

text \<open>
  Items are played once each in the order they were queued, and then the queue stops; the same holds
  for items queued after it has run out. (The \<open>n\<close> advances allowed suffice if there are as many as items.)
\<close>

theorem played_in_order:
  assumes "queue_ok q" "cursor q = -1" "length xs \<le> n"
  shows "played n (fold (\<lambda>it q. snd (Append it q)) xs q) = xs"
proof -
  have "abs_queue q = Idle (items q)" using assms(2) by (simp add: abs_queue_def)
  from queue_playlist.play_appended [OF assms(1) this assms(3)] show ?thesis
    by (simp add: played_play)
qed

theorem played_in_order_witness:
  "played 5 (fold (\<lambda>it q. snd (Append it q)) [item_named ''a'', item_named ''b''] NewQueue)
     = [item_named ''a'', item_named ''b'']"
  by (rule played_in_order) (simp_all add: NewQueue_def queue_ok_def)

text \<open>
  Replacing the items keeps the index of the cursor and not the item it stands at: when a peer removes
  an item before the current one it goes on playing the same item, but a peer that had the same queue and
  replaces its items by the result moves to the following one. A queue that had run out starts again
  at its first item.
\<close>

theorem ReplaceItems_moves_current:
  assumes "queue_ok q"
  shows "(0 \<le> i \<and> i < cursor q \<longrightarrow>
      Head (snd (Remove i q)) = Head q \<and>
      Head (ReplaceItems (Items (snd (Remove i q))) q) =
        (if cursor q + 1 < Len q then (items q ! nat (cursor q + 1), True) else Head q)) \<and>
    (cursor q = -1 \<and> items q \<noteq> [] \<longrightarrow> Head (ReplaceItems (Items q) q) = (hd (items q), True))"
  using assms
proof (cases rule: queue_okE)
  case (idle xs)
  then show ?thesis
    by (auto simp: ReplaceItems_def updateCursorAfterMutation_def Items_def Head_def hd_conv_nth)
next
  case (playing bs c as)
  have "Head (snd (Remove i q)) = Head q \<and>
      Head (ReplaceItems (Items (snd (Remove i q))) q) =
        (if cursor q + 1 < Len q then (items q ! nat (cursor q + 1), True) else Head q)"
    if i: "0 \<le> i" "i < cursor q"
  proof -
    from i(1) obtain k where k: "i = int k" by (metis zero_le_imp_eq_int)
    with i(2) have kb: "k < length bs" by (simp add: playing)
    define bs' where "bs' = take k bs @ drop (Suc k) bs"
    have l: "int (length bs') = int (length bs) - 1" "bs \<noteq> []" using kb by (auto simp: bs'_def)
    have r: "snd (Remove i q) = \<lparr>items = bs' @ c # as, cursor = int (length bs')\<rparr>"
      using kb l by (simp add: playing k Remove_def Let_def bs'_def)
    have "Head (ReplaceItems (bs' @ c # as) q) = (case as of [] \<Rightarrow> (c, True) | a # as' \<Rightarrow> (a, True))"
      using l by (cases as) (simp_all add: playing ReplaceItems_def updateCursorAfterMutation_def Head_def
          nth_append nat_diff_distrib)
    moreover have "Head (snd (Remove i q)) = (c, True)" "Items (snd (Remove i q)) = bs' @ c # as"
      "Head q = (c, True)"
      by (simp_all add: r Items_def, simp add: playing)
    ultimately show ?thesis
      by (cases as) (simp_all add: playing nth_append)
  qed
  then show ?thesis by (simp add: playing)
qed

theorem ReplaceItems_moves_current_witness:
  "let q = \<lparr>items = [item_named ''a'', item_named ''b'', item_named ''c''], cursor = 1\<rparr> in
    Head (snd (Remove 0 q)) = (item_named ''b'', True) \<and>
    Head (ReplaceItems (Items (snd (Remove 0 q))) q) = (item_named ''c'', True)"
proof -
  have "queue_ok \<lparr>items = [item_named ''a'', item_named ''b'', item_named ''c''], cursor = 1\<rparr>"
    by (simp add: queue_ok_def)
  from ReplaceItems_moves_current [OF this, of 0] show ?thesis
    by (simp add: Let_def Head_def)
qed

end
