(* ===== verification/RingBuffer.thy ===== *)
theory RingBuffer
  imports Prelude "HOL-Library.Multiset"
begin

text \<open>
  The segment window: \<^verbatim>\<open>peer_service/internal/media/ring_buffer.go\<close>. The last \<open>capacity\<close>
  segments by 32-bit media sequence number, in slots \<open>seq mod capacity\<close>. \<open>events\<close> is the
  content of the buffered channel of segment events (ten places, oldest first). The arrival time
  is an argument of the writes. \<open>None\<close> as a result of the constructor is its panic.
\<close>

section \<open>State and operations\<close>

record segment =
  Seq :: u32
  Data :: bytes
  PTS :: float64
  Time :: i64
  ActualDuration :: float64

definition zero_segment :: segment where
  "zero_segment = \<lparr>Seq = 0, Data = [], PTS = 0, Time = 0, ActualDuration = 0\<rparr>"

record ring_buffer =
  capacity :: int
  baseSeq :: u32
  nextSeq :: u32
  buf :: "segment list"
  head :: int
  events :: "u32 list"
  publishEvents :: bool

definition SegmentDuration :: float64 where
  "SegmentDuration = 2"

definition event_chan_cap :: nat where
  "event_chan_cap = 10"

definition cap32 :: "ring_buffer \<Rightarrow> u32" where
  "cap32 rb = word_of_int (capacity rb)"

definition maybeAdvanceBaseLocked :: "ring_buffer \<Rightarrow> ring_buffer" where
  "maybeAdvanceBaseLocked rb =
     (if capacity rb \<le> 0 then rb
      else if nextSeq rb \<le> cap32 rb then rb
      else (let candidate = nextSeq rb - cap32 rb
            in if candidate > baseSeq rb then rb\<lparr>baseSeq := candidate\<rparr> else rb))"

definition NewRingBuffer :: "int \<Rightarrow> ring_buffer option" where
  "NewRingBuffer windowSeconds =
     (if windowSeconds mod 2 \<noteq> 0 \<or> windowSeconds \<le> 0 then None
      else Some \<lparr>capacity = windowSeconds div 2, baseSeq = 0, nextSeq = 0,
                 buf = replicate (nat (windowSeconds div 2)) zero_segment, head = 0,
                 events = [], publishEvents = True\<rparr>)"

definition SetPublishEvents :: "bool \<Rightarrow> ring_buffer \<Rightarrow> ring_buffer" where
  "SetPublishEvents publish rb = rb\<lparr>publishEvents := publish\<rparr>"

definition rb_Len :: "ring_buffer \<Rightarrow> int" where
  "rb_Len rb =
     (if nextSeq rb \<le> baseSeq rb then 0
      else (let count = uint (nextSeq rb - baseSeq rb)
            in if count > capacity rb then capacity rb else count))"

definition slot :: "ring_buffer \<Rightarrow> u32 \<Rightarrow> nat" where
  "slot rb seq = unat (seq mod cap32 rb)"

definition idxFor :: "ring_buffer \<Rightarrow> u32 \<Rightarrow> int" where
  "idxFor rb seq =
     (if seq < baseSeq rb \<or> seq \<ge> nextSeq rb then -1
      else (let idx = slot rb seq
            in if Seq (buf rb ! idx) \<noteq> seq \<or> length (Data (buf rb ! idx)) = 0 then -1
               else int idx))"

definition Write :: "bytes \<Rightarrow> float64 \<Rightarrow> float64 \<Rightarrow> i64 \<Rightarrow> ring_buffer \<Rightarrow> u32 \<times> ring_buffer" where
  "Write data pts actualDuration now rb =
     (let seq = nextSeq rb;
          rb1 = rb\<lparr>buf := (buf rb)[slot rb seq :=
                   \<lparr>Seq = seq, Data = data, PTS = pts, Time = now, ActualDuration = actualDuration\<rparr>]\<rparr>;
          rb2 = rb1\<lparr>nextSeq := nextSeq rb1 + 1\<rparr>;
          rb3 = rb2\<lparr>head := int (slot rb2 (nextSeq rb2))\<rparr>
      in (seq, maybeAdvanceBaseLocked rb3))"

text \<open>The loop of \<open>Snapshot\<close>: the sequence numbers from base to next, in order.\<close>

definition seq_range :: "u32 \<Rightarrow> u32 \<Rightarrow> u32 list" where
  "seq_range base next = map (\<lambda>i. base + of_nat i) [0..<unat next - unat base]"

fun snapshot_loop ::
  "ring_buffer \<Rightarrow> u32 list \<Rightarrow> bool \<Rightarrow> u32 \<Rightarrow> segment list \<Rightarrow> bool \<times> u32 \<times> segment list" where
  "snapshot_loop rb [] started actualBase segs = (started, actualBase, segs)"
| "snapshot_loop rb (seq # seqs) started actualBase segs =
     (let idx = idxFor rb seq in
      if idx < 0 then
        (if started then (started, actualBase, segs)
         else snapshot_loop rb seqs started actualBase segs)
      else snapshot_loop rb seqs True (if \<not> started then seq else actualBase)
             (segs @ [buf rb ! nat idx]))"

definition Snapshot :: "ring_buffer \<Rightarrow> u32 \<times> segment list" where
  "Snapshot rb =
     (if nextSeq rb = baseSeq rb then (baseSeq rb, [])
      else (let (started, actualBase, segs) =
                  snapshot_loop rb (seq_range (baseSeq rb) (nextSeq rb)) False (baseSeq rb) []
            in if \<not> started then (baseSeq rb, []) else (actualBase, segs)))"

definition Get :: "u32 \<Rightarrow> ring_buffer \<Rightarrow> bytes option" where
  "Get seq rb = (let idx = idxFor rb seq in if idx \<ge> 0 then Some (Data (buf rb ! nat idx)) else None)"

definition publish_event :: "u32 \<Rightarrow> ring_buffer \<Rightarrow> ring_buffer" where
  "publish_event seq rb =
     (if length (events rb) < event_chan_cap then rb\<lparr>events := events rb @ [seq]\<rparr> else rb)"

definition WriteAt :: "u32 \<Rightarrow> bytes \<Rightarrow> float64 \<Rightarrow> float64 \<Rightarrow> i64 \<Rightarrow> ring_buffer \<Rightarrow> ring_buffer" where
  "WriteAt seq data pts actualDuration now rb =
     (if capacity rb \<le> 0 then rb
      else (let rb1 = (if seq \<ge> nextSeq rb then rb\<lparr>nextSeq := seq + 1\<rparr> else rb);
                rb2 = maybeAdvanceBaseLocked rb1
            in if seq < baseSeq rb2 then rb2
               else (let rb3 = rb2\<lparr>buf := (buf rb2)[slot rb2 seq :=
                            \<lparr>Seq = seq, Data = data, PTS = pts, Time = now,
                             ActualDuration = actualDuration\<rparr>]\<rparr>;
                         rb4 = rb3\<lparr>head := int (slot rb3 (nextSeq rb3))\<rparr>
                     in if publishEvents rb4 then publish_event seq rb4 else rb4)))"

definition GetNextSeq :: "ring_buffer \<Rightarrow> u32" where
  "GetNextSeq rb = nextSeq rb"

definition Reset :: "u32 \<Rightarrow> ring_buffer \<Rightarrow> ring_buffer" where
  "Reset newBase rb =
     rb\<lparr>baseSeq := newBase, nextSeq := newBase, head := 0, buf := map (\<lambda>s. zero_segment) (buf rb)\<rparr>"

definition rb_GetSegmentActualDuration :: "u32 \<Rightarrow> ring_buffer \<Rightarrow> float64" where
  "rb_GetSegmentActualDuration seq rb =
     (let idx = idxFor rb seq in if idx \<ge> 0 then ActualDuration (buf rb ! nat idx) else 0)"

text \<open>Receiving from the event channel, as the publishing goroutine does.\<close>

definition receive_event :: "ring_buffer \<Rightarrow> (u32 \<times> ring_buffer) option" where
  "receive_event rb = (case events rb of [] \<Rightarrow> None | e # es \<Rightarrow> Some (e, rb\<lparr>events := es\<rparr>))"

section \<open>Invariant\<close>

definition rb_ok :: "ring_buffer \<Rightarrow> bool" where
  "rb_ok rb \<longleftrightarrow> 0 < capacity rb \<and> capacity rb < 2 ^ 32 \<and> length (buf rb) = nat (capacity rb)
     \<and> baseSeq rb \<le> nextSeq rb \<and> unat (nextSeq rb) - unat (baseSeq rb) \<le> nat (capacity rb)
     \<and> length (events rb) \<le> event_chan_cap
     \<and> (\<forall>i < length (buf rb). Data (buf rb ! i) \<noteq> [] \<longrightarrow>
          slot rb (Seq (buf rb ! i)) = i \<and> Seq (buf rb ! i) < nextSeq rb)"

lemma unat_cap32: "0 < capacity rb \<Longrightarrow> capacity rb < 2 ^ 32 \<Longrightarrow> unat (cap32 rb) = nat (capacity rb)"
proof -
  assume c: "0 < capacity rb" "capacity rb < 2 ^ 32"
  then have "take_bit 32 (capacity rb) = capacity rb"
    by (intro take_bit_int_eq_self) simp_all
  then have "uint (cap32 rb) = capacity rb"
    unfolding cap32_def by (simp only: uint_word_of_int_eq) simp
  then show ?thesis by (simp only: unat_eq_nat_uint)
qed

lemma slot_mod: "rb_ok rb \<Longrightarrow> slot rb s = unat s mod nat (capacity rb)"
  by (simp add: slot_def unat_mod unat_cap32 rb_ok_def)

lemma slot_less: "rb_ok rb \<Longrightarrow> slot rb s < length (buf rb)"
  unfolding slot_mod by (simp add: rb_ok_def)

abbreviation lo :: "ring_buffer \<Rightarrow> nat" where "lo rb \<equiv> unat (baseSeq rb)"
abbreviation hi :: "ring_buffer \<Rightarrow> nat" where "hi rb \<equiv> unat (nextSeq rb)"
abbreviation slots :: "ring_buffer \<Rightarrow> nat" where "slots rb \<equiv> nat (capacity rb)"

lemma cap32_cong [simp]: "cap32 (rb\<lparr>nextSeq := x\<rparr>) = cap32 rb" "cap32 (rb\<lparr>baseSeq := x\<rparr>) = cap32 rb"
  "cap32 (rb\<lparr>buf := b\<rparr>) = cap32 rb" "cap32 (rb\<lparr>head := h\<rparr>) = cap32 rb" "cap32 (rb\<lparr>events := es\<rparr>) = cap32 rb"
  by (simp_all add: cap32_def)

lemma maybeAdvance_fields [simp]:
  "capacity (maybeAdvanceBaseLocked rb) = capacity rb" "nextSeq (maybeAdvanceBaseLocked rb) = nextSeq rb"
  "buf (maybeAdvanceBaseLocked rb) = buf rb" "events (maybeAdvanceBaseLocked rb) = events rb"
  "publishEvents (maybeAdvanceBaseLocked rb) = publishEvents rb" "cap32 (maybeAdvanceBaseLocked rb) = cap32 rb"
  by (simp_all add: maybeAdvanceBaseLocked_def Let_def cap32_def)

lemma maybeAdvance_lo:
  assumes "0 < capacity rb" "capacity rb < 2 ^ 32"
  shows "lo (maybeAdvanceBaseLocked rb) = max (lo rb) (hi rb - slots rb)"
proof (cases "nextSeq rb \<le> cap32 rb")
  case True
  then have "hi rb \<le> slots rb" by (simp add: word_le_nat_alt unat_cap32 [OF assms])
  with True show ?thesis by (simp add: maybeAdvanceBaseLocked_def)
next
  case False
  then have "unat (nextSeq rb - cap32 rb) = hi rb - slots rb"
    by (simp add: unat_sub word_le_nat_alt unat_cap32 [OF assms])
  with False assms(1) show ?thesis
    by (auto simp: maybeAdvanceBaseLocked_def Let_def word_less_nat_alt max_def)
qed

lemma unat_Suc32: "unat (s :: u32) < 2 ^ 32 - 1 \<Longrightarrow> unat (s + 1) = Suc (unat s)"
  by (simp add: unat_word_ariths)

lemma publish_event_fields [simp]:
  "capacity (publish_event s rb) = capacity rb" "nextSeq (publish_event s rb) = nextSeq rb"
  "baseSeq (publish_event s rb) = baseSeq rb" "buf (publish_event s rb) = buf rb"
  by (simp_all add: publish_event_def)

lemma publish_event_len: "length (events rb) \<le> event_chan_cap \<Longrightarrow> length (events (publish_event s rb)) \<le> event_chan_cap"
  by (simp add: publish_event_def)

definition mk_segment :: "u32 \<Rightarrow> bytes \<Rightarrow> float64 \<Rightarrow> float64 \<Rightarrow> i64 \<Rightarrow> segment" where
  "mk_segment s d p a t = \<lparr>Seq = s, Data = d, PTS = p, Time = t, ActualDuration = a\<rparr>"

lemma WriteAt_effect:
  fixes d :: bytes and p a :: float64 and t :: i64
  assumes ok: "rb_ok rb" and s: "unat s < 2 ^ 32 - 1"
  defines "rb' \<equiv> WriteAt s d p a t rb"
  shows "hi rb' = max (hi rb) (Suc (unat s))"
    and "lo rb' = max (lo rb) (hi rb' - slots rb)"
    and "buf rb' = (if unat s < lo rb' then buf rb
                    else (buf rb)[unat s mod slots rb := mk_segment s d p a t])"
    and "capacity rb' = capacity rb" and "length (events rb') \<le> event_chan_cap"
proof -
  have c: "0 < capacity rb" "capacity rb < 2 ^ 32" and ev: "length (events rb) \<le> event_chan_cap"
    using ok by (simp_all add: rb_ok_def)
  let ?rb1 = "if s \<ge> nextSeq rb then rb\<lparr>nextSeq := s + 1\<rparr> else rb"
  let ?rb2 = "maybeAdvanceBaseLocked ?rb1"
  have hi1: "hi ?rb1 = max (hi rb) (Suc (unat s))"
    using unat_Suc32 [OF s] by (auto simp: word_le_nat_alt)
  have lo2: "lo ?rb2 = max (lo rb) (hi ?rb1 - slots rb)"
    using maybeAdvance_lo [of ?rb1] c by auto
  have sl: "slot ?rb2 s = unat s mod slots rb"
    using c by (simp add: slot_def unat_mod unat_cap32)
  have bufs: "buf ?rb2 = buf rb" by simp
  have fields: "hi rb' = hi ?rb1 \<and> lo rb' = lo ?rb2 \<and> capacity rb' = capacity rb \<and>
    length (events rb') \<le> event_chan_cap \<and>
    buf rb' = (if s < baseSeq ?rb2 then buf rb else (buf rb)[slot ?rb2 s := mk_segment s d p a t])"
    using c(1) ev unfolding rb'_def WriteAt_def Let_def mk_segment_def
    by (auto simp: publish_event_len)
  then show "hi rb' = max (hi rb) (Suc (unat s))" "lo rb' = max (lo rb) (hi rb' - slots rb)"
    "capacity rb' = capacity rb" "length (events rb') \<le> event_chan_cap"
    using hi1 lo2 by simp_all
  from fields sl show "buf rb' = (if unat s < lo rb' then buf rb
                    else (buf rb)[unat s mod slots rb := mk_segment s d p a t])"
    by (simp add: word_less_nat_alt)
qed

lemma rb_okI:
  assumes "0 < capacity rb" "capacity rb < 2 ^ 32" "length (buf rb) = slots rb" "lo rb \<le> hi rb"
    "hi rb - lo rb \<le> slots rb" "length (events rb) \<le> event_chan_cap"
    "\<And>i. i < slots rb \<Longrightarrow> Data (buf rb ! i) \<noteq> [] \<Longrightarrow>
      unat (Seq (buf rb ! i)) mod slots rb = i \<and> unat (Seq (buf rb ! i)) < hi rb"
  shows "rb_ok rb"
  using assms by (simp add: rb_ok_def word_le_nat_alt word_less_nat_alt slot_def unat_mod unat_cap32)

lemma rb_okD:
  assumes "rb_ok rb"
  shows "0 < capacity rb" "capacity rb < 2 ^ 32" "length (buf rb) = slots rb" "lo rb \<le> hi rb"
    "hi rb - lo rb \<le> slots rb" "length (events rb) \<le> event_chan_cap"
    "i < slots rb \<Longrightarrow> Data (buf rb ! i) \<noteq> [] \<Longrightarrow>
      unat (Seq (buf rb ! i)) mod slots rb = i \<and> unat (Seq (buf rb ! i)) < hi rb"
  using assms slot_mod [OF assms] by (auto simp: rb_ok_def word_le_nat_alt word_less_nat_alt)

lemma max_window: "x - max l (x - c) \<le> (c :: nat)"
  by (simp add: max_def) arith

lemma rb_ok_WriteAt:
  assumes ok: "rb_ok rb" and s: "unat s < 2 ^ 32 - 1"
  shows "rb_ok (WriteAt s d p a t rb)"
proof -
  note e = WriteAt_effect [OF ok s, of d p a t] and D = rb_okD [OF ok]
  show ?thesis
  proof (rule rb_okI)
    fix i
    assume "i < slots (WriteAt s d p a t rb)" "Data (buf (WriteAt s d p a t rb) ! i) \<noteq> []"
    then show "unat (Seq (buf (WriteAt s d p a t rb) ! i)) mod slots (WriteAt s d p a t rb) = i \<and>
        unat (Seq (buf (WriteAt s d p a t rb) ! i)) < hi (WriteAt s d p a t rb)"
      using D(7) [of i] D(3)
      by (cases "i = unat s mod slots rb")
        (auto simp: e nth_list_update mk_segment_def less_max_iff_disj split: if_splits)
  qed (use D in \<open>auto simp: e max_window\<close>)
qed

lemma Write_WriteAt:
  assumes ok: "rb_ok rb" and s: "hi rb < 2 ^ 32 - 1"
  shows "fst (Write d p a t rb) = nextSeq rb"
    and "snd (Write d p a t rb) = (WriteAt (nextSeq rb) d p a t rb)\<lparr>events := events rb\<rparr>"
proof -
  have c: "0 < capacity rb" "capacity rb < 2 ^ 32" using rb_okD [OF ok] by simp_all
  let ?rb1 = "rb\<lparr>nextSeq := nextSeq rb + 1\<rparr>"
  have "hi ?rb1 = Suc (hi rb)" using unat_Suc32 [OF s] by simp
  then have "lo (maybeAdvanceBaseLocked ?rb1) \<le> hi rb"
    using maybeAdvance_lo [of ?rb1] c rb_okD(4) [OF ok] by auto
  then have ge: "\<not> nextSeq rb < baseSeq (maybeAdvanceBaseLocked ?rb1)" by (simp add: word_less_nat_alt)
  have comm: "maybeAdvanceBaseLocked (rb\<lparr>buf := b, nextSeq := n, head := h\<rparr>) =
    (maybeAdvanceBaseLocked (rb\<lparr>nextSeq := n\<rparr>))\<lparr>buf := b, head := h\<rparr>" for b n h
    by (simp add: maybeAdvanceBaseLocked_def Let_def cap32_def)
  have sl: "slot (rb'\<lparr>buf := b\<rparr>) x = slot rb' x" "slot (maybeAdvanceBaseLocked rb') x = slot rb' x"
    "slot (rb'\<lparr>nextSeq := n\<rparr>) x = slot rb' x" for rb' b x n
    by (simp_all add: slot_def)
  show "fst (Write d p a t rb) = nextSeq rb" by (simp add: Write_def Let_def)
  show "snd (Write d p a t rb) = (WriteAt (nextSeq rb) d p a t rb)\<lparr>events := events rb\<rparr>"
    using c(1) ge
    by (auto simp: Write_def WriteAt_def Let_def comm sl publish_event_def)
qed

lemma rb_ok_events: "rb_ok rb \<Longrightarrow> length es \<le> event_chan_cap \<Longrightarrow> rb_ok (rb\<lparr>events := es\<rparr>)"
  by (simp add: rb_ok_def slot_def)

lemma rb_ok_Write:
  assumes "rb_ok rb" "hi rb < 2 ^ 32 - 1"
  shows "rb_ok (snd (Write d p a t rb))"
  using rb_ok_WriteAt [OF assms] rb_okD(6) [OF assms(1)]
  by (simp add: Write_WriteAt [OF assms] rb_ok_events)

lemma rb_ok_Reset: "rb_ok rb \<Longrightarrow> rb_ok (Reset b rb)"
  by (simp add: rb_ok_def Reset_def zero_segment_def)

lemma rb_ok_New: "NewRingBuffer w = Some rb \<Longrightarrow> w < 2 ^ 32 \<Longrightarrow> rb_ok rb"
  by (auto simp: NewRingBuffer_def rb_ok_def zero_segment_def split: if_splits)

lemma rb_ok_SetPublish: "rb_ok rb \<Longrightarrow> rb_ok (SetPublishEvents b rb)"
  by (simp add: rb_ok_def SetPublishEvents_def slot_def cap32_def)

lemma rb_ok_receive: "rb_ok rb \<Longrightarrow> receive_event rb = Some (e, rb') \<Longrightarrow> rb_ok rb'"
  using rb_okD(6) [of rb] rb_ok_events [of rb]
  by (auto simp: receive_event_def split: list.splits)

section \<open>The window as a map\<close>

definition seg_lookup :: "ring_buffer \<Rightarrow> nat \<Rightarrow> segment option" where
  "seg_lookup rb n =
     (if n < 2 ^ 32 \<and> idxFor rb (of_nat n) \<ge> 0 then Some (buf rb ! nat (idxFor rb (of_nat n))) else None)"

lemma unat_of_nat32: "n < 2 ^ 32 \<Longrightarrow> unat (of_nat n :: u32) = n"
  by (simp add: unat_of_nat)

lemma idxFor_slot:
  assumes ok: "rb_ok rb"
  shows "idxFor rb s =
    (let i = unat s mod slots rb in
     if lo rb \<le> unat s \<and> unat s < hi rb \<and> Seq (buf rb ! i) = s \<and> Data (buf rb ! i) \<noteq> [] then int i else -1)"
  by (auto simp: idxFor_def Let_def slot_mod [OF ok] word_less_nat_alt word_le_nat_alt)

lemma seg_lookup_slot:
  assumes ok: "rb_ok rb" and n: "n < 2 ^ 32"
  shows "seg_lookup rb n =
    (let g = buf rb ! (n mod slots rb) in
     if lo rb \<le> n \<and> n < hi rb \<and> unat (Seq g) = n \<and> Data g \<noteq> [] then Some g else None)"
proof -
  have "Seq g = of_nat n \<longleftrightarrow> unat (Seq g) = n" for g :: segment
    using unat_of_nat32 [OF n] by (metis word_unat_eq_iff)
  with n show ?thesis
    by (simp add: seg_lookup_def idxFor_slot [OF ok] unat_of_nat32 [OF n] Let_def)
qed

lemma seg_lookup_window: "rb_ok rb \<Longrightarrow> seg_lookup rb n = Some g \<Longrightarrow> lo rb \<le> n \<and> n < hi rb \<and> unat (Seq g) = n \<and> Data g \<noteq> []"
proof -
  assume ok: "rb_ok rb" and l: "seg_lookup rb n = Some g"
  then have "n < 2 ^ 32" unfolding seg_lookup_def by (metis option.distinct(1))
  with l show ?thesis by (auto simp: seg_lookup_slot [OF ok] Let_def split: if_splits)
qed

lemma unat32: "unat (n :: u32) < 2 ^ 32"
  by (rule order_less_le_trans [OF unsigned_less]) simp

lemmas hi32 = unat32 [of "nextSeq rb" for rb]

text \<open>Writing a segment with data is an update of the window.\<close>

lemma seg_lookup_WriteAt:
  fixes p a :: float64 and t :: i64
  assumes ok: "rb_ok rb" and s: "unat s < 2 ^ 32 - 1" and d: "d \<noteq> []"
  defines "rb' \<equiv> WriteAt s d p a t rb"
  shows "seg_lookup rb' n =
    (if n < lo rb' then None else if n = unat s then Some (mk_segment s d p a t) else seg_lookup rb n)"
proof (cases "n < 2 ^ 32")
  case False
  then show ?thesis using s by (simp add: seg_lookup_def)
next
  case n: True
  note e = WriteAt_effect [OF ok s, of d p a t, folded rb'_def] and D = rb_okD [OF ok]
  have ok': "rb_ok rb'" unfolding rb'_def by (rule rb_ok_WriteAt [OF ok s])
  have c: "0 < slots rb" using D(1) by simp
  have grow: "hi rb \<le> hi rb'" "lo rb \<le> lo rb'" by (auto simp: e(1,2))
  let ?g = "buf rb ! (n mod slots rb)"
  have old: "Data ?g \<noteq> [] \<Longrightarrow> unat (Seq ?g) < hi rb" using D(7) [of "n mod slots rb"] c by simp
  have L: "seg_lookup rb n =
      (if lo rb \<le> n \<and> n < hi rb \<and> unat (Seq ?g) = n \<and> Data ?g \<noteq> [] then Some ?g else None)"
    unfolding seg_lookup_slot [OF ok n] Let_def ..
  have L': "seg_lookup rb' n = (let g = buf rb' ! (n mod slots rb) in
      if lo rb' \<le> n \<and> n < hi rb' \<and> unat (Seq g) = n \<and> Data g \<noteq> [] then Some g else None)"
    by (simp add: seg_lookup_slot [OF ok' n] e(4) Let_def)
  show ?thesis
  proof (cases "n mod slots rb = unat s mod slots rb \<and> lo rb' \<le> unat s")
    case False
    then have "buf rb' ! (n mod slots rb) = ?g" "lo rb' \<le> n \<Longrightarrow> n \<noteq> unat s"
      by (auto simp: e(3))
    with old grow show ?thesis by (auto simp: L L' Let_def)
  next
    case True
    have nw: "n = unat s" if nw: "lo rb' \<le> n" "n < hi rb"
    proof (rule ccontr)
      assume "n \<noteq> unat s"
      have w: "unat s < hi rb'" "lo rb' \<le> unat s" "n < hi rb'" "hi rb' - lo rb' \<le> slots rb"
        using e(1,4) True nw grow rb_okD(5) [OF ok'] by auto
      show False
      proof (cases "n < unat s")
        case lt: True
        then have "slots rb dvd unat s - n" using True by (metis mod_eq_dvd_iff_nat nat_less_le)
        with lt have "slots rb \<le> unat s - n" by (simp add: dvd_imp_le)
        with w nw show False by linarith
      next
        case False
        then have "slots rb dvd n - unat s" using True by (metis mod_eq_dvd_iff_nat linorder_not_less)
        with False \<open>n \<noteq> unat s\<close> have "slots rb \<le> n - unat s" by (simp add: dvd_imp_le)
        with w show False by linarith
      qed
    qed
    have b: "buf rb' ! (n mod slots rb) = mk_segment s d p a t"
      using True c by (simp add: e(3) D(3))
    have "seg_lookup rb' n = (if lo rb' \<le> n \<and> n < hi rb' \<and> unat s = n then Some (mk_segment s d p a t) else None)"
      using d unfolding L' b Let_def by (simp add: mk_segment_def)
    moreover have "unat s < hi rb'" by (simp add: e(1))
    moreover have "lo rb' \<le> unat s" using True by blast
    moreover have "seg_lookup rb n = None" if "lo rb' \<le> n" "n \<noteq> unat s"
      using nw that by (auto simp: L)
    ultimately show ?thesis by (cases "n = unat s") auto
  qed
qed

section \<open>The interface of a sliding window\<close>

text \<open>
  What the streaming side relies on: a store of numbered items that keeps those of the last
  \<open>width\<close> numbers below the highest one seen.
\<close>

lemma Max_insert_max: "finite A \<Longrightarrow> Max (insert (max a b) A) = Max (insert a (insert b (A :: nat set)))"
proof (cases "A = {}")
  case False
  assume "finite A"
  with False have "Max (insert (max a b) A) = max (max a b) (Max A)"
    "Max (insert a (insert b A)) = max a (max b (Max A))"
    by (simp_all only: Max_insert finite_insert insert_not_empty not_False_eq_True)
  then show ?thesis by (simp only: max.assoc)
qed simp

locale window_store =
  fixes look :: "'s \<Rightarrow> nat \<Rightarrow> 'd option" and low high width :: "'s \<Rightarrow> nat"
    and put :: "'d \<Rightarrow> 's \<Rightarrow> 's" and key :: "'d \<Rightarrow> nat" and good :: "'s \<Rightarrow> bool" and fits :: "'d \<Rightarrow> bool"
  assumes good_put: "good s \<Longrightarrow> fits d \<Longrightarrow> good (put d s)"
    and good_window: "good s \<Longrightarrow> high s - width s \<le> low s"
    and width_put: "good s \<Longrightarrow> fits d \<Longrightarrow> width (put d s) = width s"
    and high_put: "good s \<Longrightarrow> fits d \<Longrightarrow> high (put d s) = max (high s) (Suc (key d))"
    and low_put: "good s \<Longrightarrow> fits d \<Longrightarrow> low (put d s) = max (low s) (high (put d s) - width s)"
    and look_put: "good s \<Longrightarrow> fits d \<Longrightarrow>
      look (put d s) n = (if n < low (put d s) then None else if n = key d then Some d else look s n)"
begin

lemma fold_bounds:
  assumes "good s" "\<forall>d \<in> set ds. fits d"
  shows "good (fold put ds s) \<and> width (fold put ds s) = width s \<and>
    high (fold put ds s) = Max (insert (high s) ((\<lambda>d. Suc (key d)) ` set ds)) \<and>
    low (fold put ds s) = max (low s) (high (fold put ds s) - width s)"
  using assms
proof (induction ds arbitrary: s)
  case Nil
  then show ?case using good_window [of s] by simp
next
  case (Cons d ds)
  have d: "good (put d s)" "width (put d s) = width s" "high (put d s) = max (high s) (Suc (key d))"
    using Cons.prems good_put width_put high_put by simp_all
  let ?s' = "fold put ds (put d s)"
  have IH: "good ?s'" "width ?s' = width s"
    "high ?s' = Max (insert (high (put d s)) ((\<lambda>d. Suc (key d)) ` set ds))"
    "low ?s' = max (low (put d s)) (high ?s' - width s)"
    using Cons.IH [OF d(1)] Cons.prems(2) by (simp_all add: d(2))
  have h: "high ?s' = Max (insert (high s) ((\<lambda>d. Suc (key d)) ` set (d # ds)))"
    using IH(3) d(3) Max_insert_max [of "(\<lambda>d. Suc (key d)) ` set ds"] by simp
  have "high (put d s) \<le> high ?s'" unfolding IH(3) by simp
  then have "low ?s' = max (low s) (high ?s' - width s)"
    using IH(4) low_put [of s d] Cons.prems by (simp add: max.assoc max_absorb2 diff_le_mono)
  with IH(1,2) h show ?case by simp
qed

lemma look_fold_other:
  assumes "good s" "\<forall>d \<in> set ds. fits d" "n \<notin> key ` set ds" "low (fold put ds s) \<le> n"
  shows "look (fold put ds s) n = look s n"
  using assms
proof (induction ds arbitrary: s)
  case (Cons d ds)
  have g: "good (put d s)" using Cons.prems good_put by simp
  have "low (put d s) \<le> n"
    using fold_bounds [OF g, of ds] Cons.prems(2,4) by simp
  with Cons.IH [OF g] Cons.prems look_put [of s d n] show ?case by auto
qed simp

lemma look_fold_written:
  assumes "good s" "\<forall>d \<in> set ds. fits d" "distinct (map key ds)" "d \<in> set ds"
    "low (fold put ds s) \<le> key d"
  shows "look (fold put ds s) (key d) = Some d"
  using assms
proof (induction ds arbitrary: s)
  case (Cons x ds)
  have g: "good (put x s)" using Cons.prems good_put by simp
  show ?case
  proof (cases "d = x")
    case True
    then have "key d \<notin> key ` set ds" using Cons.prems(3) by simp
    from look_fold_other [OF g _ this] have "look (fold put ds (put x s)) (key d) = look (put x s) (key d)"
      using Cons.prems(2,5) by simp
    moreover have "low (put x s) \<le> key d"
      using fold_bounds [OF g, of ds] Cons.prems(2,5) by simp
    ultimately show ?thesis using True look_put [of s x "key d"] Cons.prems(1,2) by simp
  next
    case False
    with Cons.IH [OF g] Cons.prems show ?thesis by simp
  qed
qed simp

lemma look_fold_old:
  assumes "good s" "\<forall>d \<in> set ds. fits d" "ds \<noteq> []" "n < low (fold put ds s)"
  shows "look (fold put ds s) n = None"
  using assms
proof (induction ds rule: rev_induct)
  case (snoc d ds)
  have "good (fold put ds s)" using fold_bounds [of s ds] snoc.prems by simp
  with look_put [of "fold put ds s" d n] snoc.prems show ?case by simp
qed simp

text \<open>The arrival order of the items does not matter.\<close>

lemma order_irrelevant:
  assumes g: "good s" and m: "mset ds = mset es" and f: "\<forall>d \<in> set ds. fits d" and k: "distinct (map key ds)"
  shows "low (fold put ds s) = low (fold put es s) \<and> high (fold put ds s) = high (fold put es s) \<and>
    look (fold put ds s) n = look (fold put es s) n"
proof -
  have st: "set ds = set es" using m by (metis set_mset_mset)
  have k': "distinct (map key es)"
    using k m by (metis mset_eq_imp_distinct_iff mset_map)
  have b: "low (fold put ds s) = low (fold put es s)" "high (fold put ds s) = high (fold put es s)"
    using fold_bounds [OF g, of ds] fold_bounds [OF g, of es] f st by simp_all
  have "look (fold put ds s) n = look (fold put es s) n"
  proof (cases "ds = []")
    case True
    with m show ?thesis by simp
  next
    case False
    with st have ne: "es \<noteq> []" by auto
    consider "n < low (fold put ds s)" | d where "low (fold put ds s) \<le> n" "d \<in> set ds" "n = key d"
      | "low (fold put ds s) \<le> n" "n \<notin> key ` set ds"
      by fastforce
    then show ?thesis
    proof cases
      case 1
      with False ne f st b look_fold_old [OF g] show ?thesis by simp
    next
      case 2
      with f st b look_fold_written [OF g _ k, of d] look_fold_written [OF g _ k', of d] show ?thesis by simp
    next
      case 3
      with f st b look_fold_other [OF g] show ?thesis by simp
    qed
  qed
  with b show ?thesis by simp
qed

end

text \<open>The ring buffer is such a window over the segments with data below number \<open>2 ^ 32 - 1\<close>.\<close>

definition write_segment :: "segment \<Rightarrow> ring_buffer \<Rightarrow> ring_buffer" where
  "write_segment g rb = WriteAt (Seq g) (Data g) (PTS g) (ActualDuration g) (Time g) rb"

definition seg_fits :: "segment \<Rightarrow> bool" where
  "seg_fits g \<longleftrightarrow> Data g \<noteq> [] \<and> unat (Seq g) < 2 ^ 32 - 1"

lemma mk_segment_self [simp]: "mk_segment (Seq g) (Data g) (PTS g) (ActualDuration g) (Time g) = g"
  by (simp add: mk_segment_def)

interpretation ring_window: window_store seg_lookup lo hi slots write_segment "\<lambda>g. unat (Seq g)" rb_ok seg_fits
proof unfold_locales
  fix rb g n
  show "hi rb - slots rb \<le> lo rb" if "rb_ok rb"
    using rb_okD(5) [OF that] by simp
  assume "rb_ok rb" "seg_fits g"
  then have ok: "rb_ok rb" and f: "unat (Seq g) < 2 ^ 32 - 1" "Data g \<noteq> []"
    by (simp_all add: seg_fits_def)
  note e = WriteAt_effect [OF ok f(1), of "Data g" "PTS g" "ActualDuration g" "Time g", folded write_segment_def]
  show "rb_ok (write_segment g rb)" unfolding write_segment_def by (rule rb_ok_WriteAt [OF ok f(1)])
  show "slots (write_segment g rb) = slots rb" using e(4) by simp
  show "hi (write_segment g rb) = max (hi rb) (Suc (unat (Seq g)))" by (rule e(1))
  show "lo (write_segment g rb) = max (lo rb) (hi (write_segment g rb) - slots rb)" by (rule e(2))
  show "seg_lookup (write_segment g rb) n = (if n < lo (write_segment g rb) then None
      else if n = unat (Seq g) then Some g else seg_lookup rb n)"
    unfolding write_segment_def by (subst seg_lookup_WriteAt [OF ok f]) simp
qed

section \<open>The snapshot\<close>

abbreviation absent :: "ring_buffer \<Rightarrow> nat \<Rightarrow> bool" where
  "absent rb n \<equiv> seg_lookup rb n = None"

lemma snapshot_loop_step:
  assumes "n < 2 ^ 32"
  shows "idxFor rb (of_nat n) < 0 \<longleftrightarrow> absent rb n"
    and "\<not> absent rb n \<Longrightarrow> buf rb ! nat (idxFor rb (of_nat n)) = the (seg_lookup rb n)"
  using assms by (auto simp: seg_lookup_def simp del: of_nat_less_iff)

lemma snapshot_loop_started:
  "\<forall>n \<in> set ns. n < 2 ^ 32 \<Longrightarrow>
   snapshot_loop rb (map of_nat ns) True ab segs =
     (True, ab, segs @ map (\<lambda>n. the (seg_lookup rb n)) (takeWhile (\<lambda>n. \<not> absent rb n) ns))"
proof (induction ns arbitrary: segs)
  case (Cons n ns)
  have n: "n < 2 ^ 32" using Cons.prems by simp
  show ?case
    using Cons snapshot_loop_step [OF n, of rb] by (cases "absent rb n") (simp_all add: Let_def)
qed simp

lemma snapshot_loop_fresh:
  "\<forall>n \<in> set ns. n < 2 ^ 32 \<Longrightarrow>
   snapshot_loop rb (map of_nat ns) False ab [] =
     (let xs = dropWhile (absent rb) ns in
      if xs = [] then (False, ab, [])
      else (True, of_nat (hd xs), map (\<lambda>n. the (seg_lookup rb n)) (takeWhile (\<lambda>n. \<not> absent rb n) xs)))"
proof (induction ns)
  case (Cons n ns)
  have n: "n < 2 ^ 32" using Cons.prems by simp
  show ?case
    using Cons snapshot_loop_step [OF n, of rb] snapshot_loop_started [of ns rb "of_nat n"]
    by (cases "seg_lookup rb n") (simp_all add: Let_def del: dropWhile_eq_Nil_conv)
qed simp

lemma seq_range_upt: "a \<le> b \<Longrightarrow> seq_range a b = map of_nat [unat a..<unat b]"
proof (rule nth_equalityI)
  fix i assume "a \<le> b" "i < length (seq_range a b)"
  then show "seq_range a b ! i = map of_nat [unat a..<unat b] ! i"
    by (simp add: seq_range_def)
qed (simp add: seq_range_def)

lemma Snapshot_lookup:
  assumes ok: "rb_ok rb"
  shows "Snapshot rb =
    (let xs = dropWhile (absent rb) [lo rb..<hi rb] in
     if xs = [] then (baseSeq rb, [])
     else (of_nat (hd xs), map (\<lambda>n. the (seg_lookup rb n)) (takeWhile (\<lambda>n. \<not> absent rb n) xs)))"
proof -
  have le: "baseSeq rb \<le> nextSeq rb" using rb_okD(4) [OF ok] by (simp add: word_le_nat_alt)
  have "\<forall>n \<in> set [lo rb..<hi rb]. n < 2 ^ 32"
    using hi32 [of rb] by (auto intro: less_trans)
  note l = snapshot_loop_fresh [OF this, of rb "baseSeq rb"]
  show ?thesis
  proof (cases "dropWhile (absent rb) [lo rb..<hi rb] = []")
    case True
    then show ?thesis
      using l by (simp add: Snapshot_def seq_range_upt [OF le] Let_def del: dropWhile_eq_Nil_conv)
  next
    case False
    then have "nextSeq rb \<noteq> baseSeq rb" by auto
    with False l show ?thesis
      by (simp add: Snapshot_def seq_range_upt [OF le] Let_def del: dropWhile_eq_Nil_conv)
  qed
qed

lemma dropWhile_upt:
  "\<exists>m. dropWhile P [a..<b] = [m..<b] \<and> (\<forall>j. a \<le> j \<and> j < m \<longrightarrow> P j) \<and> (m < b \<longrightarrow> \<not> P m)"
proof (induction "b - a" arbitrary: a)
  case 0
  then show ?case by (intro exI [of _ a]) auto
next
  case (Suc k)
  then have ab: "[a..<b] = a # [Suc a..<b]" by (simp add: upt_conv_Cons)
  have "k = b - Suc a" using Suc(2) by simp
  note IH = Suc(1) [OF this]
  show ?case
  proof (cases "P a")
    case False
    then show ?thesis by (intro exI [of _ a]) (auto simp: ab)
  next
    case True
    obtain m where "dropWhile P [Suc a..<b] = [m..<b]" "\<forall>j. Suc a \<le> j \<and> j < m \<longrightarrow> P j" "m < b \<longrightarrow> \<not> P m"
      using IH by blast
    moreover from this(2) True have "\<forall>j. a \<le> j \<and> j < m \<longrightarrow> P j"
      by (metis Suc_leI le_neq_implies_less)
    ultimately show ?thesis using True by (intro exI [of _ m]) (simp add: ab)
  qed
qed

lemma takeWhile_upt:
  "\<exists>e. takeWhile P [a..<b] = [a..<e] \<and> a \<le> e \<and> (\<forall>j. a \<le> j \<and> j < e \<longrightarrow> P j) \<and> (e < b \<longrightarrow> \<not> P e)
     \<and> (a \<le> b \<longrightarrow> e \<le> b)"
proof (induction "b - a" arbitrary: a)
  case 0
  then show ?case by (intro exI [of _ a]) auto
next
  case (Suc k)
  then have ab: "[a..<b] = a # [Suc a..<b]" by (simp add: upt_conv_Cons)
  have "k = b - Suc a" using Suc(2) by simp
  note IH = Suc(1) [OF this]
  show ?case
  proof (cases "P a")
    case False
    then show ?thesis using Suc(2) by (intro exI [of _ a]) (auto simp: ab)
  next
    case True
    obtain e where "takeWhile P [Suc a..<b] = [Suc a..<e]" "Suc a \<le> e" "\<forall>j. Suc a \<le> j \<and> j < e \<longrightarrow> P j"
      "e < b \<longrightarrow> \<not> P e" "Suc a \<le> b \<longrightarrow> e \<le> b"
      using IH by blast
    moreover from this(3) True have "\<forall>j. a \<le> j \<and> j < e \<longrightarrow> P j"
      by (metis Suc_leI le_neq_implies_less)
    moreover have "[a..<e] = a # [Suc a..<e]" "Suc a \<le> b"
      using calculation(2) Suc(2) by (simp_all add: upt_conv_Cons)
    ultimately show ?thesis using True by (intro exI [of _ e]) (simp add: ab)
  qed
qed

text \<open>The snapshot is the first unbroken run of segments in the window.\<close>

lemma Snapshot_run:
  assumes ok: "rb_ok rb" and s: "Snapshot rb = (b, segs)"
  shows "\<forall>i < length segs. seg_lookup rb (unat b + i) = Some (segs ! i)"
    and "\<forall>n. n < unat b \<longrightarrow> absent rb n" and "absent rb (unat b + length segs)"
    and "segs = [] \<longleftrightarrow> (\<forall>n. absent rb n)"
proof -
  have out: "absent rb n" if "n < lo rb \<or> hi rb \<le> n" for n
    using seg_lookup_window [OF ok, of n] that by (cases "seg_lookup rb n") auto
  obtain m where m: "dropWhile (absent rb) [lo rb..<hi rb] = [m..<hi rb]"
    "\<forall>j. lo rb \<le> j \<and> j < m \<longrightarrow> absent rb j" "m < hi rb \<longrightarrow> \<not> absent rb m"
    using dropWhile_upt [of "absent rb" "lo rb" "hi rb"] by blast
  have all: "(\<forall>i < length segs. seg_lookup rb (unat b + i) = Some (segs ! i)) \<and>
    (\<forall>n. n < unat b \<longrightarrow> absent rb n) \<and> absent rb (unat b + length segs) \<and>
    (segs = [] \<longleftrightarrow> (\<forall>n. absent rb n))"
  proof (cases "m < hi rb")
    case False
    then have e: "b = baseSeq rb" "segs = []" using s m(1) by (simp_all add: Snapshot_lookup [OF ok])
    have "absent rb n" for n
      using out [of n] m(2) False by (cases "n < lo rb"; cases "n < m") auto
    with e show ?thesis by simp
  next
    case True
    obtain e where e: "takeWhile (\<lambda>n. \<not> absent rb n) [m..<hi rb] = [m..<e]" "m \<le> e" "e \<le> hi rb"
      "\<forall>j. m \<le> j \<and> j < e \<longrightarrow> \<not> absent rb j" "e < hi rb \<longrightarrow> absent rb e"
      using takeWhile_upt [of "\<lambda>n. \<not> absent rb n" m "hi rb"] True by auto
    have b: "unat b = m" and segs: "segs = map (\<lambda>n. the (seg_lookup rb n)) [m..<e]"
      using s m(1) e(1) True hi32 [of rb]
      by (auto simp: Snapshot_lookup [OF ok] Let_def unat_of_nat32)
    have "m \<noteq> e" using e(1) True m(3) by (auto simp: upt_conv_Cons)
    then have "segs \<noteq> []" "m < e" using e(2) by (auto simp: segs)
    moreover have "absent rb n" if "n < m" for n using out [of n] m(2) that by (cases "n < lo rb") auto
    moreover have "absent rb e" using e(3,5) out [of e] by (cases "e < hi rb") auto
    moreover have "seg_lookup rb (m + i) = Some (segs ! i)" if "i < length segs" for i
      using that e(4) by (auto simp: segs)
    ultimately show ?thesis using b segs e(2) m(3) True by auto
  qed
  show "\<forall>i < length segs. seg_lookup rb (unat b + i) = Some (segs ! i)"
    and "\<forall>n. n < unat b \<longrightarrow> absent rb n" and "absent rb (unat b + length segs)"
    and "segs = [] \<longleftrightarrow> (\<forall>n. absent rb n)" using all by blast+
qed

section \<open>Histories\<close>

datatype rb_op =
    RbWriteAt segment | RbWrite bytes float64 float64 i64 | RbReset u32 | RbPublish bool | RbReceive

fun rb_exec :: "rb_op \<Rightarrow> ring_buffer \<Rightarrow> ring_buffer" where
  "rb_exec (RbWriteAt g) rb = write_segment g rb"
| "rb_exec (RbWrite d p a t) rb = snd (Write d p a t rb)"
| "rb_exec (RbReset b) rb = Reset b rb"
| "rb_exec (RbPublish b) rb = SetPublishEvents b rb"
| "rb_exec RbReceive rb = (case receive_event rb of None \<Rightarrow> rb | Some (e, rb') \<Rightarrow> rb')"

text \<open>No write at the last sequence number.\<close>

fun rb_below :: "rb_op list \<Rightarrow> ring_buffer \<Rightarrow> bool" where
  "rb_below [] rb = True"
| "rb_below (op # ops) rb =
     ((case op of RbWriteAt g \<Rightarrow> unat (Seq g) < 2 ^ 32 - 1 | RbWrite d p a t \<Rightarrow> hi rb < 2 ^ 32 - 1 | _ \<Rightarrow> True)
      \<and> rb_below ops (rb_exec op rb))"

lemma rb_ok_exec:
  "rb_ok rb \<Longrightarrow> rb_below (op # ops) rb \<Longrightarrow> rb_ok (rb_exec op rb)"
  by (cases op) (auto simp: rb_ok_WriteAt write_segment_def rb_ok_Write rb_ok_Reset rb_ok_SetPublish
      rb_ok_receive split: option.split)

lemma rb_ok_run: "rb_ok rb \<Longrightarrow> rb_below ops rb \<Longrightarrow> rb_ok (fold rb_exec ops rb)"
proof (induction ops arbitrary: rb)
  case (Cons op ops)
  then show ?case using rb_ok_exec [OF Cons.prems] by simp
qed simp

section \<open>Properties of the ring buffer\<close>

text \<open>
  C12. A ring buffer made by the constructor and driven by any operations that stay below the last
  sequence number keeps a window of at most \<open>capacity\<close> sequence numbers, reports its length as
  the size of that window, queues at most ten events, and only ever indexes inside its slots.
\<close>

theorem ring_buffer_window:
  assumes "NewRingBuffer w = Some rb0" "w < 2 ^ 32" "rb_below ops rb0"
  shows "let rb = fold rb_exec ops rb0 in
    baseSeq rb \<le> nextSeq rb \<and> rb_Len rb = int (hi rb - lo rb) \<and> rb_Len rb \<le> capacity rb \<and>
    length (events rb) \<le> event_chan_cap \<and> (\<forall>s. slot rb s < length (buf rb))"
proof -
  let ?rb = "fold rb_exec ops rb0"
  have ok: "rb_ok ?rb" by (rule rb_ok_run [OF rb_ok_New [OF assms(1,2)] assms(3)])
  note D = rb_okD [OF ok]
  have le: "baseSeq ?rb \<le> nextSeq ?rb" using D(4) by (simp add: word_le_nat_alt)
  have "uint (nextSeq ?rb - baseSeq ?rb) = int (hi ?rb - lo ?rb)"
    using le by (metis int_nat_eq uint_ge_0 unat_eq_nat_uint unat_sub)
  moreover have "int (hi ?rb - lo ?rb) \<le> capacity ?rb" using D(1,5) by linarith
  ultimately have "rb_Len ?rb = int (hi ?rb - lo ?rb)"
    unfolding rb_Len_def Let_def by (simp only: word_le_nat_alt split: if_split) linarith
  with le \<open>int (hi ?rb - lo ?rb) \<le> capacity ?rb\<close> D(6) slot_less [OF ok] show ?thesis
    by (simp add: Let_def)
qed

definition sample_segment :: "u32 \<Rightarrow> segment" where
  "sample_segment s = \<lparr>Seq = s, Data = [71], PTS = 0, Time = 0, ActualDuration = 2\<rparr>"

theorem ring_buffer_window_witness:
  "\<exists>rb0. NewRingBuffer 6 = Some rb0 \<and>
    (let rb = fold rb_exec [RbWriteAt (sample_segment 9), RbReceive, RbReset 4, RbPublish False] rb0
     in rb_Len rb \<le> capacity rb)"
proof -
  obtain rb0 where n: "NewRingBuffer 6 = Some rb0" by (simp add: NewRingBuffer_def)
  have "rb_below [RbWriteAt (sample_segment 9), RbReceive, RbReset 4, RbPublish False] rb0"
    by (simp add: sample_segment_def)
  from ring_buffer_window [OF n _ this] n show ?thesis by (simp add: Let_def)
qed

text \<open>
  A segment that is written is served until it leaves the window, and writing one segment does not
  touch another that stays in it; a segment that arrives too late is dropped.
\<close>

theorem WriteAt_Get:
  assumes "rb_ok rb" "unat s < 2 ^ 32 - 1" "d \<noteq> []"
  shows "let rb' = WriteAt s d p a t rb in
    (\<forall>n. Get n rb' = (if n < baseSeq rb' then None else if n = s then Some d else Get n rb)) \<and>
    unat (baseSeq rb') = max (unat (baseSeq rb)) (max (unat (nextSeq rb)) (unat s + 1) - nat (capacity rb)) \<and>
    unat (nextSeq rb') = max (unat (nextSeq rb)) (unat s + 1)"
proof -
  let ?rb' = "WriteAt s d p a t rb"
  have G: "Get n rb0 = map_option Data (seg_lookup rb0 (unat n))" for n rb0
    using unat32 [of n] by (simp add: Get_def seg_lookup_def Let_def)
  have "Get n ?rb' = (if n < baseSeq ?rb' then None else if n = s then Some d else Get n rb)" for n
    unfolding G seg_lookup_WriteAt [OF assms]
    by (auto simp: word_less_nat_alt mk_segment_def word_unat_eq_iff)
  with WriteAt_effect(1,2) [OF assms(1,2), of d p a t] show ?thesis by (simp add: Let_def)
qed

theorem WriteAt_Get_witness:
  "\<exists>rb. NewRingBuffer 4 = Some rb \<and> Get 7 (WriteAt 7 [71] 0 2 1 rb) = Some [71]"
proof -
  obtain rb where n: "NewRingBuffer 4 = Some rb" and b: "baseSeq rb = 0" "nextSeq rb = 0" "capacity rb = 2"
    by (simp add: NewRingBuffer_def)
  have "rb_ok rb" by (rule rb_ok_New [OF n]) simp
  from WriteAt_Get [OF this, of 7 "[71]" 0 2 1] b n show ?thesis
    by (auto simp: Let_def word_less_nat_alt)
qed

text \<open>
  The snapshot that becomes the playlist is one unbroken run: its segments carry consecutive numbers from the
  returned base, each is the segment the window holds under that number, nothing older is held, and the run
  stops at the first number that is missing. It is empty only when the window is.
\<close>

theorem Snapshot_contiguous:
  assumes "rb_ok rb" "Snapshot rb = (b, segs)"
  shows "(\<forall>i < length segs. unat (Seq (segs ! i)) = unat b + i \<and>
      Get (Seq (segs ! i)) rb = Some (Data (segs ! i))) \<and>
    (\<forall>n. n < b \<longrightarrow> Get n rb = None) \<and>
    (\<forall>n. unat n = unat b + length segs \<longrightarrow> Get n rb = None) \<and>
    (segs = [] \<longleftrightarrow> (\<forall>n. Get n rb = None))"
proof -
  note run = Snapshot_run [OF assms]
  have G: "Get n rb = map_option Data (seg_lookup rb (unat n))" for n
    using unat32 [of n] by (simp add: Get_def seg_lookup_def Let_def)
  have 1: "unat (Seq (segs ! i)) = unat b + i \<and> Get (Seq (segs ! i)) rb = Some (Data (segs ! i))"
    if "i < length segs" for i
  proof -
    have l: "seg_lookup rb (unat b + i) = Some (segs ! i)" using run(1) that by blast
    moreover from this have "unat (Seq (segs ! i)) = unat b + i"
      using seg_lookup_window [OF assms(1)] by blast
    ultimately show ?thesis by (simp add: G)
  qed
  have 2: "(\<forall>n. absent rb n) \<longleftrightarrow> (\<forall>n. Get n rb = None)"
  proof
    assume g: "\<forall>n. Get n rb = None"
    show "\<forall>n. absent rb n"
    proof
      fix n
      show "absent rb n"
      proof (cases "n < 2 ^ 32")
        case True
        with g [rule_format, of "of_nat n"] show ?thesis by (simp add: G unat_of_nat32)
      qed (simp add: seg_lookup_def)
    qed
  qed (simp add: G)
  have 3: "\<forall>n. n < b \<longrightarrow> Get n rb = None" using run(2) by (simp add: G word_less_nat_alt)
  have 4: "\<forall>n. unat n = unat b + length segs \<longrightarrow> Get n rb = None" using run(3) by (simp add: G)
  have "segs = [] \<longleftrightarrow> (\<forall>n. Get n rb = None)" using run(4) 2 by blast
  with 1 3 4 show ?thesis by blast
qed

theorem Snapshot_contiguous_witness:
  "\<exists>b segs. Snapshot (WriteAt 7 [71] 0 2 1 (WriteAt 9 [71] 0 2 1
      \<lparr>capacity = 4, baseSeq = 7, nextSeq = 7, buf = replicate 4 zero_segment, head = 0, events = [],
       publishEvents = True\<rparr>)) = (b, segs) \<and> (\<forall>n < b. Get n (WriteAt 7 [71] 0 2 1 (WriteAt 9 [71] 0 2 1
      \<lparr>capacity = 4, baseSeq = 7, nextSeq = 7, buf = replicate 4 zero_segment, head = 0, events = [],
       publishEvents = True\<rparr>)) = None)"
proof -
  let ?rb = "\<lparr>capacity = 4, baseSeq = 7, nextSeq = 7, buf = replicate 4 zero_segment, head = 0, events = [],
       publishEvents = True\<rparr>"
  have "rb_ok ?rb" by (rule rb_okI) (auto simp: zero_segment_def nth_Cons')
  then have ok: "rb_ok (WriteAt 7 [71] 0 2 1 (WriteAt 9 [71] 0 2 1 ?rb))"
    by (simp add: rb_ok_WriteAt)
  obtain b segs where s: "Snapshot (WriteAt 7 [71] 0 2 1 (WriteAt 9 [71] 0 2 1 ?rb)) = (b, segs)"
    by (cases "Snapshot (WriteAt 7 [71] 0 2 1 (WriteAt 9 [71] 0 2 1 ?rb))")
  from Snapshot_contiguous [OF ok s] s show ?thesis by blast
qed

text \<open>
  The order in which segments arrive does not matter: writing the same segments (with data, under different
  numbers) in two orders gives the same payload under every number and the same snapshot.
\<close>

theorem WriteAt_order_irrelevant:
  assumes "rb_ok rb" "mset gs = mset gs'" "distinct (map Seq gs)"
    and "\<forall>g \<in> set gs. Data g \<noteq> [] \<and> unat (Seq g) < 2 ^ 32 - 1"
  shows "Get n (fold write_segment gs rb) = Get n (fold write_segment gs' rb) \<and>
    Snapshot (fold write_segment gs rb) = Snapshot (fold write_segment gs' rb)"
proof -
  let ?a = "fold write_segment gs rb" and ?b = "fold write_segment gs' rb"
  have f: "\<forall>g \<in> set gs. seg_fits g" using assms(4) by (simp add: seg_fits_def)
  then have f': "\<forall>g \<in> set gs'. seg_fits g" using assms(2) by (metis set_mset_mset)
  have d: "distinct (map (\<lambda>g. unat (Seq g)) gs)"
    using assms(3) by (auto simp: distinct_map inj_on_def word_unat_eq_iff)
  note same = ring_window.order_irrelevant [OF assms(1,2) f d]
  have ok: "rb_ok ?a" "rb_ok ?b"
    using ring_window.fold_bounds [OF assms(1) f] ring_window.fold_bounds [OF assms(1) f'] by simp_all
  have l: "seg_lookup ?a = seg_lookup ?b" using same by (simp add: fun_eq_iff)
  have b: "baseSeq ?a = baseSeq ?b" and h: "hi ?a = hi ?b" using same by (simp_all add: word_unat_eq_iff)
  have "Get n rb' = map_option Data (seg_lookup rb' (unat n))" for rb'
    using unat32 [of n] by (simp add: Get_def seg_lookup_def Let_def)
  then have "Get n ?a = Get n ?b" by (simp only: l)
  moreover have "Snapshot ?a = Snapshot ?b"
    by (simp only: Snapshot_lookup [OF ok(1)] Snapshot_lookup [OF ok(2)] l b h)
  ultimately show ?thesis ..
qed

theorem WriteAt_order_irrelevant_witness:
  "\<exists>rb. NewRingBuffer 8 = Some rb \<and>
    Snapshot (fold write_segment [sample_segment 5, sample_segment 4] rb) =
    Snapshot (fold write_segment [sample_segment 4, sample_segment 5] rb)"
proof -
  obtain rb where n: "NewRingBuffer 8 = Some rb" by (simp add: NewRingBuffer_def)
  have "rb_ok rb" by (rule rb_ok_New [OF n]) simp
  moreover have "mset [sample_segment 5, sample_segment 4] = mset [sample_segment 4, sample_segment 5]"
    by simp
  moreover have "\<forall>g \<in> set [sample_segment 5, sample_segment 4]. Data g \<noteq> [] \<and> unat (Seq g) < 2 ^ 32 - 1"
    "distinct (map Seq [sample_segment 5, sample_segment 4])"
    by (simp_all add: sample_segment_def)
  ultimately show ?thesis using n WriteAt_order_irrelevant [of rb] by blast
qed

text \<open>
  The last sequence number is the exception: a segment written under \<open>0xFFFFFFFF\<close> turns the next sequence
  number into 0, after which no segment is served, the length is reported as 0, and the number of
  segments \<open>Snapshot\<close> allocates room for (next minus base, in 32 bits) is 2 ^ 32 minus base.
\<close>

theorem WriteAt_last_sequence:
  assumes "rb_ok rb"
  shows "let rb' = WriteAt 0xFFFFFFFF d p a t rb in
    GetNextSeq rb' = 0 \<and> (\<forall>n. Get n rb' = None) \<and> rb_Len rb' = 0 \<and>
    nextSeq rb' - baseSeq rb' = - baseSeq rb"
proof -
  let ?rb' = "WriteAt 0xFFFFFFFF d p a t rb"
  obtain s :: u32 where s: "s = 0xFFFFFFFF" by blast
  have wrap: "s + 1 = 0" unfolding s by (rule word_uint_eqI) simp
  have c: "0 < capacity rb" using rb_okD [OF assms] by simp
  have "n \<le> s" for n
    using unat32 [of n] by (simp add: word_le_nat_alt s)
  then have base: "\<not> s < baseSeq rb" and next': "nextSeq rb \<le> s"
    by (auto simp: not_less)
  have "nextSeq (WriteAt s d p a t rb) = 0 \<and> baseSeq (WriteAt s d p a t rb) = baseSeq rb"
    using c base next' wrap by (simp add: WriteAt_def Let_def maybeAdvanceBaseLocked_def)
  moreover from this have "idxFor (WriteAt s d p a t rb) n = -1" for n by (simp add: idxFor_def)
  ultimately show ?thesis by (simp add: Let_def GetNextSeq_def Get_def rb_Len_def s)
qed

theorem WriteAt_last_sequence_witness:
  "\<exists>rb. NewRingBuffer 4 = Some rb \<and> Get 3 (WriteAt 0xFFFFFFFF [71] 0 2 1 (WriteAt 3 [71] 0 2 1 rb)) = None"
proof -
  obtain rb where n: "NewRingBuffer 4 = Some rb" by (simp add: NewRingBuffer_def)
  have "rb_ok rb" by (rule rb_ok_New [OF n]) simp
  then have "rb_ok (WriteAt 3 [71] 0 2 1 rb)" by (simp add: rb_ok_WriteAt)
  from WriteAt_last_sequence [OF this, of "[71]" 0 2 1] n show ?thesis by (simp add: Let_def)
qed

end
