(* ===== verification/Hub.thy ===== *)
theory Hub
  imports Messages
begin

text \<open>
  The fan-out to the connected clients: \<^verbatim>\<open>peer_service/internal/p2p/hub.go\<close>. A gRPC stream is
  a number; whether \<^verbatim>\<open>Send\<close> on it succeeds is a parameter. A failing stream is dropped by a
  goroutine of its own: \<open>doomed\<close> holds the \<^verbatim>\<open>Remove\<close> calls that have been started and have not run.
\<close>

record hub =
  subs :: "(string, nat) gomap"
  doomed :: "string list"

definition NewHub :: hub where
  "NewHub = \<lparr>subs = [], doomed = []\<rparr>"

definition hub_Add :: "string \<Rightarrow> nat \<Rightarrow> hub \<Rightarrow> hub" where
  "hub_Add k s h = h\<lparr>subs := mput (subs h) k s\<rparr>"

definition hub_Remove :: "string \<Rightarrow> hub \<Rightarrow> hub" where
  "hub_Remove k h = h\<lparr>subs := mdel (subs h) k\<rparr>"

text \<open>The streams that receive the message, and the hub afterwards.\<close>

definition Broadcast :: "(nat \<Rightarrow> bool) \<Rightarrow> hub \<Rightarrow> nat list \<times> hub" where
  "Broadcast send_ok h =
     (map snd (filter (\<lambda>(k, s). send_ok s) (subs h)),
      h\<lparr>doomed := doomed h @ map fst (filter (\<lambda>(k, s). \<not> send_ok s) (subs h))\<rparr>)"

definition run_doomed :: "nat \<Rightarrow> hub \<Rightarrow> hub" where
  "run_doomed i h =
     (if i < length (doomed h)
      then (hub_Remove (doomed h ! i) h)\<lparr>doomed := take i (doomed h) @ drop (Suc i) (doomed h)\<rparr>
      else h)"

lemma Broadcast_subs [simp]: "subs (snd (Broadcast ok h)) = subs h"
  by (simp add: Broadcast_def)

datatype hub_op = HubAdd string nat | HubRemove string | HubBroadcast "nat \<Rightarrow> bool" | HubDoomed nat

fun hub_exec :: "hub_op \<Rightarrow> hub \<Rightarrow> hub" where
  "hub_exec (HubAdd k s) h = hub_Add k s h"
| "hub_exec (HubRemove k) h = hub_Remove k h"
| "hub_exec (HubBroadcast ok) h = snd (Broadcast ok h)"
| "hub_exec (HubDoomed i) h = run_doomed i h"

lemma hub_exec_keys: "keys_ok (subs h) \<Longrightarrow> keys_ok (subs (hub_exec op h))"
  by (cases op) (simp_all add: hub_Add_def hub_Remove_def run_doomed_def)

lemma hub_fold_keys: "keys_ok (subs h) \<Longrightarrow> keys_ok (subs (fold hub_exec ops h))"
  by (induction ops arbitrary: h) (simp_all add: hub_exec_keys)

section \<open>Properties\<close>

text \<open>
  Whatever connected, disconnected and failed before, a broadcast reaches exactly the streams that
  are registered and accept it, each registered identifier once; the registrations that refuse it are the
  ones marked for removal.
\<close>

theorem Broadcast_reaches:
  "let h = fold hub_exec ops NewHub in
    set (fst (Broadcast ok h)) = {s. ok s \<and> (\<exists>k. mget (subs h) k = Some s)} \<and>
    length (fst (Broadcast ok h)) = card {k. \<exists>s. mget (subs h) k = Some s \<and> ok s} \<and>
    (\<forall>k. k \<in> set (drop (length (doomed h)) (doomed (snd (Broadcast ok h)))) \<longleftrightarrow>
       (\<exists>s. mget (subs h) k = Some s \<and> \<not> ok s))"
proof -
  let ?h = "fold hub_exec ops NewHub"
  have ks: "keys_ok (subs ?h)" by (rule hub_fold_keys) (simp add: NewHub_def)
  have 1: "set (fst (Broadcast ok ?h)) = {s. ok s \<and> (\<exists>k. mget (subs ?h) k = Some s)}"
    using keys_ok_mem [OF ks] by (force simp: Broadcast_def image_iff)
  let ?l = "filter (\<lambda>(k, s). ok s) (subs ?h)"
  have "{k. \<exists>s. mget (subs ?h) k = Some s \<and> ok s} = set (map fst ?l)"
    using keys_ok_mem [OF ks] by (force simp: image_iff)
  moreover have "distinct (map fst ?l)"
    using ks by (simp add: keys_ok_def distinct_map_filter)
  ultimately have 2: "length (fst (Broadcast ok ?h)) = card {k. \<exists>s. mget (subs ?h) k = Some s \<and> ok s}"
    by (simp only: distinct_card) (simp add: Broadcast_def)
  have "k \<in> set (drop (length (doomed ?h)) (doomed (snd (Broadcast ok ?h)))) \<longleftrightarrow>
      (\<exists>s. mget (subs ?h) k = Some s \<and> \<not> ok s)" for k
    using keys_ok_mem [OF ks] by (force simp: Broadcast_def image_iff)
  with 1 2 show ?thesis by (simp add: Let_def)
qed

text \<open>
  Clients of one peer share its identifier as their registration: a second client that connects takes
  the place of the first, and when the first one disconnects the second is unregistered and hears
  nothing more, though its stream is open.
\<close>

theorem second_client_unheard:
  assumes "keys_ok (subs h0)" "\<forall>k'. mget (subs h0) k' \<noteq> Some s2"
  shows "let h = hub_Add k s2 (hub_Add k s1 h0) in
    (ok s2 \<longrightarrow> s2 \<in> set (fst (Broadcast ok h))) \<and>
    s2 \<notin> set (fst (Broadcast ok (hub_Remove k h)))"
proof -
  let ?h = "hub_Add k s2 (hub_Add k s1 h0)"
  have ks: "keys_ok (subs ?h)" "keys_ok (subs (hub_Remove k ?h))"
    using assms(1) by (simp_all add: hub_Add_def hub_Remove_def)
  have "mget (subs ?h) k = Some s2" "\<forall>k'. mget (subs (hub_Remove k ?h)) k' \<noteq> Some s2"
    using assms(2) by (simp_all add: hub_Add_def hub_Remove_def)
  then show ?thesis
    using keys_ok_mem [OF ks(1)] keys_ok_mem [OF ks(2)] by (force simp: Let_def Broadcast_def)
qed

theorem second_client_unheard_witness:
  "2 \<notin> set (fst (Broadcast (\<lambda>s. True) (hub_Remove ''n'' (hub_Add ''n'' 2 (hub_Add ''n'' 1 NewHub)))))"
  using second_client_unheard [of NewHub 2 "''n''" 1 "\<lambda>s. True"]
  by (simp add: NewHub_def Let_def)

end
