(* ===== verification/Peer.thy ===== *)
theory Peer
  imports Sessions Queue RingBuffer Hub
begin

text \<open>
  The state of one running peer service, shared by every component: the \<^verbatim>\<open>Node\<close> of
  \<^verbatim>\<open>peer_service/internal/p2p/node.go\<close>, the \<^verbatim>\<open>QueueController\<close> of
  \<^verbatim>\<open>queue_controller.go\<close>, the role and session managers, the ring buffer, the hub, the clock and the
  fields of the gRPC \<^verbatim>\<open>server\<close> of \<^verbatim>\<open>main.go\<close>.

  What a component sends is appended to \<open>trace\<close>: messages delivered to a client's stream, messages
  published on a topic (whether gossip delivers them is not the peer's knowledge) and topics joined
  and closed. A pubsub topic is its name. An encoder goroutine started by
  \<^verbatim>\<open>EnsureRunnerState\<close> is a \<open>task\<close>; contexts are numbers, and \<open>cancelled\<close> holds those whose cancel function has
  been called. The references between components that \<^verbatim>\<open>main\<close> always sets are not optional here.
\<close>

section \<open>State\<close>

record completion =
  EncoderFinished :: bool
  PlayerCompletedByPeer :: "(peer_id, bool) gomap"
  HlcTsEncoderFinished :: i64

record playback_info =
  pi_stream :: u32
  pi_playing :: bool
  pi_hlc :: i64

record queue_ctrl =
  q_of :: queue
  currentMediaSequence :: u32
  lastKnownPlaybackState :: playback_info
  streamCompletionStates :: "(u32, completion) gomap"
  ctrlTopicRef :: "string option"

record runner =
  er_isRunning :: bool
  er_currentPath :: string
  er_currentSeqBase :: u32

record task =
  t_ctx :: nat
  t_path :: string
  t_seq :: u32
  t_entered :: bool

record node =
  host_ID :: peer_id
  currentSessionID :: string
  encoderLive :: bool
  encoderRunner :: "runner option"
  runnerCtx :: "nat option"
  cancelled :: "nat list"
  nextCtx :: nat
  tasks :: "task list"
  videoTopic :: "string option"
  chatTopic :: "string option"
  ctrlTopic :: "string option"
  defaultVideoTopic :: "string option"
  defaultChatTopic :: "string option"
  defaultCtrlTopic :: "string option"
  bytesUp :: u64
  bytesDown :: u64

definition NewNode :: "peer_id \<Rightarrow> node" where
  "NewNode h = \<lparr>host_ID = h, currentSessionID = [], encoderLive = False, encoderRunner = None,
     runnerCtx = None, cancelled = [], nextCtx = 0, tasks = [], videoTopic = None, chatTopic = None,
     ctrlTopic = None, defaultVideoTopic = None, defaultChatTopic = None, defaultCtrlTopic = None,
     bytesUp = 0, bytesDown = 0\<rparr>"

definition NewQueueController :: queue_ctrl where
  "NewQueueController = \<lparr>q_of = NewQueue, currentMediaSequence = 0,
     lastKnownPlaybackState = \<lparr>pi_stream = 0, pi_playing = False, pi_hlc = 0\<rparr>,
     streamCompletionStates = [], ctrlTopicRef = None\<rparr>"

datatype effect =
    Send nat server_msg
  | Publish string server_msg
  | PublishVideo string video_segment_gossip
  | JoinTopic string
  | CloseTopic string

record peer =
  nd :: node
  qc :: queue_ctrl
  rm_of :: role_manager
  ring :: ring_buffer
  hub_of :: hub
  sm_of :: session_manager
  clk :: hlc
  pendingDiscont :: bool
  srv_ctrlTopic :: "string option"
  srv_chatTopic :: "string option"
  mdnsEnabled :: bool
  mdnsStarted :: bool
  trace :: "effect list"

text \<open>
  What the peer asks of the libraries and programs around it: the codec, whether \<^verbatim>\<open>pubsub.Join\<close> of a
  topic succeeds, whether a client's stream accepts a message, and the duration \<^verbatim>\<open>ffprobe\<close> reports for a
  file.
\<close>

record env =
  codec_of :: codec
  join_ok :: "string \<Rightarrow> bool"
  send_ok :: "nat \<Rightarrow> bool"
  ffprobe :: "string \<Rightarrow> float64 option"

section \<open>Sending\<close>

definition now_hlc :: "peer \<Rightarrow> i64 \<times> peer" where
  "now_hlc p = (let (t, c) = GetCurrentHLC (clk p) in (t, p\<lparr>clk := c\<rparr>))"

definition update_hlc :: "i64 \<Rightarrow> peer \<Rightarrow> peer" where
  "update_hlc h p = p\<lparr>clk := snd (UpdateHLC h (clk p))\<rparr>"

definition hub_broadcast :: "env \<Rightarrow> server_msg \<Rightarrow> peer \<Rightarrow> peer" where
  "hub_broadcast E m p =
     (let (ss, h) = Broadcast (send_ok E) (hub_of p)
      in p\<lparr>hub_of := h, trace := trace p @ map (\<lambda>s. Send s m) ss\<rparr>)"

definition publish :: "string option \<Rightarrow> server_msg \<Rightarrow> peer \<Rightarrow> peer" where
  "publish topic m p =
     (case topic of None \<Rightarrow> p | Some t \<Rightarrow> p\<lparr>trace := trace p @ [Publish t m]\<rparr>)"

definition ID :: "peer \<Rightarrow> peer_id" where
  "ID p = host_ID (nd p)"

definition on_node :: "(node \<Rightarrow> node) \<Rightarrow> peer \<Rightarrow> peer" where
  "on_node f p = p\<lparr>nd := f (nd p)\<rparr>"

definition on_qc :: "(queue_ctrl \<Rightarrow> queue_ctrl) \<Rightarrow> peer \<Rightarrow> peer" where
  "on_qc f p = p\<lparr>qc := f (qc p)\<rparr>"

definition queue_of :: "peer \<Rightarrow> queue" where
  "queue_of p = q_of (qc p)"

definition set_queue :: "queue \<Rightarrow> peer \<Rightarrow> peer" where
  "set_queue q p = on_qc (q_of_update (\<lambda>_. q)) p"

section \<open>Queue snapshots\<close>

definition pb_item :: "codec \<Rightarrow> queue_item \<Rightarrow> queue_item_pb" where
  "pb_item K x = \<lparr>qp_file_path = FilePath x, qp_stored_by = pid_string K (StoredBy x),
     qp_added_by = pid_string K (AddedBy x), qp_first_seq = FirstSeq x, qp_num_segs = NumSegs x,
     qp_hlc_ts = HlcTs x\<rparr>"

definition qc_Snapshot :: "env \<Rightarrow> peer \<Rightarrow> server_msg \<times> peer" where
  "qc_Snapshot E p =
     (let pbItems = map (pb_item (codec_of E)) (Items (queue_of p));
          (t, p') = now_hlc p
      in (QueueUpdate \<lparr>qu_items = pbItems, qu_hlc_ts = t\<rparr>, p'))"

section \<open>The media sequence and the last playback state\<close>

definition GetNextStartSequence :: "peer \<Rightarrow> u32" where
  "GetNextStartSequence p = currentMediaSequence (qc p)"

definition UpdateGlobalMediaSequence :: "u32 \<Rightarrow> peer \<Rightarrow> peer" where
  "UpdateGlobalMediaSequence lastStreamNextSeq p =
     (if lastStreamNextSeq > currentMediaSequence (qc p)
      then on_qc (currentMediaSequence_update (\<lambda>_. lastStreamNextSeq)) p else p)"

definition UpdateLastKnownPlaybackState :: "set_playback_state option \<Rightarrow> peer \<Rightarrow> peer" where
  "UpdateLastKnownPlaybackState newState p =
     (case newState of
        None \<Rightarrow> p
      | Some s \<Rightarrow>
          (if pi_hlc (lastKnownPlaybackState (qc p)) <s sp_hlc_ts s
              \<or> sp_stream_seq s \<noteq> pi_stream (lastKnownPlaybackState (qc p))
           then on_qc (lastKnownPlaybackState_update
                  (\<lambda>_. \<lparr>pi_stream = sp_stream_seq s, pi_playing = sp_is_playing s, pi_hlc = sp_hlc_ts s\<rparr>)) p
           else p))"

section \<open>The encoder of this peer\<close>

definition fresh_runner :: runner where
  "fresh_runner = \<lparr>er_isRunning = False, er_currentPath = '''', er_currentSeqBase = 0\<rparr>"

definition the_runner :: "peer \<Rightarrow> runner" where
  "the_runner p = (case encoderRunner (nd p) of None \<Rightarrow> fresh_runner | Some r \<Rightarrow> r)"

definition cancel_runner :: "peer \<Rightarrow> peer" where
  "cancel_runner p =
     (case runnerCtx (nd p) of
        None \<Rightarrow> p
      | Some c \<Rightarrow> on_node (\<lambda>n. n\<lparr>cancelled := c # cancelled n\<rparr>) p)"

text \<open>The block that stores the new first sequence in the head item and announces it.\<close>

definition announce_first_seq :: "env \<Rightarrow> u32 \<Rightarrow> peer \<Rightarrow> peer" where
  "announce_first_seq E seqBase p =
     (case Head (queue_of p) of
        (item, ok) \<Rightarrow>
          (if \<not> ok then p
           else
             (let p1 = set_queue (snd (SetItemAtCursor (item\<lparr>FirstSeq := seqBase\<rparr>) (queue_of p))) p;
                  (m1, p2) = qc_Snapshot E p1;
                  p3 = hub_broadcast E m1 p2
              in (case ctrlTopic (nd p3) of
                    None \<Rightarrow> p3
                  | Some t \<Rightarrow> (let (m2, p4) = qc_Snapshot E p3 in publish (Some t) m2 p4)))))"

text \<open>The block from the reset of the ring buffer to the start of the goroutine.\<close>

definition start_run :: "env \<Rightarrow> string \<Rightarrow> u32 \<Rightarrow> peer \<Rightarrow> peer" where
  "start_run E filePath seqBase p =
     (let p1 = p\<lparr>ring := Reset seqBase (ring p), pendingDiscont := True\<rparr>;
          (t, p2) = now_hlc p1;
          m = PlaylistReset \<lparr>pr_sequence = seqBase, pr_start_pts = 0,
                             pr_origin_sec = of_nat (unat seqBase) * SegmentDuration, pr_hlc_ts = t\<rparr>;
          p3 = hub_broadcast E m p2;
          p4 = publish (ctrlTopic (nd p3)) m p3
      in on_node (\<lambda>n. n\<lparr>runnerCtx := Some (nextCtx n), encoderLive := True,
                        tasks := tasks n @ [\<lparr>t_ctx = nextCtx n, t_path = filePath, t_seq = seqBase, t_entered = False\<rparr>],
                        nextCtx := Suc (nextCtx n)\<rparr>) p4)"

definition EnsureRunnerState :: "env \<Rightarrow> string \<Rightarrow> u32 \<Rightarrow> peer \<Rightarrow> peer" where
  "EnsureRunnerState E filePath seqBase p0 =
     (let p = on_node (\<lambda>n. n\<lparr>encoderRunner := Some (the_runner p0)\<rparr>) p0;
          (hd_item, ok) = Head (queue_of p);
          nodePerms = GetPermissionsForPeer (rm_of p) (ID p);
          shouldRun = (filePath \<noteq> '''' \<and> ok \<and> FilePath hd_item = filePath \<and> StoredBy hd_item = ID p
                       \<and> Has nodePerms PermStream);
          isRunning = er_isRunning (the_runner p);
          currentFile = er_currentPath (the_runner p);
          currentSeqBase = er_currentSeqBase (the_runner p)
      in if shouldRun then
           (if isRunning \<and> currentFile = filePath \<and> currentSeqBase = seqBase then p
            else start_run E filePath seqBase (cancel_runner (announce_first_seq E seqBase p)))
         else if isRunning then on_node (\<lambda>n. n\<lparr>encoderLive := False\<rparr>) (cancel_runner p)
         else on_node (\<lambda>n. n\<lparr>encoderLive := False\<rparr>) p)"

definition StopCurrentEncoder :: "peer \<Rightarrow> peer" where
  "StopCurrentEncoder p =
     (if runnerCtx (nd p) \<noteq> None then cancel_runner p
      else on_node (\<lambda>n. n\<lparr>encoderLive := False\<rparr>) p)"

definition ReactToQueueUpdate :: "env \<Rightarrow> peer \<Rightarrow> peer" where
  "ReactToQueueUpdate E p =
     (case Head (queue_of p) of
        (hd_item, ok) \<Rightarrow>
          (if \<not> ok then EnsureRunnerState E '''' 0 p
           else
             (let nodePerms = GetPermissionsForPeer (rm_of p) (ID p)
              in if StoredBy hd_item = ID p \<and> Has nodePerms PermStream
                 then EnsureRunnerState E (FilePath hd_item) (GetNextStartSequence p) p
                 else EnsureRunnerState E '''' 0 p)))"

end
