(* ===== verification/QueueControl.thy ===== *)
theory QueueControl
  imports Peer
begin

text \<open>
  The operations of the \<^verbatim>\<open>QueueController\<close> that change the queue, and the life of an encoder
  goroutine: \<^verbatim>\<open>peer_service/internal/p2p/queue_controller.go\<close> and the goroutine of
  \<^verbatim>\<open>EnsureRunnerState\<close> in \<^verbatim>\<open>node.go\<close>. Every operation runs to its end as one step, although the code does not lock the whole of \<^verbatim>\<open>Handle\<close>,
  \<^verbatim>\<open>ApplyUpdate\<close> and \<^verbatim>\<open>checkAndAttemptQueueAdvance\<close> (\<open>QueueFlow\<close> has what two overlapping notifications can do);
  the goroutine is two steps, the entry into \<^verbatim>\<open>EncoderRunner.Start\<close> and its return.
\<close>

section \<open>Queue commands\<close>

datatype queue_error = PermissionDenied peer_id | UnknownCmd int

definition defaultSegmentDurationSeconds :: float64 where
  "defaultSegmentDurationSeconds = 2"

text \<open>Go leaves the conversion of a \<^verbatim>\<open>float64\<close> that does not fit into 32 bits to the implementation; here it wraps.\<close>

definition num_segs :: "env \<Rightarrow> string \<Rightarrow> u32" where
  "num_segs E path =
     (case ffprobe E path of
        Some d \<Rightarrow> if d > 0 then of_int \<lceil>d / defaultSegmentDurationSeconds\<rceil> else 0
      | None \<Rightarrow> 0)"

text \<open>
  The block SKIP_PREV and SKIP_NEXT share: stop the encoder and, when this peer was streaming the
  item at the cursor, carry its next sequence number over.
\<close>

definition stop_and_carry_seq :: "peer \<Rightarrow> peer" where
  "stop_and_carry_seq p =
     (case Head (queue_of p) of
        (itemBeingSkipped, wasPlaying) \<Rightarrow>
          (let p1 = StopCurrentEncoder p
           in if wasPlaying \<and> ID p1 = StoredBy itemBeingSkipped
              then UpdateGlobalMediaSequence (GetNextSeq (ring p1)) p1 else p1))"

text \<open>The \<open>switch\<close> on the command: \<open>madeChange\<close> and the peer afterwards.\<close>

fun queue_switch :: "env \<Rightarrow> queue_cmd \<Rightarrow> peer_id \<Rightarrow> queue_cmd_type \<Rightarrow> peer \<Rightarrow> queue_error + bool \<times> peer" where
  "queue_switch E cmd sender APPEND p =
     (if qc_file_path cmd = '''' then Inr (False, p)
      else (let it = \<lparr>FilePath = qc_file_path cmd, StoredBy = sender, AddedBy = sender, FirstSeq = 0,
                      NumSegs = num_segs E (qc_file_path cmd), HlcTs = qc_hlc_ts cmd\<rparr>
            in Inr (True, set_queue (snd (Append it (queue_of p))) p)))"
| "queue_switch E cmd sender REMOVE p =
     (case Remove (qc_index cmd) (queue_of p) of (removed, q) \<Rightarrow> Inr (removed, set_queue q p))"
| "queue_switch E cmd sender CLEAR p =
     Inr (True, StopCurrentEncoder (set_queue (Clear (queue_of p)) p))"
| "queue_switch E cmd sender NEXT p =
     (case AdvanceCursor (queue_of p) of
        ((item, advanced), q) \<Rightarrow>
          (let p1 = set_queue q p
           in Inr (if advanced then (True, p1) else (False, StopCurrentEncoder p1))))"
| "queue_switch E cmd sender SKIP_PREV p =
     (let p1 = stop_and_carry_seq p
      in case RewindCursor (queue_of p1) of ((item, rewound), q) \<Rightarrow> Inr (rewound, set_queue q p1))"
| "queue_switch E cmd sender SKIP_NEXT p =
     (let p1 = stop_and_carry_seq p
      in case AdvanceCursor (queue_of p1) of ((item, advanced), q) \<Rightarrow> Inr (advanced, set_queue q p1))"
| "queue_switch E cmd sender (UNKNOWN_TYPE n) p = Inl (UnknownCmd n)"

definition Handle ::
  "env \<Rightarrow> queue_cmd \<Rightarrow> peer_id \<Rightarrow> string option \<Rightarrow> peer \<Rightarrow> (queue_error + unit) \<times> peer" where
  "Handle E cmd sender topic p =
     (let isInternalNext = (qc_type cmd = NEXT \<and> sender = ID p)
      in if \<not> isInternalNext \<and> \<not> Has (GetPermissionsForPeer (rm_of p) sender) PermQueue
         then (Inl (PermissionDenied sender), p)
         else
           (case queue_switch E cmd sender (qc_type cmd) p of
              Inl e \<Rightarrow> (Inl e, p)
            | Inr (madeChange, p1) \<Rightarrow>
                (let p2 = (if madeChange then
                             (let (snapshotMsg, p2) = qc_Snapshot E p1
                              in publish topic snapshotMsg (hub_broadcast E snapshotMsg p2))
                           else p1)
                 in (Inr (), ReactToQueueUpdate E p2))))"

text \<open>One received item: dropped when a peer identifier in it does not decode.\<close>

definition item_of_pb :: "codec \<Rightarrow> queue_item_pb \<Rightarrow> queue_item option" where
  "item_of_pb K pb =
     (case pid_decode K (qp_stored_by pb) of
        None \<Rightarrow> None
      | Some s \<Rightarrow>
          (case pid_decode K (qp_added_by pb) of
             None \<Rightarrow> None
           | Some a \<Rightarrow> Some \<lparr>FilePath = qp_file_path pb, StoredBy = s, AddedBy = a,
                              FirstSeq = qp_first_seq pb, NumSegs = qp_num_segs pb,
                              HlcTs = qp_hlc_ts pb\<rparr>))"

definition ApplyUpdate ::
  "env \<Rightarrow> queue_update \<Rightarrow> peer_id \<Rightarrow> peer \<Rightarrow> (queue_error + unit) \<times> peer" where
  "ApplyUpdate E update from p =
     (if \<not> Has (GetPermissionsForPeer (rm_of p) from) PermQueue then (Inl (PermissionDenied from), p)
      else
        (let newItems = List.map_filter (item_of_pb (codec_of E)) (qu_items update);
             p1 = set_queue (ReplaceItems newItems (queue_of p)) p;
             (m, p2) = qc_Snapshot E p1;
             p3 = hub_broadcast E m p2
         in (Inr (), ReactToQueueUpdate E p3)))"

section \<open>End of a stream\<close>

definition no_completion :: completion where
  "no_completion = \<lparr>EncoderFinished = False, PlayerCompletedByPeer = [], HlcTsEncoderFinished = 0\<rparr>"

definition completion_for :: "u32 \<Rightarrow> peer \<Rightarrow> completion" where
  "completion_for s p = (case mget (streamCompletionStates (qc p)) s of None \<Rightarrow> no_completion | Some c \<Rightarrow> c)"

definition set_completion :: "u32 \<Rightarrow> completion \<Rightarrow> peer \<Rightarrow> peer" where
  "set_completion s c p = on_qc (streamCompletionStates_update (\<lambda>m. mput m s c)) p"

definition del_completion :: "u32 \<Rightarrow> peer \<Rightarrow> peer" where
  "del_completion s p = on_qc (streamCompletionStates_update (\<lambda>m. mdel m s)) p"

definition checkAndAttemptQueueAdvance :: "env \<Rightarrow> u32 \<Rightarrow> peer \<Rightarrow> peer" where
  "checkAndAttemptQueueAdvance E streamSeqID p =
     (case mget (streamCompletionStates (qc p)) streamSeqID of
        None \<Rightarrow> p
      | Some state \<Rightarrow>
          (case Head (queue_of p) of
             (currentHead, headOk) \<Rightarrow>
               (if \<not> headOk \<or> FirstSeq currentHead \<noteq> streamSeqID then del_completion streamSeqID p
                else
                  (let encoderDone = EncoderFinished state;
                       streamerPlayerDone = (mget (PlayerCompletedByPeer state) (StoredBy currentHead) = Some True)
                   in if encoderDone \<and> streamerPlayerDone then
                        (if ctrlTopicRef (qc p) = None then p
                         else
                           (let (t, p1) = now_hlc p;
                                cmd = \<lparr>qc_type = NEXT, qc_file_path = '''', qc_index = 0, qc_hlc_ts = t\<rparr>;
                                p2 = snd (Handle E cmd (ID p1) (ctrlTopicRef (qc p1)) p1)
                            in del_completion streamSeqID p2))
                      else p))))"

definition NotifyEncoderFinished :: "env \<Rightarrow> u32 \<Rightarrow> peer_id \<Rightarrow> peer \<Rightarrow> peer" where
  "NotifyEncoderFinished E streamSeqID encoderPeerID p =
     (let (t, p1) = now_hlc p;
          c = (completion_for streamSeqID p1)\<lparr>EncoderFinished := True, HlcTsEncoderFinished := t\<rparr>
      in checkAndAttemptQueueAdvance E streamSeqID (set_completion streamSeqID c p1))"

definition NotifyPlayerStreamCompleted :: "env \<Rightarrow> u32 \<Rightarrow> peer_id \<Rightarrow> peer \<Rightarrow> peer" where
  "NotifyPlayerStreamCompleted E streamSeqID reportingPeerID p =
     (let c0 = completion_for streamSeqID p;
          c = c0\<lparr>PlayerCompletedByPeer := mput (PlayerCompletedByPeer c0) reportingPeerID True\<rparr>
      in checkAndAttemptQueueAdvance E streamSeqID (set_completion streamSeqID c p))"

section \<open>The encoder goroutine\<close>

datatype run_result = RunOk | RunFailed

text \<open>
  What follows the return of \<^verbatim>\<open>EncoderRunner.Start\<close>. A cancelled run returns the context's error, so
  \<open>RunOk\<close> with a cancelled context is the race in which ffmpeg ends as the context is cancelled.
\<close>

definition task_end :: "env \<Rightarrow> nat \<Rightarrow> u32 \<Rightarrow> run_result \<Rightarrow> peer \<Rightarrow> peer" where
  "task_end E ctx seq runErr p0 =
     (let p = on_node (\<lambda>n. n\<lparr>tasks := filter (\<lambda>t. t_ctx t \<noteq> ctx) (tasks n)\<rparr>) p0
      in if runnerCtx (nd p) \<noteq> Some ctx then p
         else
           (let p1 = on_node (\<lambda>n. n\<lparr>encoderLive := False\<rparr>) p
            in if runErr = RunOk \<and> ctx \<notin> set (cancelled (nd p1)) then
                 NotifyEncoderFinished E seq (ID p1)
                   (UpdateGlobalMediaSequence (GetNextSeq (ring p1)) p1)
               else p1))"

text \<open>
  The head of \<^verbatim>\<open>Start\<close>: when the runner is already running this very task it returns nil at
  once, and the goroutine ends as after a successful run.
\<close>

definition runner_enter :: "env \<Rightarrow> task \<Rightarrow> peer \<Rightarrow> peer" where
  "runner_enter E t p =
     (let r = the_runner p
      in if er_isRunning r \<and> er_currentPath r = t_path t \<and> er_currentSeqBase r = t_seq t
         then task_end E (t_ctx t) (t_seq t) RunOk p
         else on_node (\<lambda>n. n\<lparr>encoderRunner := Some \<lparr>er_isRunning = True, er_currentPath = t_path t,
                                                    er_currentSeqBase = t_seq t\<rparr>,
                            tasks := map (\<lambda>u. if t_ctx u = t_ctx t then u\<lparr>t_entered := True\<rparr> else u) (tasks n)\<rparr>) p)"

text \<open>The deferred clean-up of \<^verbatim>\<open>Start\<close> clears \<open>isRunning\<close>, whoever set it last.\<close>

definition runner_leave :: "env \<Rightarrow> task \<Rightarrow> run_result \<Rightarrow> peer \<Rightarrow> peer" where
  "runner_leave E t runErr p =
     task_end E (t_ctx t) (t_seq t) runErr
       (on_node (\<lambda>n. n\<lparr>encoderRunner := Some ((the_runner p)\<lparr>er_isRunning := False\<rparr>)\<rparr>) p)"

end
