(* ===== verification/Streaming.thy ===== *)
theory Streaming
  imports QueueControl
begin

text \<open>
  What the queue controller and the encoder management of one peer guarantee: who may change the queue,
  who encodes, at most one encoder at a time, and when the queue moves on.
\<close>

section \<open>Fields an operation leaves alone\<close>

named_theorems frame \<open>fields of the peer an operation does not touch, or how it sets them\<close>

lemma on_node_fields [simp, frame]:
  "nd (on_node f p) = f (nd p)" "qc (on_node f p) = qc p" "rm_of (on_node f p) = rm_of p"
  "ring (on_node f p) = ring p" "hub_of (on_node f p) = hub_of p" "sm_of (on_node f p) = sm_of p"
  "clk (on_node f p) = clk p" "trace (on_node f p) = trace p" "queue_of (on_node f p) = queue_of p"
  by (simp_all add: on_node_def queue_of_def)

lemma on_qc_fields [simp, frame]:
  "nd (on_qc f p) = nd p" "qc (on_qc f p) = f (qc p)" "rm_of (on_qc f p) = rm_of p"
  "ring (on_qc f p) = ring p" "hub_of (on_qc f p) = hub_of p" "sm_of (on_qc f p) = sm_of p"
  "clk (on_qc f p) = clk p" "trace (on_qc f p) = trace p" "queue_of (on_qc f p) = q_of (f (qc p))"
  by (simp_all add: on_qc_def queue_of_def)

lemma set_queue_fields [simp, frame]:
  "nd (set_queue q p) = nd p" "rm_of (set_queue q p) = rm_of p" "ring (set_queue q p) = ring p"
  "sm_of (set_queue q p) = sm_of p" "queue_of (set_queue q p) = q" "clk (set_queue q p) = clk p"
  "qc (set_queue q p) = (qc p)\<lparr>q_of := q\<rparr>" "hub_of (set_queue q p) = hub_of p" "trace (set_queue q p) = trace p"
  by (simp_all add: set_queue_def)

lemma hub_broadcast_fields [simp, frame]:
  "nd (hub_broadcast E m p) = nd p" "qc (hub_broadcast E m p) = qc p"
  "rm_of (hub_broadcast E m p) = rm_of p" "ring (hub_broadcast E m p) = ring p"
  "sm_of (hub_broadcast E m p) = sm_of p" "clk (hub_broadcast E m p) = clk p"
  "queue_of (hub_broadcast E m p) = queue_of p"
  by (simp_all add: hub_broadcast_def queue_of_def split: prod.split)

lemma publish_fields [simp, frame]:
  "nd (publish t m p) = nd p" "qc (publish t m p) = qc p" "rm_of (publish t m p) = rm_of p"
  "ring (publish t m p) = ring p" "sm_of (publish t m p) = sm_of p" "clk (publish t m p) = clk p"
  "hub_of (publish t m p) = hub_of p" "queue_of (publish t m p) = queue_of p"
  by (simp_all add: publish_def queue_of_def split: option.split)

lemma now_hlc_fields:
  assumes "now_hlc p = (t, p')"
  shows "nd p' = nd p" "qc p' = qc p" "rm_of p' = rm_of p" "ring p' = ring p" "sm_of p' = sm_of p"
    "hub_of p' = hub_of p" "trace p' = trace p" "queue_of p' = queue_of p"
  using assms by (auto simp: now_hlc_def queue_of_def split: prod.splits)

lemma now_hlc_snd [simp, frame]:
  "nd (snd (now_hlc p)) = nd p" "qc (snd (now_hlc p)) = qc p" "rm_of (snd (now_hlc p)) = rm_of p"
  "ring (snd (now_hlc p)) = ring p" "sm_of (snd (now_hlc p)) = sm_of p"
  "hub_of (snd (now_hlc p)) = hub_of p" "trace (snd (now_hlc p)) = trace p"
  "queue_of (snd (now_hlc p)) = queue_of p"
  using now_hlc_fields [OF prod.collapse [symmetric]] by simp_all

lemma qc_Snapshot_snd [simp, frame]:
  "nd (snd (qc_Snapshot E p)) = nd p" "qc (snd (qc_Snapshot E p)) = qc p"
  "rm_of (snd (qc_Snapshot E p)) = rm_of p" "ring (snd (qc_Snapshot E p)) = ring p"
  "sm_of (snd (qc_Snapshot E p)) = sm_of p" "hub_of (snd (qc_Snapshot E p)) = hub_of p"
  "trace (snd (qc_Snapshot E p)) = trace p" "queue_of (snd (qc_Snapshot E p)) = queue_of p"
  by (simp_all add: qc_Snapshot_def Let_def case_prod_beta)

lemma cancel_runner_nd: "nd (cancel_runner p) =
    (nd p)\<lparr>cancelled := (case runnerCtx (nd p) of None \<Rightarrow> [] | Some c \<Rightarrow> [c]) @ cancelled (nd p)\<rparr>"
  by (simp add: cancel_runner_def split: option.split)

lemma cancel_runner_fields [simp, frame]:
  "qc (cancel_runner p) = qc p" "rm_of (cancel_runner p) = rm_of p" "ring (cancel_runner p) = ring p"
  "sm_of (cancel_runner p) = sm_of p" "queue_of (cancel_runner p) = queue_of p"
  "trace (cancel_runner p) = trace p" "clk (cancel_runner p) = clk p" "hub_of (cancel_runner p) = hub_of p"
  by (simp_all add: cancel_runner_def split: option.split)

lemma q_of_self [simp]: "(qc p)\<lparr>q_of := queue_of p\<rparr> = qc p"
  by (simp add: queue_of_def)

lemma announce_fields [simp, frame]:
  "nd (announce_first_seq E s p) = nd p" "rm_of (announce_first_seq E s p) = rm_of p"
  "ring (announce_first_seq E s p) = ring p" "sm_of (announce_first_seq E s p) = sm_of p"
  "queue_of (announce_first_seq E s p) =
     (case Head (queue_of p) of (x, ok) \<Rightarrow> if ok then snd (SetItemAtCursor (x\<lparr>FirstSeq := s\<rparr>) (queue_of p)) else queue_of p)"
  "qc (announce_first_seq E s p) = (qc p)\<lparr>q_of :=
     (case Head (queue_of p) of (x, ok) \<Rightarrow> if ok then snd (SetItemAtCursor (x\<lparr>FirstSeq := s\<rparr>) (queue_of p)) else queue_of p)\<rparr>"
  by (simp_all add: announce_first_seq_def Let_def case_prod_beta split: option.split)

lemma start_run_fields [simp, frame]:
  "nd (start_run E f s p) = (nd p)\<lparr>runnerCtx := Some (nextCtx (nd p)), encoderLive := True,
     tasks := tasks (nd p) @ [\<lparr>t_ctx = nextCtx (nd p), t_path = f, t_seq = s, t_entered = False\<rparr>],
     nextCtx := Suc (nextCtx (nd p))\<rparr>"
  "qc (start_run E f s p) = qc p" "rm_of (start_run E f s p) = rm_of p"
  "ring (start_run E f s p) = Reset s (ring p)" "sm_of (start_run E f s p) = sm_of p"
  "queue_of (start_run E f s p) = queue_of p"
  by (simp_all add: start_run_def Let_def case_prod_beta queue_of_def)

section \<open>The three outcomes of EnsureRunnerState\<close>

definition should_run :: "string \<Rightarrow> peer \<Rightarrow> bool" where
  "should_run f p \<longleftrightarrow> f \<noteq> [] \<and> snd (Head (queue_of p)) \<and> FilePath (fst (Head (queue_of p))) = f
     \<and> StoredBy (fst (Head (queue_of p))) = ID p \<and> Has (GetPermissionsForPeer (rm_of p) (ID p)) PermStream"

definition already_running :: "string \<Rightarrow> u32 \<Rightarrow> peer \<Rightarrow> bool" where
  "already_running f s p \<longleftrightarrow> er_isRunning (the_runner p) \<and> er_currentPath (the_runner p) = f
     \<and> er_currentSeqBase (the_runner p) = s"

definition with_runner :: "peer \<Rightarrow> peer" where
  "with_runner p = on_node (\<lambda>n. n\<lparr>encoderRunner := Some (the_runner p)\<rparr>) p"

lemma with_runner_fields [simp]:
  "nd (with_runner p) = (nd p)\<lparr>encoderRunner := Some (the_runner p)\<rparr>" "qc (with_runner p) = qc p"
  "rm_of (with_runner p) = rm_of p" "ring (with_runner p) = ring p" "sm_of (with_runner p) = sm_of p"
  "queue_of (with_runner p) = queue_of p" "the_runner (with_runner p) = the_runner p" "ID (with_runner p) = ID p"
  by (simp_all add: with_runner_def the_runner_def ID_def)

lemma EnsureRunnerState_unfold:
  "EnsureRunnerState E f s p =
     (if should_run f p then
        (if already_running f s p then with_runner p
         else start_run E f s (cancel_runner (announce_first_seq E s (with_runner p))))
      else if er_isRunning (the_runner p) then on_node (\<lambda>n. n\<lparr>encoderLive := False\<rparr>) (cancel_runner (with_runner p))
      else on_node (\<lambda>n. n\<lparr>encoderLive := False\<rparr>) (with_runner p))"
  by (auto simp: EnsureRunnerState_def Let_def case_prod_beta should_run_def already_running_def
      with_runner_def [symmetric])

text \<open>What \<open>ReactToQueueUpdate\<close> asks for.\<close>

definition wants_run :: "peer \<Rightarrow> bool" where
  "wants_run p \<longleftrightarrow> snd (Head (queue_of p)) \<and> StoredBy (fst (Head (queue_of p))) = ID p
     \<and> Has (GetPermissionsForPeer (rm_of p) (ID p)) PermStream"

lemma React_unfold:
  "ReactToQueueUpdate E p =
     (if wants_run p then EnsureRunnerState E (FilePath (fst (Head (queue_of p)))) (GetNextStartSequence p) p
      else EnsureRunnerState E [] 0 p)"
  by (simp add: ReactToQueueUpdate_def wants_run_def case_prod_beta Let_def)

lemma not_should_run_Nil [simp]: "\<not> should_run [] p"
  by (simp add: should_run_def)

lemma Ensure_frame [simp, frame]:
  "rm_of (EnsureRunnerState E f s p) = rm_of p" "sm_of (EnsureRunnerState E f s p) = sm_of p"
  "host_ID (nd (EnsureRunnerState E f s p)) = host_ID (nd p)"
  "currentMediaSequence (qc (EnsureRunnerState E f s p)) = currentMediaSequence (qc p)"
  "lastKnownPlaybackState (qc (EnsureRunnerState E f s p)) = lastKnownPlaybackState (qc p)"
  "streamCompletionStates (qc (EnsureRunnerState E f s p)) = streamCompletionStates (qc p)"
  "ctrlTopicRef (qc (EnsureRunnerState E f s p)) = ctrlTopicRef (qc p)"
  "currentSessionID (nd (EnsureRunnerState E f s p)) = currentSessionID (nd p)"
  by (simp_all add: EnsureRunnerState_unfold cancel_runner_nd)

lemma React_frame [simp, frame]:
  "rm_of (ReactToQueueUpdate E p) = rm_of p" "sm_of (ReactToQueueUpdate E p) = sm_of p"
  "host_ID (nd (ReactToQueueUpdate E p)) = host_ID (nd p)"
  "currentMediaSequence (qc (ReactToQueueUpdate E p)) = currentMediaSequence (qc p)"
  "lastKnownPlaybackState (qc (ReactToQueueUpdate E p)) = lastKnownPlaybackState (qc p)"
  "streamCompletionStates (qc (ReactToQueueUpdate E p)) = streamCompletionStates (qc p)"
  "ctrlTopicRef (qc (ReactToQueueUpdate E p)) = ctrlTopicRef (qc p)"
  "currentSessionID (nd (ReactToQueueUpdate E p)) = currentSessionID (nd p)"
  by (simp_all add: React_unfold)

section \<open>Invariant: at most one encoder runs\<close>

definition runs_ok :: "node \<Rightarrow> bool" where
  "runs_ok n \<longleftrightarrow> distinct (map t_ctx (tasks n))
     \<and> (\<forall>t \<in> set (tasks n). t_ctx t < nextCtx n \<and> (t_ctx t \<in> set (cancelled n) \<or> runnerCtx n = Some (t_ctx t)))
     \<and> (\<forall>c \<in> set (cancelled n). c < nextCtx n) \<and> (\<forall>c. runnerCtx n = Some c \<longrightarrow> c < nextCtx n)"

definition peer_ok :: "peer \<Rightarrow> bool" where
  "peer_ok p \<longleftrightarrow> queue_ok (queue_of p) \<and> runs_ok (nd p)"

lemma runs_ok_cong [simp]:
  "runs_ok (n\<lparr>encoderLive := b\<rparr>) = runs_ok n" "runs_ok (n\<lparr>encoderRunner := r\<rparr>) = runs_ok n"
  by (simp_all add: runs_ok_def)

lemma runs_ok_cancel [simp]: "runs_ok (nd p) \<Longrightarrow> runs_ok (nd (cancel_runner p))"
  by (auto simp: runs_ok_def cancel_runner_nd split: option.split)

lemma runs_ok_start:
  assumes "runs_ok n" "\<forall>c. runnerCtx n = Some c \<longrightarrow> c \<in> set (cancelled n)"
  shows "runs_ok (n\<lparr>runnerCtx := Some (nextCtx n), encoderLive := b, tasks := tasks n @ [\<lparr>t_ctx = nextCtx n,
     t_path = f, t_seq = s, t_entered = e\<rparr>], nextCtx := Suc (nextCtx n)\<rparr>)"
  using assms by (auto simp: runs_ok_def less_Suc_eq)

lemma cancel_runner_cancelled: "runnerCtx (nd (cancel_runner p)) = Some c \<Longrightarrow> c \<in> set (cancelled (nd (cancel_runner p)))"
  by (simp add: cancel_runner_nd)

lemma peer_ok_Ensure [preserves]: "peer_ok p \<Longrightarrow> peer_ok (EnsureRunnerState E f s p)"
  by (auto simp: peer_ok_def EnsureRunnerState_unfold queue_ok_ops cancel_runner_cancelled case_prod_beta
      intro!: runs_ok_start)

lemma peer_ok_React [preserves]: "peer_ok p \<Longrightarrow> peer_ok (ReactToQueueUpdate E p)"
  by (simp add: React_unfold peer_ok_Ensure)

lemma Stop_fields [simp, frame]:
  "queue_of (StopCurrentEncoder p) = queue_of p" "rm_of (StopCurrentEncoder p) = rm_of p"
  "sm_of (StopCurrentEncoder p) = sm_of p" "qc (StopCurrentEncoder p) = qc p"
  "ring (StopCurrentEncoder p) = ring p" "host_ID (nd (StopCurrentEncoder p)) = host_ID (nd p)"
  "tasks (nd (StopCurrentEncoder p)) = tasks (nd p)" "trace (StopCurrentEncoder p) = trace p"
  by (simp_all add: StopCurrentEncoder_def cancel_runner_nd)

lemma UpdateGlobal_fields [simp, frame]:
  "queue_of (UpdateGlobalMediaSequence s p) = queue_of p" "nd (UpdateGlobalMediaSequence s p) = nd p"
  "rm_of (UpdateGlobalMediaSequence s p) = rm_of p" "sm_of (UpdateGlobalMediaSequence s p) = sm_of p"
  "ring (UpdateGlobalMediaSequence s p) = ring p" "trace (UpdateGlobalMediaSequence s p) = trace p"
  "streamCompletionStates (qc (UpdateGlobalMediaSequence s p)) = streamCompletionStates (qc p)"
  "ctrlTopicRef (qc (UpdateGlobalMediaSequence s p)) = ctrlTopicRef (qc p)"
  "lastKnownPlaybackState (qc (UpdateGlobalMediaSequence s p)) = lastKnownPlaybackState (qc p)"
  "currentMediaSequence (qc (UpdateGlobalMediaSequence s p)) = max (currentMediaSequence (qc p)) s"
  by (auto simp: UpdateGlobalMediaSequence_def queue_of_def max_def)

lemma peer_ok_Stop [preserves]: "peer_ok p \<Longrightarrow> peer_ok (StopCurrentEncoder p)"
  by (simp add: peer_ok_def StopCurrentEncoder_def)

lemma peer_ok_cong:
  "queue_of p' = queue_of p \<Longrightarrow> nd p' = nd p \<Longrightarrow> peer_ok p' = peer_ok p"
  by (simp add: peer_ok_def)

lemma carry_fields [simp, frame]:
  "queue_of (stop_and_carry_seq p) = queue_of p" "rm_of (stop_and_carry_seq p) = rm_of p"
  "sm_of (stop_and_carry_seq p) = sm_of p" "host_ID (nd (stop_and_carry_seq p)) = host_ID (nd p)"
  "streamCompletionStates (qc (stop_and_carry_seq p)) = streamCompletionStates (qc p)"
  "ctrlTopicRef (qc (stop_and_carry_seq p)) = ctrlTopicRef (qc p)"
  "lastKnownPlaybackState (qc (stop_and_carry_seq p)) = lastKnownPlaybackState (qc p)"
  "tasks (nd (stop_and_carry_seq p)) = tasks (nd p)" "trace (stop_and_carry_seq p) = trace p"
  by (simp_all add: stop_and_carry_seq_def Let_def case_prod_beta)

lemma peer_ok_carry [preserves]: "peer_ok p \<Longrightarrow> peer_ok (stop_and_carry_seq p)"
  by (auto simp: stop_and_carry_seq_def Let_def case_prod_beta peer_ok_Stop
      peer_ok_cong [OF UpdateGlobal_fields(1,2)])

lemma peer_ok_set_queue [preserves]: "peer_ok p \<Longrightarrow> queue_ok q \<Longrightarrow> peer_ok (set_queue q p)"
  by (simp add: peer_ok_def)

lemma peer_ok_queue: "peer_ok p \<Longrightarrow> queue_ok (queue_of p)"
  by (simp add: peer_ok_def)

lemma peer_ok_switch [preserves]:
  "peer_ok p \<Longrightarrow> queue_switch E cmd sender ty p = Inr (ch, p') \<Longrightarrow> peer_ok p'"
  by (cases ty)
    (auto simp: Let_def case_prod_beta peer_ok_set_queue peer_ok_Stop peer_ok_carry peer_ok_queue queue_ok_ops
      split: if_splits)

lemma peer_ok_send [simp]:
  "peer_ok (hub_broadcast E m p) = peer_ok p" "peer_ok (publish t m p) = peer_ok p"
  "peer_ok (snd (now_hlc p)) = peer_ok p" "peer_ok (snd (qc_Snapshot E p)) = peer_ok p"
  by (simp_all add: peer_ok_def)

lemma peer_ok_Handle [preserves]: "peer_ok p \<Longrightarrow> peer_ok (snd (Handle E cmd sender t p))"
  by (auto simp: Handle_def Let_def case_prod_beta peer_ok_React split: sum.split dest: peer_ok_switch)

lemma peer_ok_ApplyUpdate [preserves]: "peer_ok p \<Longrightarrow> peer_ok (snd (ApplyUpdate E u from p))"
  by (simp add: ApplyUpdate_def Let_def case_prod_beta peer_ok_React peer_ok_set_queue peer_ok_queue queue_ok_ops)

lemma completion_fields [simp, frame]:
  "nd (set_completion s c p) = nd p" "nd (del_completion s p) = nd p"
  "queue_of (set_completion s c p) = queue_of p" "queue_of (del_completion s p) = queue_of p"
  "rm_of (set_completion s c p) = rm_of p" "rm_of (del_completion s p) = rm_of p"
  "sm_of (set_completion s c p) = sm_of p" "sm_of (del_completion s p) = sm_of p"
  "streamCompletionStates (qc (set_completion s c p)) = mput (streamCompletionStates (qc p)) s c"
  "streamCompletionStates (qc (del_completion s p)) = mdel (streamCompletionStates (qc p)) s"
  "currentMediaSequence (qc (set_completion s c p)) = currentMediaSequence (qc p)"
  "currentMediaSequence (qc (del_completion s p)) = currentMediaSequence (qc p)"
  "ctrlTopicRef (qc (set_completion s c p)) = ctrlTopicRef (qc p)"
  "ctrlTopicRef (qc (del_completion s p)) = ctrlTopicRef (qc p)"
  "trace (set_completion s c p) = trace p" "trace (del_completion s p) = trace p"
  "ring (set_completion s c p) = ring p" "ring (del_completion s p) = ring p"
  by (simp_all add: set_completion_def del_completion_def queue_of_def)

lemma peer_ok_completion [simp]:
  "peer_ok (set_completion s c p) = peer_ok p" "peer_ok (del_completion s p) = peer_ok p"
  by (simp_all add: peer_ok_def)

lemma peer_ok_check [preserves]: "peer_ok p \<Longrightarrow> peer_ok (checkAndAttemptQueueAdvance E s p)"
  by (simp add: checkAndAttemptQueueAdvance_def Let_def case_prod_beta peer_ok_Handle split: option.split)

lemma peer_ok_Notify [preserves]:
  "peer_ok p \<Longrightarrow> peer_ok (NotifyEncoderFinished E s i p)"
  "peer_ok p \<Longrightarrow> peer_ok (NotifyPlayerStreamCompleted E s i p)"
  by (simp_all add: NotifyEncoderFinished_def NotifyPlayerStreamCompleted_def Let_def case_prod_beta peer_ok_check)

lemma runs_ok_filter: "runs_ok n \<Longrightarrow> runs_ok (n\<lparr>tasks := filter P (tasks n)\<rparr>)"
  by (auto simp: runs_ok_def distinct_map_filter)

lemma runs_ok_mark: "runs_ok n \<Longrightarrow>
  runs_ok (n\<lparr>encoderRunner := r, tasks := map (\<lambda>u. if t_ctx u = c then u\<lparr>t_entered := True\<rparr> else u) (tasks n)\<rparr>)"
  by (auto simp: runs_ok_def comp_def if_distrib [of t_ctx] cong: if_cong)

lemma peer_ok_task_end [preserves]: "peer_ok p \<Longrightarrow> peer_ok (task_end E c s r p)"
proof -
  assume "peer_ok p"
  then have ok: "peer_ok (on_node (\<lambda>n. n\<lparr>tasks := filter (\<lambda>t. t_ctx t \<noteq> c) (tasks n)\<rparr>) p)" (is "peer_ok ?p1")
    by (simp add: peer_ok_def runs_ok_filter)
  then have "peer_ok (on_node (\<lambda>n. n\<lparr>encoderLive := False\<rparr>) ?p1)" by (simp add: peer_ok_def)
  with ok show ?thesis
    unfolding task_end_def Let_def
    by (simp add: peer_ok_Notify(1) peer_ok_cong [OF UpdateGlobal_fields(1,2)])
qed

lemma peer_ok_enter [preserves]: "peer_ok p \<Longrightarrow> peer_ok (runner_enter E t p)"
  by (simp add: runner_enter_def Let_def peer_ok_task_end) (simp add: peer_ok_def runs_ok_mark)

lemma peer_ok_leave [preserves]: "peer_ok p \<Longrightarrow> peer_ok (runner_leave E t r p)"
  unfolding runner_leave_def by (rule peer_ok_task_end) (simp add: peer_ok_def)

datatype stream_step =
    StepHandle queue_cmd peer_id "string option"
  | StepApply queue_update peer_id
  | StepPlayerDone u32 peer_id
  | StepReact
  | StepEnter nat
  | StepLeave nat run_result
  | StepRoles role_manager
  | StepRing ring_buffer

text \<open>
  The role table and the ring buffer change in other components; here they may become anything.
  A step of a goroutine picks its task by context; without such a task nothing happens.
\<close>

definition task_of :: "nat \<Rightarrow> peer \<Rightarrow> task option" where
  "task_of c p = find (\<lambda>t. t_ctx t = c) (tasks (nd p))"

fun stream_exec :: "env \<Rightarrow> stream_step \<Rightarrow> peer \<Rightarrow> peer" where
  "stream_exec E (StepHandle cmd sender topic) p = snd (Handle E cmd sender topic p)"
| "stream_exec E (StepApply u from) p = snd (ApplyUpdate E u from p)"
| "stream_exec E (StepPlayerDone s i) p = NotifyPlayerStreamCompleted E s i p"
| "stream_exec E StepReact p = ReactToQueueUpdate E p"
| "stream_exec E (StepEnter c) p =
     (case task_of c p of None \<Rightarrow> p | Some t \<Rightarrow> if t_entered t then p else runner_enter E t p)"
| "stream_exec E (StepLeave c r) p =
     (case task_of c p of None \<Rightarrow> p | Some t \<Rightarrow> if t_entered t then runner_leave E t r p else p)"
| "stream_exec E (StepRoles rm) p = p\<lparr>rm_of := rm\<rparr>"
| "stream_exec E (StepRing r) p = p\<lparr>ring := r\<rparr>"

lemma external_fields [simp, frame]:
  "nd (p\<lparr>rm_of := rm\<rparr>) = nd p" "nd (p\<lparr>ring := r\<rparr>) = nd p"
  "queue_of (p\<lparr>rm_of := rm\<rparr>) = queue_of p" "queue_of (p\<lparr>ring := r\<rparr>) = queue_of p"
  "peer_ok (p\<lparr>rm_of := rm\<rparr>) = peer_ok p" "peer_ok (p\<lparr>ring := r\<rparr>) = peer_ok p"
  by (simp_all add: queue_of_def peer_ok_def)

lemma peer_ok_exec [preserves]: "peer_ok p \<Longrightarrow> peer_ok (stream_exec E st p)"
  by (cases st) (simp_all add: preserves split: option.split)

lemma peer_ok_fold: "peer_ok p \<Longrightarrow> peer_ok (fold (stream_exec E) sts p)"
  by (induction sts arbitrary: p) (simp_all add: peer_ok_exec)

lemma peer_ok_one_run:
  assumes "peer_ok p"
  shows "length (filter (\<lambda>t. t_ctx t \<notin> set (cancelled (nd p))) (tasks (nd p))) \<le> 1"
proof -
  let ?l = "filter (\<lambda>t. t_ctx t \<notin> set (cancelled (nd p))) (tasks (nd p))"
  have r: "runs_ok (nd p)" using assms by (simp add: peer_ok_def)
  have "distinct (map t_ctx ?l)" using r by (simp add: runs_ok_def distinct_map_filter)
  moreover have "set (map t_ctx ?l) \<subseteq> set_option (runnerCtx (nd p))"
    using r by (auto simp: runs_ok_def)
  moreover have "card (set_option (runnerCtx (nd p))) \<le> 1" by (cases "runnerCtx (nd p)") simp_all
  moreover have "finite (set_option (runnerCtx (nd p)))" by (cases "runnerCtx (nd p)") simp_all
  ultimately have "card (set (map t_ctx ?l)) \<le> 1" by (meson card_mono order_trans)
  with \<open>distinct (map t_ctx ?l)\<close> show ?thesis by (metis distinct_card length_map)
qed

lemma peer_ok_fresh: "peer_ok (p\<lparr>nd := NewNode h, qc := NewQueueController\<rparr>)"
  by (simp add: peer_ok_def NewNode_def NewQueueController_def runs_ok_def queue_of_def)

section \<open>New runs\<close>

text \<open>The run streams the current item of this peer, from the window's new base.\<close>

definition streams :: "task \<Rightarrow> peer \<Rightarrow> bool" where
  "streams t p \<longleftrightarrow> snd (Head (queue_of p)) \<and> FilePath (fst (Head (queue_of p))) = t_path t
     \<and> StoredBy (fst (Head (queue_of p))) = ID p \<and> FirstSeq (fst (Head (queue_of p))) = t_seq t
     \<and> Has (GetPermissionsForPeer (rm_of p) (ID p)) PermStream
     \<and> baseSeq (ring p) = t_seq t \<and> GetNextSeq (ring p) = t_seq t
     \<and> currentMediaSequence (qc p) = t_seq t \<and> runnerCtx (nd p) = Some (t_ctx t)"

definition new_runs_stream :: "peer \<Rightarrow> peer \<Rightarrow> bool" where
  "new_runs_stream p p' \<longleftrightarrow>
     (\<forall>t \<in> set (tasks (nd p')). t_ctx t \<in> t_ctx ` set (tasks (nd p)) \<or> streams t p')"

lemma Head_SetItem:
  "snd (Head q) \<Longrightarrow> Head (snd (SetItemAtCursor x q)) = (x, True)"
  by (auto simp: Head_def SetItemAtCursor_def Len_def split: if_splits)

lemma new_runs_React: "new_runs_stream p (ReactToQueueUpdate E p)"
proof (cases "\<exists>f. should_run f p \<and> f = FilePath (fst (Head (queue_of p))) \<and>
    \<not> already_running f (GetNextStartSequence p) p \<and> wants_run p")
  case True
  then obtain f where f: "should_run f p" "f = FilePath (fst (Head (queue_of p)))"
    "\<not> already_running f (GetNextStartSequence p) p" "wants_run p" by blast
  let ?s = "GetNextStartSequence p"
  have e: "ReactToQueueUpdate E p = start_run E f ?s (cancel_runner (announce_first_seq E ?s (with_runner p)))"
    using f by (simp add: React_unfold EnsureRunnerState_unfold)
  have h: "snd (Head (queue_of p))" using f by (simp add: should_run_def)
  have idp: "host_ID (nd (cancel_runner q)) = host_ID (nd q)" for q by (simp add: cancel_runner_nd)
  show ?thesis
    using f h unfolding e new_runs_stream_def streams_def
    by (auto simp: cancel_runner_nd ID_def case_prod_beta Head_SetItem should_run_def Reset_def GetNextSeq_def
        GetNextStartSequence_def)
next
  case False
  then have "tasks (nd (ReactToQueueUpdate E p)) = tasks (nd p)"
    by (auto simp: React_unfold EnsureRunnerState_unfold cancel_runner_nd)
  then show ?thesis by (auto simp: new_runs_stream_def)
qed

lemma new_runs_later:
  "new_runs_stream q p' \<Longrightarrow> t_ctx ` set (tasks (nd q)) \<subseteq> t_ctx ` set (tasks (nd p)) \<Longrightarrow> new_runs_stream p p'"
  by (auto simp: new_runs_stream_def)

lemma new_runs_none: "t_ctx ` set (tasks (nd p')) \<subseteq> t_ctx ` set (tasks (nd p)) \<Longrightarrow> new_runs_stream p p'"
  by (auto simp: new_runs_stream_def)

lemma new_runs_cong:
  assumes "new_runs_stream p p'" "nd p'' = nd p'" "queue_of p'' = queue_of p'" "rm_of p'' = rm_of p'"
    "ring p'' = ring p'" "currentMediaSequence (qc p'') = currentMediaSequence (qc p')"
  shows "new_runs_stream p p''"
  using assms by (simp add: new_runs_stream_def streams_def ID_def)

lemma switch_tasks: "queue_switch E cmd sender ty p = Inr (ch, p') \<Longrightarrow> tasks (nd p') = tasks (nd p)"
  by (cases ty) (auto simp: Let_def case_prod_beta split: if_splits)

lemma new_runs_Handle: "new_runs_stream p (snd (Handle E cmd sender topic p))"
proof (cases "fst (Handle E cmd sender topic p)")
  case (Inl e)
  then have "snd (Handle E cmd sender topic p) = p"
    by (auto simp: Handle_def Let_def case_prod_beta split: if_splits sum.splits)
  then show ?thesis by (simp add: new_runs_none)
next
  case (Inr u)
  then obtain ch p1 where sw: "queue_switch E cmd sender (qc_type cmd) p = Inr (ch, p1)"
    by (auto simp: Handle_def Let_def split: if_splits sum.splits)
  let ?p2 = "if ch then publish topic (fst (qc_Snapshot E p1))
      (hub_broadcast E (fst (qc_Snapshot E p1)) (snd (qc_Snapshot E p1))) else p1"
  have "snd (Handle E cmd sender topic p) = ReactToQueueUpdate E ?p2"
    using Inr sw by (auto simp: Handle_def Let_def case_prod_beta split: if_splits)
  moreover have "tasks (nd ?p2) = tasks (nd p)" using switch_tasks [OF sw] by simp
  ultimately show ?thesis using new_runs_later [OF new_runs_React, of ?p2 p E] by simp
qed

lemma new_runs_Apply: "new_runs_stream p (snd (ApplyUpdate E u from p))"
  by (auto simp: ApplyUpdate_def Let_def case_prod_beta new_runs_none intro!: new_runs_later [OF new_runs_React])

lemma new_runs_check: "new_runs_stream p (checkAndAttemptQueueAdvance E s p)"
proof -
  have "new_runs_stream p (del_completion s (snd (Handle E cmd i t (snd (now_hlc p)))))" for cmd i t
    by (rule new_runs_cong [OF new_runs_later [OF new_runs_Handle, of "snd (now_hlc p)" p]]) simp_all
  then show ?thesis
    by (auto simp: checkAndAttemptQueueAdvance_def Let_def case_prod_beta new_runs_none split: option.split)
qed

lemma new_runs_Notify:
  "new_runs_stream p (NotifyEncoderFinished E s i p)" "new_runs_stream p (NotifyPlayerStreamCompleted E s i p)"
  by (auto simp: NotifyEncoderFinished_def NotifyPlayerStreamCompleted_def Let_def case_prod_beta
      intro!: new_runs_later [OF new_runs_check])

lemma new_runs_task_end: "new_runs_stream p (task_end E c s r p)"
  by (auto simp: task_end_def Let_def intro!: new_runs_none new_runs_later [OF new_runs_Notify(1)])

lemma new_runs_enter: "new_runs_stream p (runner_enter E t p)"
  using new_runs_task_end [of p E "t_ctx t" "t_seq t" RunOk]
  by (auto simp: runner_enter_def Let_def new_runs_stream_def) (metis image_eqI)+

lemma new_runs_leave: "new_runs_stream p (runner_leave E t r p)"
  unfolding runner_leave_def by (rule new_runs_later [OF new_runs_task_end]) simp

lemma new_runs_exec: "new_runs_stream p (stream_exec E st p)"
  by (cases st) (simp_all add: new_runs_Handle new_runs_Apply new_runs_Notify new_runs_React new_runs_enter
      new_runs_leave new_runs_none split: option.split)

end
