(* ===== verification/Examples.thy ===== *)
theory Examples
  imports Peer
begin

text \<open>A concrete environment and concrete peers, for the instances that show a property can apply.\<close>

definition ex_env :: env where
  "ex_env = \<lparr>codec_of = plain_codec, join_ok = (\<lambda>_. True), send_ok = (\<lambda>_. True),
     ffprobe = (\<lambda>_. Some 9)\<rparr>"

definition ex_hlc :: hlc where
  "ex_hlc = \<lparr>hlc_time = 0, hlc_logical = 0, wall = (\<lambda>n. of_nat n), reads = 0\<rparr>"

text \<open>The peer \<open>self\<close> with a role table, a queue and a media sequence, no session and no client.\<close>

definition ex_peer :: "string \<Rightarrow> role_manager \<Rightarrow> queue \<Rightarrow> u32 \<Rightarrow> peer" where
  "ex_peer self rm q s =
     \<lparr>nd = (NewNode (PeerID self))\<lparr>ctrlTopic := Some ''ctrl''\<rparr>,
      qc = NewQueueController\<lparr>q_of := q, currentMediaSequence := s, ctrlTopicRef := Some ''ctrl''\<rparr>,
      rm_of = rm, ring = \<lparr>capacity = 2, baseSeq = 0, nextSeq = 0, buf = replicate 2 zero_segment,
        head = 0, events = [], publishEvents = True\<rparr>,
      hub_of = NewHub, sm_of = NewSessionManager, clk = ex_hlc, pendingDiscont = False,
      srv_ctrlTopic = Some ''ctrl'', srv_chatTopic = Some ''chat'', mdnsEnabled = False,
      mdnsStarted = False, trace = []\<rparr>"

definition ex_item :: "string \<Rightarrow> u32 \<Rightarrow> queue_item" where
  "ex_item self s = \<lparr>FilePath = ''a.mkv'', StoredBy = PeerID self, AddedBy = PeerID self, FirstSeq = s,
     NumSegs = 5, HlcTs = 1\<rparr>"

text \<open>Peer \<open>a\<close> holds every permission, \<open>b\<close> those of a viewer.\<close>

definition ex_roles :: role_manager where
  "ex_roles = NewRoleManager\<lparr>assignments :=
     [(PeerID ''a'', \<lparr>role_names = [''admin''], assign_ts = 1\<rparr>),
      (PeerID ''b'', \<lparr>role_names = [''viewer''], assign_ts = 1\<rparr>)]\<rparr>"

end
