(* ===== verification/QueueFlow.thy ===== *)
theory QueueFlow
  imports Streaming RoleReplication Examples
begin

text \<open>
  The properties of the queue controller and the encoder management of one peer
  (\<^verbatim>\<open>queue_controller.go\<close>, \<^verbatim>\<open>node.go\<close>): one encoder at a time, what a started encoder streams, who may
  change the queue, when the queue moves on, and the last known playback state.
\<close>

section \<open>Changes of the queue\<close>

text \<open>The queue up to the first sequence number, which the streamer fills in when it starts an item.\<close>

definition content :: "queue \<Rightarrow> queue" where
  "content q = q\<lparr>items := map (\<lambda>x. x\<lparr>FirstSeq := 0\<rparr>) (items q)\<rparr>"

lemma content_items: "content q = content q' \<Longrightarrow>
    map (\<lambda>x. x\<lparr>FirstSeq := 0\<rparr>) (Items q) = map (\<lambda>x. x\<lparr>FirstSeq := 0\<rparr>) (Items q')"
  by (cases q; cases q') (simp add: content_def Items_def)

lemma content_set_first: "Head q = (x, True) \<Longrightarrow> content (snd (SetItemAtCursor (x\<lparr>FirstSeq := s\<rparr>) q)) = content q"
  by (auto simp: Head_def SetItemAtCursor_def content_def Len_def map_update list_update_same_conv nth_map
      split: if_splits)

lemma content_announce [simp]: "content (queue_of (announce_first_seq E s p)) = content (queue_of p)"
  by (cases "Head (queue_of p)") (auto simp: content_set_first)

lemma content_Ensure [simp]: "content (queue_of (EnsureRunnerState E f s p)) = content (queue_of p)"
  using content_announce [of E s "with_runner p"] by (simp add: EnsureRunnerState_unfold)

lemma content_React [simp]: "content (queue_of (ReactToQueueUpdate E p)) = content (queue_of p)"
  by (simp add: React_unfold)

lemma queue_of_switch_NEXT: "queue_switch E cmd s NEXT p = Inr (ch, p') \<Longrightarrow> queue_of p' = snd (AdvanceCursor (queue_of p))"
  by (auto simp: Let_def case_prod_beta split: if_splits)

lemma Handle_allowed:
  assumes "content (queue_of (snd (Handle E cmd sender t p))) \<noteq> content (queue_of p)"
  shows "Has (GetPermissionsForPeer (rm_of p) sender) PermQueue \<or> qc_type cmd = NEXT \<and> sender = ID p"
  using assms by (auto simp: Handle_def Let_def split: if_splits)

lemma Handle_NEXT_content:
  assumes "qc_type cmd = NEXT" "sender = ID p"
  shows "content (queue_of (snd (Handle E cmd sender t p))) = content (snd (AdvanceCursor (queue_of p)))"
proof -
  obtain ch p' where s: "queue_switch E cmd sender NEXT p = Inr (ch, p')"
    by (simp add: Let_def case_prod_beta) (metis prod.collapse)
  from queue_of_switch_NEXT [OF s] show ?thesis
    using assms s by (simp add: Handle_def Let_def case_prod_beta del: queue_switch.simps)
qed

lemma ApplyUpdate_allowed:
  "content (queue_of (snd (ApplyUpdate E u from p))) \<noteq> content (queue_of p) \<Longrightarrow>
   Has (GetPermissionsForPeer (rm_of p) from) PermQueue"
  by (auto simp: ApplyUpdate_def split: if_splits)

lemma ID_cong: "host_ID (nd q) = host_ID (nd p) \<Longrightarrow> ID q = ID p"
  by (simp add: ID_def)

lemma check_content:
  "content (queue_of (checkAndAttemptQueueAdvance E s p)) = content (queue_of p) \<or>
   content (queue_of (checkAndAttemptQueueAdvance E s p)) = content (snd (AdvanceCursor (queue_of p)))"
  by (auto simp: checkAndAttemptQueueAdvance_def Let_def case_prod_beta Handle_NEXT_content split: option.split)

lemma Notify_content:
  "content (queue_of (NotifyEncoderFinished E s i p)) \<in> {content (queue_of p), content (snd (AdvanceCursor (queue_of p)))}"
  "content (queue_of (NotifyPlayerStreamCompleted E s i p)) \<in> {content (queue_of p), content (snd (AdvanceCursor (queue_of p)))}"
  using check_content [of E s "set_completion s ((completion_for s (snd (now_hlc p)))\<lparr>EncoderFinished := True,
      HlcTsEncoderFinished := fst (now_hlc p)\<rparr>) (snd (now_hlc p))"]
    check_content [of E s "set_completion s ((completion_for s p)\<lparr>PlayerCompletedByPeer :=
      mput (PlayerCompletedByPeer (completion_for s p)) i True\<rparr>) p"]
  by (simp_all add: NotifyEncoderFinished_def NotifyPlayerStreamCompleted_def Let_def case_prod_beta)

lemma task_end_content:
  "content (queue_of (task_end E c s r p)) \<in> {content (queue_of p), content (snd (AdvanceCursor (queue_of p)))}"
proof -
  let ?p1 = "on_node (\<lambda>n. n\<lparr>encoderLive := False\<rparr>) (on_node (\<lambda>n. n\<lparr>tasks := filter (\<lambda>t. t_ctx t \<noteq> c) (tasks n)\<rparr>) p)"
  show ?thesis
    using Notify_content(1) [of E s "ID ?p1" "UpdateGlobalMediaSequence (GetNextSeq (ring ?p1)) ?p1"]
    by (simp add: task_end_def Let_def)
qed

lemma enter_leave_content:
  "content (queue_of (runner_enter E t p)) \<in> {content (queue_of p), content (snd (AdvanceCursor (queue_of p)))}"
  "content (queue_of (runner_leave E t r p)) \<in> {content (queue_of p), content (snd (AdvanceCursor (queue_of p)))}"
  using task_end_content [of E "t_ctx t" "t_seq t" RunOk p] task_end_content [of E "t_ctx t" "t_seq t" r
      "on_node (\<lambda>n. n\<lparr>encoderRunner := Some ((the_runner p)\<lparr>er_isRunning := False\<rparr>)\<rparr>) p"]
  by (simp_all add: runner_enter_def runner_leave_def Let_def)

text \<open>Who asks for a step, and the steps with which a peer moves its own queue on.\<close>

fun issuer :: "stream_step \<Rightarrow> peer_id option" where
  "issuer (StepHandle cmd sender _) = Some sender"
| "issuer (StepApply u from) = Some from"
| "issuer _ = None"

fun own_advance :: "stream_step \<Rightarrow> peer \<Rightarrow> bool" where
  "own_advance (StepHandle cmd sender _) p = (qc_type cmd = NEXT \<and> sender = ID p)"
| "own_advance (StepApply u from) p = False"
| "own_advance (StepPlayerDone s i) p = True"
| "own_advance (StepEnter c) p = True"
| "own_advance (StepLeave c r) p = True"
| "own_advance _ p = False"

text \<open>
  C4. Who changes the queue. When a step changes the items or the cursor, either the step was asked
  for by a peer that holds \<open>PermQueue\<close> in this peer's role table, or it is the end of a stream or a
  \<open>NEXT\<close> of this peer itself, and then the items stay as they are and the cursor advances by one.
\<close>

theorem queue_change_authorised:
  assumes "content (queue_of (stream_exec E st p)) \<noteq> content (queue_of p)"
  shows "(\<exists>i. issuer st = Some i \<and> Has (GetPermissionsForPeer (rm_of p) i) PermQueue)
    \<or> own_advance st p \<and> content (queue_of (stream_exec E st p)) = content (snd (AdvanceCursor (queue_of p)))"
proof (cases st)
  case (StepHandle cmd sender t)
  then show ?thesis
    using assms Handle_allowed [of E cmd sender t p] Handle_NEXT_content [of cmd sender p E t] by auto
next
  case (StepApply u src)
  then show ?thesis using assms ApplyUpdate_allowed [of E u src p] by simp
next
  case (StepPlayerDone s i)
  then show ?thesis using assms Notify_content(2) [of E s i p] by simp
next
  case StepReact
  then show ?thesis using assms by simp
next
  case (StepEnter c)
  then show ?thesis
    using assms enter_leave_content(1) [of E _ p] by (auto split: option.splits if_splits)
next
  case (StepLeave c r)
  then show ?thesis
    using assms enter_leave_content(2) [of E _ r p] by (auto split: option.splits if_splits)
qed (use assms in simp_all)

section \<open>One encoder\<close>

text \<open>
  C2. One encoder. However queue commands, received updates, notifications, role changes between them
  and the entries and returns of the encoder goroutines interleave, at most one goroutine of this peer
  has a context that is not cancelled, and it is the one \<open>StopCurrentEncoder\<close> would cancel.
\<close>

theorem single_encoder:
  "let p = fold (stream_exec E) sts (p0\<lparr>nd := NewNode h, qc := NewQueueController\<rparr>);
       live = filter (\<lambda>t. t_ctx t \<notin> set (cancelled (nd p))) (tasks (nd p))
   in queue_ok (queue_of p) \<and> length live \<le> 1 \<and> map (\<lambda>t. Some (t_ctx t)) live \<in> {[], [runnerCtx (nd p)]}"
proof -
  let ?p = "fold (stream_exec E) sts (p0\<lparr>nd := NewNode h, qc := NewQueueController\<rparr>)"
  let ?live = "filter (\<lambda>t. t_ctx t \<notin> set (cancelled (nd ?p))) (tasks (nd ?p))"
  have ok: "peer_ok ?p" by (intro peer_ok_fold peer_ok_fresh)
  have le: "length ?live \<le> 1" by (rule peer_ok_one_run [OF ok])
  have "runnerCtx (nd ?p) = Some (t_ctx t)" if "t \<in> set ?live" for t
    using ok that by (auto simp: peer_ok_def runs_ok_def)
  with le have "map (\<lambda>t. Some (t_ctx t)) ?live \<in> {[], [runnerCtx (nd ?p)]}"
    by (cases ?live) auto
  with ok le show ?thesis by (simp add: peer_ok_def Let_def)
qed

section \<open>What a started encoder streams\<close>

lemma seq_mono_carry [simp]: "currentMediaSequence (qc p) \<le> currentMediaSequence (qc (stop_and_carry_seq p))"
  by (simp add: stop_and_carry_seq_def Let_def case_prod_beta)

lemma seq_mono_switch:
  "queue_switch E cmd s ty p = Inr (ch, p') \<Longrightarrow> currentMediaSequence (qc p) \<le> currentMediaSequence (qc p')"
  by (cases ty) (auto simp: Let_def case_prod_beta split: if_splits)

lemma seq_mono_Handle [simp]: "currentMediaSequence (qc p) \<le> currentMediaSequence (qc (snd (Handle E cmd s t p)))"
  by (auto simp: Handle_def Let_def case_prod_beta split: sum.split dest: seq_mono_switch)

lemma seq_mono_check [simp]:
  "currentMediaSequence (qc p) \<le> currentMediaSequence (qc (checkAndAttemptQueueAdvance E s p))"
proof -
  have "currentMediaSequence (qc p) \<le> currentMediaSequence (qc (snd (Handle E cmd i t (snd (now_hlc p)))))" for cmd i t
    using seq_mono_Handle [of "snd (now_hlc p)"] by simp
  then show ?thesis
    by (simp add: checkAndAttemptQueueAdvance_def Let_def case_prod_beta split: option.split)
qed

lemma seq_mono_Notify [simp]:
  "currentMediaSequence (qc p) \<le> currentMediaSequence (qc (NotifyEncoderFinished E s i p))"
  "currentMediaSequence (qc p) \<le> currentMediaSequence (qc (NotifyPlayerStreamCompleted E s i p))"
  by (simp_all add: NotifyEncoderFinished_def NotifyPlayerStreamCompleted_def Let_def case_prod_beta
      order_trans [OF _ seq_mono_check])

lemma seq_mono_task_end [simp]: "currentMediaSequence (qc p) \<le> currentMediaSequence (qc (task_end E c s r p))"
  by (auto simp: task_end_def Let_def intro: order_trans [OF _ seq_mono_Notify(1)])

lemma seq_mono_exec: "currentMediaSequence (qc p) \<le> currentMediaSequence (qc (stream_exec E st p))"
  by (cases st) (auto simp: ApplyUpdate_def Let_def case_prod_beta runner_enter_def runner_leave_def
      split: option.split intro: order_trans [OF _ seq_mono_task_end])

text \<open>
  C3. What a new encoder streams. Whatever step starts an encoder, it is for the item at the cursor,
  which this peer stores and may stream; its first segment number is the one announced in the queue and
  the base of the emptied ring buffer, and no smaller than the number the peer would have used before.
\<close>

theorem new_run_streams_head:
  assumes "t \<in> set (tasks (nd (stream_exec E st p)))" "t_ctx t \<notin> t_ctx ` set (tasks (nd p))"
  shows "streams t (stream_exec E st p) \<and> currentMediaSequence (qc p) \<le> t_seq t"
  using new_runs_exec [of p E st] seq_mono_exec [of p E st] assms
  by (auto simp: new_runs_stream_def streams_def)

section \<open>When the queue moves on\<close>

lemma completion_for_None [simp]: "mget (streamCompletionStates (qc p)) s = None \<Longrightarrow> completion_for s p = no_completion"
  by (simp add: completion_for_def)

lemma check_waits:
  assumes "Head (queue_of p) = (x, True)" "FirstSeq x = s" "mget (streamCompletionStates (qc p)) s = Some c"
    "\<not> (EncoderFinished c \<and> mget (PlayerCompletedByPeer c) (StoredBy x) = Some True)"
  shows "checkAndAttemptQueueAdvance E s p = p"
  using assms by (auto simp: checkAndAttemptQueueAdvance_def)

lemma check_advances:
  assumes "Head (queue_of p) = (x, True)" "FirstSeq x = s" "mget (streamCompletionStates (qc p)) s = Some c"
    "EncoderFinished c" "mget (PlayerCompletedByPeer c) (StoredBy x) = Some True" "ctrlTopicRef (qc p) \<noteq> None"
  shows "content (queue_of (checkAndAttemptQueueAdvance E s p)) = content (snd (AdvanceCursor (queue_of p)))"
    "mget (streamCompletionStates (qc (checkAndAttemptQueueAdvance E s p))) s = None"
  using assms by (auto simp: checkAndAttemptQueueAdvance_def Let_def case_prod_beta Handle_NEXT_content)

lemma check_ignores:
  assumes "Head (queue_of p) = (x, True)" "FirstSeq x \<noteq> s"
  shows "queue_of (checkAndAttemptQueueAdvance E s p) = queue_of p"
  using assms by (auto simp: checkAndAttemptQueueAdvance_def split: option.split)

definition encoder_done :: "i64 \<Rightarrow> completion \<Rightarrow> completion" where
  "encoder_done t c = c\<lparr>EncoderFinished := True, HlcTsEncoderFinished := t\<rparr>"

definition player_done :: "peer_id \<Rightarrow> completion \<Rightarrow> completion" where
  "player_done i c = c\<lparr>PlayerCompletedByPeer := mput (PlayerCompletedByPeer c) i True\<rparr>"

lemma done_fields [simp]:
  "EncoderFinished (encoder_done t c) = True" "PlayerCompletedByPeer (encoder_done t c) = PlayerCompletedByPeer c"
  "EncoderFinished (player_done i c) = EncoderFinished c"
  "PlayerCompletedByPeer (player_done i c) = mput (PlayerCompletedByPeer c) i True"
  "\<not> EncoderFinished no_completion" "PlayerCompletedByPeer no_completion = []"
  by (simp_all add: encoder_done_def player_done_def no_completion_def)

lemma Notify_unfold:
  "NotifyEncoderFinished E s i p = checkAndAttemptQueueAdvance E s
     (set_completion s (encoder_done (fst (now_hlc p)) (completion_for s p)) (snd (now_hlc p)))"
  "NotifyPlayerStreamCompleted E s i p = checkAndAttemptQueueAdvance E s
     (set_completion s (player_done i (completion_for s p)) p)"
  by (simp_all add: NotifyEncoderFinished_def NotifyPlayerStreamCompleted_def Let_def case_prod_beta
      encoder_done_def player_done_def completion_for_def)

lemma now_hlc_ctrlRef [simp]: "completion_for s (snd (now_hlc p)) = completion_for s p"
  "completion_for s (set_completion s c p) = c"
  by (simp_all add: completion_for_def)

text \<open>A notification that does not complete the stream is only recorded.\<close>

lemma Notify_waits:
  assumes "Head (queue_of p) = (x, True)" "FirstSeq x = s"
  shows "mget (PlayerCompletedByPeer (completion_for s p)) (StoredBy x) \<noteq> Some True \<Longrightarrow>
      NotifyEncoderFinished E s i p =
      set_completion s (encoder_done (fst (now_hlc p)) (completion_for s p)) (snd (now_hlc p))"
    "i \<noteq> StoredBy x \<and> mget (PlayerCompletedByPeer (completion_for s p)) (StoredBy x) \<noteq> Some True
       \<or> \<not> EncoderFinished (completion_for s p) \<Longrightarrow>
      NotifyPlayerStreamCompleted E s i p = set_completion s (player_done i (completion_for s p)) p"
  unfolding Notify_unfold using assms by (auto intro!: check_waits [where x = x])

lemma Notify_completes:
  assumes "Head (queue_of p) = (x, True)" "FirstSeq x = s" "ctrlTopicRef (qc p) \<noteq> None"
  shows "mget (PlayerCompletedByPeer (completion_for s p)) (StoredBy x) = Some True \<Longrightarrow>
      content (queue_of (NotifyEncoderFinished E s i p)) = content (snd (AdvanceCursor (queue_of p)))"
    "EncoderFinished (completion_for s p) \<Longrightarrow>
      content (queue_of (NotifyPlayerStreamCompleted E s (StoredBy x) p)) = content (snd (AdvanceCursor (queue_of p)))"
  using assms check_advances(1) [of "set_completion s (encoder_done (fst (now_hlc p)) (completion_for s p)) (snd (now_hlc p))"
      x s "encoder_done (fst (now_hlc p)) (completion_for s p)" E]
    check_advances(1) [of "set_completion s (player_done (StoredBy x) (completion_for s p)) p"
      x s "player_done (StoredBy x) (completion_for s p)" E]
  by (auto simp: Notify_unfold)


text \<open>
  The code decides under the lock of the completion states and acts after it has released it; the model does both in one step. Of two notifications
  that overlap, the encoder's end and the player's, both can decide before either acts; then the queue advances twice and skips an item.
\<close>

definition advance_due :: "u32 \<Rightarrow> peer \<Rightarrow> bool" where
  "advance_due s p =
     (case (mget (streamCompletionStates (qc p)) s, Head (queue_of p)) of
        (Some c, (x, ok)) \<Rightarrow> ok \<and> FirstSeq x = s \<and> EncoderFinished c \<and> mget (PlayerCompletedByPeer c) (StoredBy x) = Some True
      | _ \<Rightarrow> False)"

definition advance_now :: "env \<Rightarrow> u32 \<Rightarrow> peer \<Rightarrow> peer" where
  "advance_now E s p =
     (let (t, p1) = now_hlc p;
          cmd = \<lparr>qc_type = NEXT, qc_file_path = '''', qc_index = 0, qc_hlc_ts = t\<rparr>
      in del_completion s (snd (Handle E cmd (ID p1) (ctrlTopicRef (qc p1)) p1)))"

lemma check_is_decide_and_act:
  "advance_due s p \<Longrightarrow> ctrlTopicRef (qc p) \<noteq> None \<Longrightarrow> checkAndAttemptQueueAdvance E s p = advance_now E s p"
  by (auto simp: advance_due_def advance_now_def checkAndAttemptQueueAdvance_def Let_def split: option.splits prod.splits)

lemma advance_now_content: "content (queue_of (advance_now E s p)) = content (snd (AdvanceCursor (queue_of p)))"
  by (simp add: advance_now_def Let_def case_prod_beta Handle_NEXT_content)

lemma AdvanceCursor_content: "content (snd (AdvanceCursor q)) = snd (AdvanceCursor (content q))"
  by (simp add: content_def AdvanceCursor_def Let_def Len_def)

lemma overlapping_notifications_skip:
  "content (queue_of (advance_now E s (advance_now E s p))) = content (snd (AdvanceCursor (snd (AdvanceCursor (queue_of p)))))"
  by (simp add: advance_now_content AdvanceCursor_content)

section \<open>An item that starts over\<close>

lemma ID_with [simp]: "ID (announce_first_seq E s p) = ID p" "ID (cancel_runner p) = ID p" "ID (start_run E f s p) = ID p"
  by (simp_all add: ID_def cancel_runner_nd)

lemma React_starts:
  assumes "wants_run p" "Head (queue_of p) = (x, True)" "FilePath x \<noteq> []"
    "\<not> already_running (FilePath x) (GetNextStartSequence p) p"
  shows "ReactToQueueUpdate E p = start_run E (FilePath x) (GetNextStartSequence p)
     (cancel_runner (announce_first_seq E (GetNextStartSequence p) (with_runner p)))"
    and "Head (queue_of (ReactToQueueUpdate E p)) = (x\<lparr>FirstSeq := currentMediaSequence (qc p)\<rparr>, True)"
proof -
  have "should_run (FilePath x) p" using assms by (simp add: should_run_def wants_run_def)
  then show e: "ReactToQueueUpdate E p = start_run E (FilePath x) (GetNextStartSequence p)
     (cancel_runner (announce_first_seq E (GetNextStartSequence p) (with_runner p)))"
    using assms by (simp add: React_unfold EnsureRunnerState_unfold)
  show "Head (queue_of (ReactToQueueUpdate E p)) = (x\<lparr>FirstSeq := currentMediaSequence (qc p)\<rparr>, True)"
    unfolding e using assms by (simp add: Head_SetItem GetNextStartSequence_def)
qed

text \<open>
  A queue event between the two ends of a stream plays the item again. When the encoder of the
  current item is done and the media sequence has moved past it, anything that makes the controller look
  at the queue (an \<open>APPEND\<close> is enough) starts the item from the beginning under a new first sequence
  number, and the player's later report for the finished stream changes nothing.
\<close>

theorem finished_item_restarts:
  assumes "wants_run p" "Head (queue_of p) = (x, True)" "FilePath x \<noteq> []" "\<not> er_isRunning (the_runner p)"
    "FirstSeq x < currentMediaSequence (qc p)"
  shows "let p' = ReactToQueueUpdate E p
     in (\<exists>t. tasks (nd p') = tasks (nd p) @ [t] \<and> t_path t = FilePath x \<and> t_seq t = currentMediaSequence (qc p))
      \<and> queue_of (NotifyPlayerStreamCompleted E (FirstSeq x) i p') = queue_of p'"
proof -
  let ?p' = "ReactToQueueUpdate E p"
  have st: "\<not> already_running (FilePath x) (GetNextStartSequence p) p"
    using assms(4) by (simp add: already_running_def)
  have "\<exists>t. tasks (nd ?p') = tasks (nd p) @ [t] \<and> t_path t = FilePath x \<and> t_seq t = currentMediaSequence (qc p)"
    unfolding React_starts(1) [OF assms(1-3) st] by (simp add: cancel_runner_nd GetNextStartSequence_def)
  moreover have "queue_of (NotifyPlayerStreamCompleted E (FirstSeq x) i ?p') = queue_of ?p'"
    unfolding Notify_unfold
    using React_starts(2) [OF assms(1-3) st, of E] assms(5)
    by (subst check_ignores [where x = "x\<lparr>FirstSeq := currentMediaSequence (qc p)\<rparr>"]) auto
  ultimately show ?thesis by (simp add: Let_def)
qed

section \<open>A start the peer takes for an end\<close>

lemma React_nd:
  assumes "wants_run p" "Head (queue_of p) = (x, True)" "FilePath x \<noteq> []"
    "\<not> already_running (FilePath x) (GetNextStartSequence p) p"
  shows "nd (ReactToQueueUpdate E p) = (nd p)\<lparr>encoderRunner := Some (the_runner p), encoderLive := True,
      cancelled := (case runnerCtx (nd p) of None \<Rightarrow> [] | Some c \<Rightarrow> [c]) @ cancelled (nd p),
      runnerCtx := Some (nextCtx (nd p)), nextCtx := Suc (nextCtx (nd p)),
      tasks := tasks (nd p) @ [\<lparr>t_ctx = nextCtx (nd p), t_path = FilePath x,
        t_seq = GetNextStartSequence p, t_entered = False\<rparr>]\<rparr>"
    "GetNextSeq (ring (ReactToQueueUpdate E p)) = currentMediaSequence (qc p)"
    "wants_run (ReactToQueueUpdate E p)"
    "the_runner (ReactToQueueUpdate E p) = the_runner p"
    "GetNextStartSequence (ReactToQueueUpdate E p) = GetNextStartSequence p"
proof -
  note e = React_starts(1) [OF assms]
  show n: "nd (ReactToQueueUpdate E p) = (nd p)\<lparr>encoderRunner := Some (the_runner p), encoderLive := True,
      cancelled := (case runnerCtx (nd p) of None \<Rightarrow> [] | Some c \<Rightarrow> [c]) @ cancelled (nd p),
      runnerCtx := Some (nextCtx (nd p)), nextCtx := Suc (nextCtx (nd p)),
      tasks := tasks (nd p) @ [\<lparr>t_ctx = nextCtx (nd p), t_path = FilePath x,
        t_seq = GetNextStartSequence p, t_entered = False\<rparr>]\<rparr>"
    unfolding e by (simp add: cancel_runner_nd)
  show "GetNextSeq (ring (ReactToQueueUpdate E p)) = currentMediaSequence (qc p)"
    unfolding e by (simp add: Reset_def GetNextSeq_def GetNextStartSequence_def)
  show "wants_run (ReactToQueueUpdate E p)"
    using assms by (simp add: wants_run_def React_starts(2) [OF assms] ID_def)
  show "the_runner (ReactToQueueUpdate E p) = the_runner p" by (simp add: the_runner_def n)
  show "GetNextStartSequence (ReactToQueueUpdate E p) = GetNextStartSequence p"
    by (simp add: GetNextStartSequence_def)
qed

text \<open>
  Two looks at the queue before the encoder goroutine runs lose the stream. When the controller reacts
  twice before the first goroutine has entered \<open>EncoderRunner.Start\<close>, it starts two; the first, already
  cancelled, marks the runner as running, and the second finds its own task running, returns without
  encoding anything and is taken for a stream that ended: the completion of the item at the cursor is
  recorded although not one segment was produced, and no goroutine with a live context is left.
\<close>

theorem double_react_ends_stream:
  assumes "wants_run p" "Head (queue_of p) = (x, True)" "FilePath x \<noteq> []" "\<not> er_isRunning (the_runner p)"
    "tasks (nd p) = []" "peer_ok p"
    "mget (streamCompletionStates (qc p)) (currentMediaSequence (qc p)) = None"
  shows "let p2 = ReactToQueueUpdate E (ReactToQueueUpdate E p);
      p4 = stream_exec E (StepEnter (Suc (nextCtx (nd p)))) (stream_exec E (StepEnter (nextCtx (nd p))) p2);
      s = currentMediaSequence (qc p)
    in EncoderFinished (completion_for s p4) \<and> FirstSeq (fst (Head (queue_of p4))) = s
      \<and> GetNextSeq (ring p4) = s \<and> filter (\<lambda>t. t_ctx t \<notin> set (cancelled (nd p4))) (tasks (nd p4)) = []"
proof -
  let ?p1 = "ReactToQueueUpdate E p" and ?s = "currentMediaSequence (qc p)" and ?n = "nextCtx (nd p)"
  let ?p2 = "ReactToQueueUpdate E ?p1"
  have nr: "\<not> already_running f q p" for f q using assms(4) by (simp add: already_running_def)
  note r1 = React_nd [OF assms(1-3) nr, of E]
  let ?x = "x\<lparr>FirstSeq := ?s\<rparr>"
  have h1: "Head (queue_of ?p1) = (?x, True)" by (rule React_starts(2) [OF assms(1-3) nr])
  have nr1: "\<not> already_running f q ?p1" for f q using assms(4) by (simp add: already_running_def r1)
  have f1: "FilePath ?x \<noteq> []" using assms(3) by simp
  note r2 = React_nd [OF r1(3) h1 f1 nr1, of E]
  have h2: "Head (queue_of ?p2) = (?x, True)" using React_starts(2) [OF r1(3) h1 f1 nr1, of E] by simp
  let ?t1 = "\<lparr>t_ctx = ?n, t_path = FilePath x, t_seq = ?s, t_entered = False\<rparr>"
  let ?t2 = "\<lparr>t_ctx = Suc ?n, t_path = FilePath x, t_seq = ?s, t_entered = False\<rparr>"
  let ?run = "\<lparr>er_isRunning = True, er_currentPath = FilePath x, er_currentSeqBase = ?s\<rparr>"
  have ts2: "tasks (nd ?p2) = [?t1, ?t2]" "runnerCtx (nd ?p2) = Some (Suc ?n)"
    "set (cancelled (nd ?p2)) = insert ?n (set_option (runnerCtx (nd p)) \<union> set (cancelled (nd p)))"
    using assms(5) by (auto simp: r1 r2 GetNextStartSequence_def split: option.split)
  have run2: "the_runner ?p2 = the_runner p" by (simp add: r1 r2)
  let ?p3 = "on_node (\<lambda>n. n\<lparr>encoderRunner := Some ?run, tasks := [?t1\<lparr>t_entered := True\<rparr>, ?t2]\<rparr>) ?p2"
  have p3: "stream_exec E (StepEnter ?n) ?p2 = ?p3"
    using assms(4) by (simp add: task_of_def ts2(1) runner_enter_def run2 on_node_def)
  let ?q = "on_node (\<lambda>n. n\<lparr>encoderLive := False\<rparr>)
      (on_node (\<lambda>n. n\<lparr>tasks := filter (\<lambda>t. t_ctx t \<noteq> Suc ?n) (tasks n)\<rparr>) ?p3)"
  let ?u = "UpdateGlobalMediaSequence (GetNextSeq (ring ?q)) ?q"
  have fresh: "Suc ?n \<notin> set (cancelled (nd ?p2))"
    using assms(6) by (auto simp: ts2(3) peer_ok_def runs_ok_def)
  have p4: "stream_exec E (StepEnter (Suc ?n)) ?p3 = NotifyEncoderFinished E ?s (ID ?q) ?u"
    using fresh by (simp add: task_of_def runner_enter_def the_runner_def task_end_def ts2(2) Let_def)
  have hu: "Head (queue_of ?u) = (?x, True)" by (simp add: h2)
  have cu: "completion_for ?s ?u = no_completion" using assms(7) by (simp add: completion_for_def)
  have ring: "GetNextSeq (ring ?p2) = ?s" using r2(2) by simp
  have "NotifyEncoderFinished E ?s (ID ?q) ?u = set_completion ?s (encoder_done (fst (now_hlc ?u)) no_completion) (snd (now_hlc ?u))"
    unfolding cu [symmetric] by (rule Notify_waits(1) [OF hu]) (simp_all only: cu done_fields, simp_all)
  then show ?thesis
    unfolding Let_def p3 p4 by (simp add: h2 ts2 ring)
qed

section \<open>The last known playback state\<close>

definition playback_entry :: "u32 \<Rightarrow> peer \<Rightarrow> u32 \<Rightarrow> (bool \<times> int) option" where
  "playback_entry stream p k =
     (let i = lastKnownPlaybackState (qc p)
      in if k = stream \<and> pi_stream i = stream then Some (pi_playing i, sint (pi_hlc i)) else None)"

definition deliver_playback :: "set_playback_state \<Rightarrow> peer \<Rightarrow> peer" where
  "deliver_playback s = UpdateLastKnownPlaybackState (Some s)"

lemma deliver_playback_state:
  "lastKnownPlaybackState (qc (deliver_playback s p)) =
     (let i = lastKnownPlaybackState (qc p)
      in if pi_hlc i <s sp_hlc_ts s \<or> sp_stream_seq s \<noteq> pi_stream i
         then \<lparr>pi_stream = sp_stream_seq s, pi_playing = sp_is_playing s, pi_hlc = sp_hlc_ts s\<rparr> else i)"
  by (simp add: deliver_playback_def UpdateLastKnownPlaybackState_def Let_def)

interpretation playback: lww_store deliver_playback "playback_entry stream" sp_stream_seq sp_is_playing
  "\<lambda>s. sint (sp_hlc_ts s)" "\<lambda>p s. sp_stream_seq s = stream" for stream
proof unfold_locales
  fix p :: peer and u :: set_playback_state
  let ?i = "lastKnownPlaybackState (qc p)"
  assume v: "sp_stream_seq u = stream"
    and new: "\<And>v t. playback_entry stream p (sp_stream_seq u) = Some (v, t) \<Longrightarrow> t < sint (sp_hlc_ts u)"
  have "pi_hlc ?i <s sp_hlc_ts u \<or> sp_stream_seq u \<noteq> pi_stream ?i"
    using new [of "pi_playing ?i" "sint (pi_hlc ?i)"] v by (auto simp: playback_entry_def word_sless_alt Let_def)
  then show "playback_entry stream (deliver_playback u p) =
      (playback_entry stream p)(sp_stream_seq u \<mapsto> (sp_is_playing u, sint (sp_hlc_ts u)))"
    using v by (simp add: playback_entry_def deliver_playback_state Let_def fun_eq_iff)
qed (auto simp: playback_entry_def deliver_playback_state Let_def word_sless_alt fun_eq_iff split: if_splits)

text \<open>
  C30. The commands of one stream converge. Two peers that see the same playback commands for one stream in
  different orders, whatever other stream they knew before, end with the same playback state, if
  commands with the same timestamp agree; and that state is the command with the highest timestamp.
\<close>

theorem playback_state_converges:
  assumes "mset us = mset us'" "\<forall>u \<in> set us. sp_stream_seq u = stream"
    "\<And>u u'. u \<in> set us \<Longrightarrow> u' \<in> set us \<Longrightarrow> sp_hlc_ts u = sp_hlc_ts u' \<Longrightarrow> u = u'"
    "u \<in> set us" "\<And>u'. u' \<in> set us \<Longrightarrow> sp_hlc_ts u' \<noteq> sp_hlc_ts u \<Longrightarrow> sp_hlc_ts u' <s sp_hlc_ts u"
    "pi_stream (lastKnownPlaybackState (qc p)) \<noteq> stream" "pi_stream (lastKnownPlaybackState (qc p')) \<noteq> stream"
  shows "lastKnownPlaybackState (qc (fold deliver_playback us p)) = lastKnownPlaybackState (qc (fold deliver_playback us' p'))
    \<and> lastKnownPlaybackState (qc (fold deliver_playback us p)) =
      \<lparr>pi_stream = stream, pi_playing = sp_is_playing u, pi_hlc = sp_hlc_ts u\<rparr>"
proof -
  have state: "lastKnownPlaybackState (qc q) = \<lparr>pi_stream = stream, pi_playing = b, pi_hlc = t\<rparr>"
    if "playback_entry stream q stream = Some (b, sint t)" for q b t
    using that by (auto simp: playback_entry_def Let_def signed_word_eqI split: if_splits)
  have newest: "lastKnownPlaybackState (qc (fold deliver_playback vs q)) =
      \<lparr>pi_stream = stream, pi_playing = sp_is_playing u, pi_hlc = sp_hlc_ts u\<rparr>"
    if "set vs = set us" "pi_stream (lastKnownPlaybackState (qc q)) \<noteq> stream" for vs q
  proof (rule state)
    have us: "sp_stream_seq u = stream" using assms(2,4) by simp
    have "playback_entry stream (fold deliver_playback vs q) (sp_stream_seq u) =
        Some (sp_is_playing u, sint (sp_hlc_ts u))"
    proof (rule playback.newest_wins)
      fix u' assume "u' \<in> set vs" "u' \<noteq> u"
      then have "sp_hlc_ts u' \<noteq> sp_hlc_ts u" using assms(3) [of u' u] assms(4) that(1) by auto
      then show "sint (sp_hlc_ts u') < sint (sp_hlc_ts u)"
        using assms(5) [of u'] \<open>u' \<in> set vs\<close> that(1) by (simp add: word_sless_alt)
    qed (use that assms(2,4) in \<open>auto simp: playback_entry_def Let_def split: if_splits\<close>)
    then show "playback_entry stream (fold deliver_playback vs q) stream = Some (sp_is_playing u, sint (sp_hlc_ts u))"
      by (simp add: us)
  qed
  have "set us' = set us" using assms(1) by (metis set_mset_mset)
  then show ?thesis using newest [of us p] newest [of us' p'] assms(6,7) by simp
qed

section \<open>Witnesses\<close>

definition ex_queue :: "u32 \<Rightarrow> queue" where
  "ex_queue s = \<lparr>items = [ex_item ''a'' s, ex_item ''b'' 0], cursor = 0\<rparr>"

definition ex_streamer :: peer where
  "ex_streamer = ex_peer ''a'' ex_roles (ex_queue 3) 7"

lemma ex_streamer_facts:
  "wants_run ex_streamer" "Head (queue_of ex_streamer) = (ex_item ''a'' 3, True)"
  "FilePath (ex_item ''a'' 3) \<noteq> []" "\<not> er_isRunning (the_runner ex_streamer)" "tasks (nd ex_streamer) = []"
  "peer_ok ex_streamer" "mget (streamCompletionStates (qc ex_streamer)) s = None"
  "currentMediaSequence (qc ex_streamer) = 7" "ctrlTopicRef (qc ex_streamer) \<noteq> None"
  "StoredBy (ex_item ''a'' 3) = PeerID ''a''" "FirstSeq (ex_item ''a'' 3) = 3"
proof -
  show "wants_run ex_streamer" by code_simp
qed (simp_all add: ex_streamer_def ex_peer_def ex_queue_def ex_item_def Head_def queue_of_def the_runner_def
    NewNode_def NewQueueController_def fresh_runner_def peer_ok_def runs_ok_def queue_ok_def)

definition ex_append :: queue_cmd where
  "ex_append = \<lparr>qc_type = APPEND, qc_file_path = ''c.mkv'', qc_index = 0, qc_hlc_ts = 1\<rparr>"

lemma ex_append_changes:
  "content (queue_of (stream_exec ex_env (StepHandle ex_append (PeerID ''a'') None) ex_streamer))
     \<noteq> content (queue_of ex_streamer)"
  by code_simp

theorem queue_change_authorised_witness:
  "(\<exists>i. issuer (StepHandle ex_append (PeerID ''a'') None) = Some i \<and> Has (GetPermissionsForPeer (rm_of ex_streamer) i) PermQueue)
    \<or> own_advance (StepHandle ex_append (PeerID ''a'') None) ex_streamer \<and>
      content (queue_of (stream_exec ex_env (StepHandle ex_append (PeerID ''a'') None) ex_streamer))
        = content (snd (AdvanceCursor (queue_of ex_streamer)))"
  by (rule queue_change_authorised [OF ex_append_changes])

theorem new_run_streams_head_witness:
  "streams \<lparr>t_ctx = 0, t_path = ''a.mkv'', t_seq = 7, t_entered = False\<rparr> (stream_exec ex_env StepReact ex_streamer)"
proof -
  have "\<not> already_running f q ex_streamer" for f q
    using ex_streamer_facts(4) by (simp add: already_running_def)
  from React_nd(1) [OF ex_streamer_facts(1-3) this, of ex_env]
  have "tasks (nd (stream_exec ex_env StepReact ex_streamer)) = [\<lparr>t_ctx = 0, t_path = ''a.mkv'', t_seq = 7, t_entered = False\<rparr>]"
    using ex_streamer_facts(5,8) by (simp add: GetNextStartSequence_def) (simp add: ex_streamer_def ex_peer_def NewNode_def ex_item_def)
  then show ?thesis
    using new_run_streams_head [of "\<lparr>t_ctx = 0, t_path = ''a.mkv'', t_seq = 7, t_entered = False\<rparr>" ex_env StepReact ex_streamer]
      ex_streamer_facts(5) by simp
qed


theorem finished_item_restarts_witness:
  "let p' = ReactToQueueUpdate ex_env ex_streamer
   in (\<exists>t. tasks (nd p') = [t] \<and> t_path t = ''a.mkv'' \<and> t_seq t = 7)
    \<and> queue_of (NotifyPlayerStreamCompleted ex_env 3 (PeerID ''a'') p') = queue_of p'"
  using finished_item_restarts [OF ex_streamer_facts(1-4), of ex_env "PeerID ''a''"] ex_streamer_facts(5,8,11)
  by (simp add: Let_def ex_item_def)

theorem double_react_ends_stream_witness:
  "EncoderFinished (completion_for 7 (stream_exec ex_env (StepEnter 1) (stream_exec ex_env (StepEnter 0)
     (ReactToQueueUpdate ex_env (ReactToQueueUpdate ex_env ex_streamer)))))"
proof -
  have "nextCtx (nd ex_streamer) = 0" by (simp add: ex_streamer_def ex_peer_def NewNode_def)
  then show ?thesis
    using double_react_ends_stream [OF ex_streamer_facts(1-6) ex_streamer_facts(7), of ex_env] ex_streamer_facts(8)
    by (simp add: Let_def)
qed

definition ex_playback :: "bool \<Rightarrow> i64 \<Rightarrow> set_playback_state" where
  "ex_playback b t = \<lparr>sp_time_pos = 0, sp_is_playing = b, sp_speed = 1, sp_hlc_ts = t, sp_stream_seq = 3\<rparr>"

theorem playback_state_converges_witness:
  "lastKnownPlaybackState (qc (fold deliver_playback [ex_playback True 5, ex_playback False 6] ex_streamer)) =
   lastKnownPlaybackState (qc (fold deliver_playback [ex_playback False 6, ex_playback True 5] ex_streamer))"
proof -
  have pi: "pi_stream (lastKnownPlaybackState (qc ex_streamer)) \<noteq> 3"
    by (simp add: ex_streamer_def ex_peer_def NewQueueController_def)
  show ?thesis
    by (rule playback_state_converges [where stream = 3 and u = "ex_playback False 6", THEN conjunct1])
      (use pi in \<open>auto simp: ex_playback_def\<close>)
qed

end
