(* ===== verification/NodeTopics.thy ===== *)
theory NodeTopics
  imports Examples
begin

text \<open>
  The session and the topics of a node, and its traffic counters: the rest of
  \<^verbatim>\<open>peer_service/internal/p2p/node.go\<close>. Whether \<^verbatim>\<open>pubsub.Join\<close> succeeds for a topic name is the parameter
  \<open>join_ok\<close> of the environment; a failing join returns no topic. \<open>JoinTopic\<close> and \<open>CloseTopic\<close> in the
  trace record the joins that succeeded and every call of \<^verbatim>\<open>Topic.Close\<close>.
\<close>

section \<open>Operations\<close>

definition SetCurrentSessionID :: "string \<Rightarrow> peer \<Rightarrow> peer" where
  "SetCurrentSessionID sid p = on_node (\<lambda>n. n\<lparr>currentSessionID := sid\<rparr>) p"

definition GetCurrentSessionID :: "peer \<Rightarrow> string" where
  "GetCurrentSessionID p = currentSessionID (nd p)"

definition VideoTopic :: "peer \<Rightarrow> string option" where "VideoTopic p = videoTopic (nd p)"
definition ChatTopic :: "peer \<Rightarrow> string option" where "ChatTopic p = chatTopic (nd p)"
definition CtrlTopic :: "peer \<Rightarrow> string option" where "CtrlTopic p = ctrlTopic (nd p)"

definition AddBytesUp :: "u64 \<Rightarrow> peer \<Rightarrow> peer" where
  "AddBytesUp b p = on_node (\<lambda>n. n\<lparr>bytesUp := bytesUp n + b\<rparr>) p"

definition AddBytesDown :: "u64 \<Rightarrow> peer \<Rightarrow> peer" where
  "AddBytesDown b p = on_node (\<lambda>n. n\<lparr>bytesDown := bytesDown n + b\<rparr>) p"

definition Traffic :: "peer \<Rightarrow> u64 \<times> u64" where
  "Traffic p = (bytesUp (nd p), bytesDown (nd p))"

definition EncoderLive :: "peer \<Rightarrow> bool" where
  "EncoderLive p = encoderLive (nd p)"

definition chat_name :: "string \<Rightarrow> string" where "chat_name sid = ''/p2ptogether/chat/'' @ sid"
definition ctrl_name :: "string \<Rightarrow> string" where "ctrl_name sid = ''/p2ptogether/control/'' @ sid"
definition video_name :: "string \<Rightarrow> string" where "video_name sid = ''/p2ptogether/video/'' @ sid"

definition close_topic :: "string option \<Rightarrow> peer \<Rightarrow> peer" where
  "close_topic t p = (case t of None \<Rightarrow> p | Some x \<Rightarrow> p\<lparr>trace := trace p @ [CloseTopic x]\<rparr>)"

definition ps_join :: "env \<Rightarrow> string \<Rightarrow> peer \<Rightarrow> string option \<times> peer" where
  "ps_join E x p = (if join_ok E x then (Some x, p\<lparr>trace := trace p @ [JoinTopic x]\<rparr>) else (None, p))"

definition topic_is :: "string option \<Rightarrow> string \<Rightarrow> bool" where
  "topic_is t suffix = (case t of None \<Rightarrow> False | Some x \<Rightarrow> has_suffix x suffix)"

text \<open>The block that gives up the topics of the previous session.\<close>

definition leave_topics :: "peer \<Rightarrow> peer" where
  "leave_topics p =
     (if GetCurrentSessionID p = ''default'' then
        on_node (\<lambda>n. n\<lparr>defaultChatTopic := chatTopic n, defaultCtrlTopic := ctrlTopic n,
                       defaultVideoTopic := videoTopic n,
                       chatTopic := None, ctrlTopic := None, videoTopic := None\<rparr>) p
      else
        on_node (\<lambda>n. n\<lparr>chatTopic := None, ctrlTopic := None, videoTopic := None\<rparr>)
          (close_topic (videoTopic (nd p)) (close_topic (ctrlTopic (nd p)) (close_topic (chatTopic (nd p)) p))))"

text \<open>The joins of the three topics, each failure closing the ones joined before it.\<close>

definition join_topics :: "env \<Rightarrow> string \<Rightarrow> peer \<Rightarrow> bool \<times> peer" where
  "join_topics E sid p0 =
     (let (chat, p1) = ps_join E (chat_name sid) p0;
          p1 = on_node (\<lambda>n. n\<lparr>chatTopic := chat\<rparr>) p1
      in if chat = None then (False, p1)
         else
           (let (ctrl, p2) = ps_join E (ctrl_name sid) p1;
                p2 = on_node (\<lambda>n. n\<lparr>ctrlTopic := ctrl\<rparr>) p2
            in if ctrl = None then (False, close_topic chat p2)
               else
                 (let (video, p3) = ps_join E (video_name sid) p2;
                      p3 = on_node (\<lambda>n. n\<lparr>videoTopic := video\<rparr>) p3
                  in if video = None then (False, close_topic ctrl (close_topic chat p3))
                     else
                       (let p4 = on_node (\<lambda>n. n\<lparr>currentSessionID := sid\<rparr>) p3
                        in (True, if sid = ''default''
                                  then on_node (\<lambda>n. n\<lparr>defaultChatTopic := chatTopic n,
                                         defaultCtrlTopic := ctrlTopic n, defaultVideoTopic := videoTopic n\<rparr>) p4
                                  else p4)))))"

text \<open>\<open>False\<close> is an error return.\<close>

definition JoinSessionTopics :: "env \<Rightarrow> string \<Rightarrow> peer \<Rightarrow> bool \<times> peer" where
  "JoinSessionTopics E sid p =
     (if GetCurrentSessionID p = sid
         \<and> topic_is (chatTopic (nd p)) (''/chat/'' @ sid)
         \<and> topic_is (ctrlTopic (nd p)) (''/control/'' @ sid)
         \<and> topic_is (videoTopic (nd p)) (''/video/'' @ sid)
      then (True, p)
      else
        (let p1 = leave_topics p
         in if sid = ''default'' \<and> defaultChatTopic (nd p1) \<noteq> None \<and> defaultCtrlTopic (nd p1) \<noteq> None
               \<and> defaultVideoTopic (nd p1) \<noteq> None
            then (True, on_node (\<lambda>n. n\<lparr>chatTopic := defaultChatTopic n, ctrlTopic := defaultCtrlTopic n,
                                       videoTopic := defaultVideoTopic n, currentSessionID := sid\<rparr>) p1)
            else join_topics E sid p1))"

section \<open>Lemmas\<close>

lemma close_topic_fields [simp]:
  "nd (close_topic t p) = nd p" "qc (close_topic t p) = qc p" "rm_of (close_topic t p) = rm_of p"
  "sm_of (close_topic t p) = sm_of p" "ring (close_topic t p) = ring p" "hub_of (close_topic t p) = hub_of p"
  "clk (close_topic t p) = clk p"
  by (simp_all add: close_topic_def split: option.split)

lemma ps_join_fields [simp]:
  "nd (snd (ps_join E x p)) = nd p" "qc (snd (ps_join E x p)) = qc p" "rm_of (snd (ps_join E x p)) = rm_of p"
  "sm_of (snd (ps_join E x p)) = sm_of p" "ring (snd (ps_join E x p)) = ring p"
  "hub_of (snd (ps_join E x p)) = hub_of p" "clk (snd (ps_join E x p)) = clk p"
  "fst (ps_join E x p) = (if join_ok E x then Some x else None)"
  by (simp_all add: ps_join_def)

lemma on_node_nd [simp]:
  "nd (on_node f p) = f (nd p)" "qc (on_node f p) = qc p" "rm_of (on_node f p) = rm_of p"
  "sm_of (on_node f p) = sm_of p" "ring (on_node f p) = ring p" "hub_of (on_node f p) = hub_of p"
  "clk (on_node f p) = clk p" "trace (on_node f p) = trace p"
  by (simp_all add: on_node_def)

text \<open>Joining changes the node's topics, its session and the trace only.\<close>

lemma Join_frame [simp]:
  "qc (snd (JoinSessionTopics E sid p)) = qc p" "rm_of (snd (JoinSessionTopics E sid p)) = rm_of p"
  "sm_of (snd (JoinSessionTopics E sid p)) = sm_of p" "ring (snd (JoinSessionTopics E sid p)) = ring p"
  "hub_of (snd (JoinSessionTopics E sid p)) = hub_of p" "clk (snd (JoinSessionTopics E sid p)) = clk p"
  by (simp_all add: JoinSessionTopics_def join_topics_def leave_topics_def Let_def case_prod_beta)

definition same_runs :: "node \<Rightarrow> node \<Rightarrow> bool" where
  "same_runs n n' \<longleftrightarrow> host_ID n' = host_ID n \<and> encoderLive n' = encoderLive n \<and> encoderRunner n' = encoderRunner n
     \<and> runnerCtx n' = runnerCtx n \<and> cancelled n' = cancelled n \<and> nextCtx n' = nextCtx n \<and> tasks n' = tasks n
     \<and> bytesUp n' = bytesUp n \<and> bytesDown n' = bytesDown n"

lemma Join_runs: "same_runs (nd p) (nd (snd (JoinSessionTopics E sid p)))"
  by (simp add: same_runs_def JoinSessionTopics_def join_topics_def leave_topics_def Let_def case_prod_beta)

text \<open>The topics and the session a node is in.\<close>

definition in_session :: "string \<Rightarrow> peer \<Rightarrow> bool" where
  "in_session sid p \<longleftrightarrow> GetCurrentSessionID p = sid \<and> chatTopic (nd p) = Some (chat_name sid)
     \<and> ctrlTopic (nd p) = Some (ctrl_name sid) \<and> videoTopic (nd p) = Some (video_name sid)"

section \<open>Names of topics\<close>

lemma suffix_after_slash:
  assumes "has_suffix (a @ CHR ''/'' # s) (b @ CHR ''/'' # t)" "CHR ''/'' \<notin> set s" "CHR ''/'' \<notin> set t"
  shows "s = t"
proof -
  obtain u where "a @ CHR ''/'' # s = u @ b @ CHR ''/'' # t" using has_suffixE [OF assms(1)] by blast
  then have "rev (a @ CHR ''/'' # s) = rev (u @ b @ CHR ''/'' # t)" by (rule arg_cong)
  then have "takeWhile (\<lambda>c. c \<noteq> CHR ''/'') (rev s @ CHR ''/'' # rev a) =
      takeWhile (\<lambda>c. c \<noteq> CHR ''/'') (rev t @ CHR ''/'' # rev (u @ b))" by simp
  moreover have "takeWhile (\<lambda>c. c \<noteq> CHR ''/'') (rev x @ CHR ''/'' # z) = rev x" if "CHR ''/'' \<notin> set x" for x z
    using that by (subst takeWhile_append2) auto
  ultimately show ?thesis using assms(2,3) by simp
qed

lemma topic_is_name:
  assumes "CHR ''/'' \<notin> set s" "CHR ''/'' \<notin> set t"
  shows "topic_is (Some (chat_name s)) (''/chat/'' @ t) \<Longrightarrow> s = t"
    "topic_is (Some (ctrl_name s)) (''/control/'' @ t) \<Longrightarrow> s = t"
    "topic_is (Some (video_name s)) (''/video/'' @ t) \<Longrightarrow> s = t"
  using suffix_after_slash [OF _ assms, of "''/p2ptogether/chat''" "''/chat''"]
    suffix_after_slash [OF _ assms, of "''/p2ptogether/control''" "''/control''"]
    suffix_after_slash [OF _ assms, of "''/p2ptogether/video''" "''/video''"]
  by (simp_all add: topic_is_def chat_name_def ctrl_name_def video_name_def)

section \<open>Invariant of the topics\<close>

text \<open>
  Every topic carries a name of its kind for a session name without a slash; the three cached default
  topics, when all are present, are those of the default session, and so are the current ones while the
  node is in the default session.
\<close>

definition named :: "(string \<Rightarrow> string) \<Rightarrow> string option \<Rightarrow> bool" where
  "named f t \<longleftrightarrow> t = None \<or> (\<exists>s. CHR ''/'' \<notin> set s \<and> t = Some (f s))"

definition all_default :: "string option \<Rightarrow> string option \<Rightarrow> string option \<Rightarrow> bool" where
  "all_default c k v \<longleftrightarrow> (c \<noteq> None \<and> k \<noteq> None \<and> v \<noteq> None \<longrightarrow>
     c = Some (chat_name ''default'') \<and> k = Some (ctrl_name ''default'') \<and> v = Some (video_name ''default''))"

definition topics_ok :: "peer \<Rightarrow> bool" where
  "topics_ok p \<longleftrightarrow> named chat_name (chatTopic (nd p)) \<and> named ctrl_name (ctrlTopic (nd p))
     \<and> named video_name (videoTopic (nd p))
     \<and> all_default (defaultChatTopic (nd p)) (defaultCtrlTopic (nd p)) (defaultVideoTopic (nd p))
     \<and> (GetCurrentSessionID p = ''default'' \<longrightarrow> all_default (chatTopic (nd p)) (ctrlTopic (nd p)) (videoTopic (nd p)))"

lemma named_simps [simp]: "named f None" "CHR ''/'' \<notin> set s \<Longrightarrow> named f (Some (f s))"
  by (auto simp: named_def)

lemma all_default_simps [simp]: "all_default None k v" "all_default c None v" "all_default c k None"
  "all_default (Some (chat_name ''default'')) (Some (ctrl_name ''default'')) (Some (video_name ''default''))"
  by (simp_all add: all_default_def)

lemma topics_ok_leave: "topics_ok p \<Longrightarrow> topics_ok (leave_topics p)"
  by (auto simp: topics_ok_def leave_topics_def GetCurrentSessionID_def)

lemma leave_topics_fields:
  "chatTopic (nd (leave_topics p)) = None" "ctrlTopic (nd (leave_topics p)) = None"
  "videoTopic (nd (leave_topics p)) = None" "GetCurrentSessionID (leave_topics p) = GetCurrentSessionID p"
  by (simp_all add: leave_topics_def GetCurrentSessionID_def)

lemma join_topics_ok:
  assumes "topics_ok p" "chatTopic (nd p) = None" "ctrlTopic (nd p) = None" "videoTopic (nd p) = None"
    "CHR ''/'' \<notin> set sid"
  shows "topics_ok (snd (join_topics E sid p)) \<and>
    (fst (join_topics E sid p) \<longrightarrow> in_session sid (snd (join_topics E sid p)))"
  using assms
  by (auto simp: join_topics_def Let_def case_prod_beta topics_ok_def in_session_def GetCurrentSessionID_def)

lemma named_topic_is:
  assumes "named chat_name c" "named ctrl_name k" "named video_name v" "CHR ''/'' \<notin> set sid"
    "topic_is c (''/chat/'' @ sid)" "topic_is k (''/control/'' @ sid)" "topic_is v (''/video/'' @ sid)"
  shows "c = Some (chat_name sid) \<and> k = Some (ctrl_name sid) \<and> v = Some (video_name sid)"
proof -
  have "topic_is t x \<Longrightarrow> t \<noteq> None" for t x by (cases t) (simp_all add: topic_is_def)
  then have "c \<noteq> None" "k \<noteq> None" "v \<noteq> None" using assms(5-7) by blast+
  then show ?thesis
    using assms topic_is_name [OF _ assms(4)] unfolding named_def by blast
qed

lemma JoinSessionTopics_ok:
  assumes "topics_ok p" "CHR ''/'' \<notin> set sid"
  shows "topics_ok (snd (JoinSessionTopics E sid p)) \<and>
    (fst (JoinSessionTopics E sid p) \<longrightarrow> in_session sid (snd (JoinSessionTopics E sid p)))"
proof (cases "GetCurrentSessionID p = sid \<and> topic_is (chatTopic (nd p)) (''/chat/'' @ sid)
    \<and> topic_is (ctrlTopic (nd p)) (''/control/'' @ sid) \<and> topic_is (videoTopic (nd p)) (''/video/'' @ sid)")
  case True
  then have "JoinSessionTopics E sid p = (True, p)" by (simp add: JoinSessionTopics_def)
  moreover have "in_session sid p"
    using True assms named_topic_is unfolding in_session_def topics_ok_def by blast
  ultimately show ?thesis using assms(1) by simp
next
  case False
  let ?p1 = "leave_topics p"
  note ok = topics_ok_leave [OF assms(1)]
  show ?thesis
  proof (cases "sid = ''default'' \<and> defaultChatTopic (nd ?p1) \<noteq> None \<and> defaultCtrlTopic (nd ?p1) \<noteq> None
      \<and> defaultVideoTopic (nd ?p1) \<noteq> None")
    case True
    then have d: "defaultChatTopic (nd ?p1) = Some (chat_name ''default'')"
      "defaultCtrlTopic (nd ?p1) = Some (ctrl_name ''default'')"
      "defaultVideoTopic (nd ?p1) = Some (video_name ''default'')"
      using ok unfolding topics_ok_def all_default_def by blast+
    have s: "sid = ''default''" using True by blast
    show ?thesis
      unfolding JoinSessionTopics_def if_not_P [OF False] Let_def if_P [OF True] using d s
      by (simp add: in_session_def topics_ok_def GetCurrentSessionID_def)
  next
    case f: False
    have e: "JoinSessionTopics E sid p = join_topics E sid ?p1"
      unfolding JoinSessionTopics_def if_not_P [OF False] Let_def if_not_P [OF f] by (rule refl)
    show ?thesis
      unfolding e by (rule join_topics_ok [OF ok leave_topics_fields(1-3) assms(2)])
  qed
qed

text \<open>
  What the peer does with its topics: the creator joins a session, a joiner stores the session first and then
  joins, and on leaving or being expelled the peer joins the default session and stores that.
\<close>

datatype topic_op = CreatorJoins string | JoinerJoins string | BackToDefault

fun topic_exec :: "env \<times> topic_op \<Rightarrow> peer \<Rightarrow> peer" where
  "topic_exec (E, CreatorJoins sid) p = snd (JoinSessionTopics E sid p)"
| "topic_exec (E, JoinerJoins sid) p = snd (JoinSessionTopics E sid (SetCurrentSessionID sid p))"
| "topic_exec (E, BackToDefault) p = SetCurrentSessionID ''default'' (snd (JoinSessionTopics E ''default'' p))"

fun session_name_ok :: "topic_op \<Rightarrow> bool" where
  "session_name_ok (CreatorJoins sid) = (CHR ''/'' \<notin> set sid)"
| "session_name_ok (JoinerJoins sid) = (CHR ''/'' \<notin> set sid \<and> sid \<noteq> ''default'')"
| "session_name_ok BackToDefault = True"

lemma topics_ok_Set: "topics_ok p \<Longrightarrow> sid \<noteq> ''default'' \<Longrightarrow> topics_ok (SetCurrentSessionID sid p)"
  by (simp add: topics_ok_def SetCurrentSessionID_def GetCurrentSessionID_def)

lemma topics_ok_exec:
  assumes "topics_ok p" "session_name_ok op"
  shows "topics_ok (topic_exec (E, op) p)"
proof (cases op)
  case BackToDefault
  let ?p = "snd (JoinSessionTopics E ''default'' p)"
  have "topics_ok ?p" using JoinSessionTopics_ok [OF assms(1), of "''default''" E] by simp
  moreover have "all_default (chatTopic (nd ?p)) (ctrlTopic (nd ?p)) (videoTopic (nd ?p))"
  proof (cases "fst (JoinSessionTopics E ''default'' p)")
    case True
    then show ?thesis using JoinSessionTopics_ok [OF assms(1), of "''default''" E] by (simp add: in_session_def)
  next
    case False
    then show ?thesis
      by (auto simp: JoinSessionTopics_def join_topics_def Let_def case_prod_beta leave_topics_fields split: if_splits)
  qed
  ultimately show ?thesis
    using BackToDefault by (simp add: topics_ok_def SetCurrentSessionID_def GetCurrentSessionID_def)
qed (use assms JoinSessionTopics_ok [OF assms(1)] JoinSessionTopics_ok [OF topics_ok_Set [OF assms(1)]] in simp_all)

lemma topics_ok_fold: "topics_ok p \<Longrightarrow> \<forall>(E, op) \<in> set ops. session_name_ok op \<Longrightarrow> topics_ok (fold topic_exec ops p)"
  by (induction ops arbitrary: p) (auto simp: topics_ok_exec)

lemma topics_ok_New: "topics_ok (p\<lparr>nd := NewNode h\<rparr>)"
  by (simp add: topics_ok_def NewNode_def GetCurrentSessionID_def all_default_def)

section \<open>Properties\<close>

text \<open>
  C28. A join that reports success puts the node in that session. After any creations, joins and returns to
  the default session, some of whose topic joins may have failed, a call of \<open>JoinSessionTopics\<close> that returns without
  error leaves the node with that session as its current one and with exactly the chat, control and
  video topic of that session (session names without a slash; a joiner is not sent to \<open>default\<close>).
\<close>

theorem JoinSessionTopics_joins:
  assumes "\<forall>(E, op) \<in> set ops. session_name_ok op" "CHR ''/'' \<notin> set sid"
    "JoinSessionTopics E sid (fold topic_exec ops (p0\<lparr>nd := NewNode h\<rparr>)) = (True, p)"
  shows "GetCurrentSessionID p = sid \<and> ChatTopic p = Some (chat_name sid) \<and> CtrlTopic p = Some (ctrl_name sid)
    \<and> VideoTopic p = Some (video_name sid)"
proof -
  have "in_session sid p"
    using JoinSessionTopics_ok [OF topics_ok_fold [OF topics_ok_New assms(1)] assms(2)] assms(3)
    by (metis fst_conv snd_conv)
  then show ?thesis by (simp add: in_session_def ChatTopic_def CtrlTopic_def VideoTopic_def)
qed

definition ex_join_env :: "(string \<Rightarrow> bool) \<Rightarrow> env" where
  "ex_join_env f = ex_env\<lparr>join_ok := f\<rparr>"

definition ex_node_peer :: peer where
  "ex_node_peer = (ex_peer ''a'' ex_roles NewQueue 0)\<lparr>nd := NewNode (PeerID ''a'')\<rparr>"

text \<open>Here the default topics were joined, a first join of \<open>s\<close> failed at its video topic, and the second succeeds.\<close>

definition ex_topic_ops :: "(env \<times> topic_op) list" where
  "ex_topic_ops = [(ex_env, CreatorJoins ''default''), (ex_join_env (\<lambda>x. x \<noteq> video_name ''s''), CreatorJoins ''s'')]"

theorem JoinSessionTopics_joins_witness:
  "VideoTopic (snd (JoinSessionTopics ex_env ''s'' (fold topic_exec ex_topic_ops ex_node_peer))) = Some (video_name ''s'')"
proof -
  have ok: "fst (JoinSessionTopics ex_env ''s'' (fold topic_exec ex_topic_ops ex_node_peer))" by code_simp
  have p: "ex_node_peer = ex_peer ''a'' ex_roles NewQueue 0\<lparr>nd := NewNode (PeerID ''a'')\<rparr>" by (simp add: ex_node_peer_def)
  have "\<forall>(E, op) \<in> set ex_topic_ops. session_name_ok op" by (simp add: ex_topic_ops_def)
  from JoinSessionTopics_joins [OF this, where sid = "''s''" and E = ex_env and h = "PeerID ''a''" and
      ?p0.0 = "ex_peer ''a'' ex_roles NewQueue 0", folded p, OF _ prod_eqI] ok
  show ?thesis by (simp add: VideoTopic_def)
qed

text \<open>
  A joiner gives up the topics it comes back to. Coming from the default session, the creator of a session
  keeps the default topics open and a joiner, which stores the new session before it joins, closes all
  three; when either returns to the default session, no topic is joined again and the topics it
  uses are the cached ones, which for the joiner are the closed ones.
\<close>

theorem joiner_reuses_closed_topics:
  assumes "in_session ''default'' p" "defaultChatTopic (nd p) = chatTopic (nd p)"
    "defaultCtrlTopic (nd p) = ctrlTopic (nd p)" "defaultVideoTopic (nd p) = videoTopic (nd p)"
    "CHR ''/'' \<notin> set sid" "sid \<noteq> ''default''"
    "join_ok E (chat_name sid)" "join_ok E (ctrl_name sid)" "join_ok E (video_name sid)"
  shows "let joins = [JoinTopic (chat_name sid), JoinTopic (ctrl_name sid), JoinTopic (video_name sid)];
      closes = (\<lambda>s. [CloseTopic (chat_name s), CloseTopic (ctrl_name s), CloseTopic (video_name s)]);
      joiner = fold topic_exec [(E, JoinerJoins sid), (E', BackToDefault)] p;
      creator = fold topic_exec [(E, CreatorJoins sid), (E', BackToDefault)] p
    in trace joiner = trace p @ closes ''default'' @ joins @ closes sid \<and> in_session ''default'' joiner
      \<and> trace creator = trace p @ joins @ closes sid \<and> in_session ''default'' creator"
proof -
  have ne: "\<not> topic_is (Some (chat_name ''default'')) (''/chat/'' @ sid)" "\<not> topic_is (Some (chat_name sid)) ''/chat/default''"
    using topic_is_name(1) [of "''default''" sid] topic_is_name(1) [of sid "''default''"] assms(5,6) by auto
  show ?thesis
    using assms ne
    by (simp add: JoinSessionTopics_def in_session_def GetCurrentSessionID_def SetCurrentSessionID_def leave_topics_def
        join_topics_def ps_join_def close_topic_def Let_def on_node_def)
qed

theorem joiner_reuses_closed_topics_witness:
  "CloseTopic (chat_name ''default'') \<in> set (trace (fold topic_exec [(ex_env, JoinerJoins ''s''), (ex_env, BackToDefault)]
      (snd (JoinSessionTopics ex_env ''default'' ex_node_peer))))"
proof -
  let ?p = "snd (JoinSessionTopics ex_env ''default'' ex_node_peer)"
  have "in_session ''default'' ?p" "defaultChatTopic (nd ?p) = chatTopic (nd ?p)"
    "defaultCtrlTopic (nd ?p) = ctrlTopic (nd ?p)" "defaultVideoTopic (nd ?p) = videoTopic (nd ?p)"
    by code_simp+
  from joiner_reuses_closed_topics [OF this, of "''s''" ex_env ex_env]
  show ?thesis by (simp add: Let_def ex_env_def)
qed

end
