(* ===== verification/Server.thy ===== *)
theory Server
  imports NodeTopics Streaming
begin

text \<open>
  The handlers of the gRPC \<^verbatim>\<open>server\<close> in \<^verbatim>\<open>peer_service/main.go\<close> that act for the local client: the initial
  state, role commands, moderation, and the admission of a joiner (\<^verbatim>\<open>handleAuthStream\<close>). A client's stream is a
  number; a \<^verbatim>\<open>Send\<close> on it that fails leaves no trace.
\<close>

section \<open>Sending\<close>

definition publishToControlTopic :: "server_msg \<Rightarrow> peer \<Rightarrow> bool \<times> peer" where
  "publishToControlTopic msg p =
     (case CtrlTopic p of None \<Rightarrow> (False, p) | Some t \<Rightarrow> (True, publish (Some t) msg p))"

definition publishToChatTopic :: "server_msg \<Rightarrow> peer \<Rightarrow> bool \<times> peer" where
  "publishToChatTopic msg p =
     (case ChatTopic p of None \<Rightarrow> (False, p) | Some t \<Rightarrow> (True, publish (Some t) msg p))"

definition stream_send :: "env \<Rightarrow> nat \<Rightarrow> server_msg \<Rightarrow> peer \<Rightarrow> bool \<times> peer" where
  "stream_send E cs msg p =
     (if send_ok E cs then (True, p\<lparr>trace := trace p @ [Send cs msg]\<rparr>) else (False, p))"

text \<open>An operation of the role manager on this peer's table and clock.\<close>

definition on_roles :: "(role_manager \<times> hlc \<Rightarrow> 'a \<times> role_manager \<times> hlc) \<Rightarrow> peer \<Rightarrow> 'a \<times> peer" where
  "on_roles f p = (case f (rm_of p, clk p) of (x, rm, c) \<Rightarrow> (x, p\<lparr>rm_of := rm, clk := c\<rparr>))"

text \<open>A message to the local clients and to the control topic, as the handlers send it.\<close>

definition tell_all :: "env \<Rightarrow> server_msg \<Rightarrow> peer \<Rightarrow> peer" where
  "tell_all E msg p = snd (publishToControlTopic msg (hub_broadcast E msg p))"

definition local_username :: "peer \<Rightarrow> string" where
  "local_username p =
     (let sid = GetCurrentSessionID p
      in if sid \<noteq> '''' \<and> sid \<noteq> ''default'' then
           (case GetSession sid (sm_of p) of
              None \<Rightarrow> ''''
            | Some s \<Rightarrow> (case mget (Members s) (ID p) of None \<Rightarrow> '''' | Some u \<Rightarrow> ui_username u))
         else '''')"

definition sendInitialState :: "env \<Rightarrow> nat \<Rightarrow> peer \<Rightarrow> peer" where
  "sendInitialState E cs p =
     (let K = codec_of E;
          (ok, p1) = stream_send E cs (LocalPeerIdentity
             \<lparr>lpi_peer_id = pid_string K (ID p), lpi_username = Some (local_username p)\<rparr>) p
      in if \<not> ok then p1
         else
           (let pbDefs = map pb_of_role (GetDefinitions (rm_of p1));
                (t1, p2) = now_hlc p1;
                (_, p3) = stream_send E cs (RoleDefinitionsUpdate \<lparr>rdu_definitions = pbDefs, rdu_hlc_ts = t1\<rparr>) p2;
                assigns = map Some (GetAllAssignments K (rm_of p3));
                (t2, p4) = now_hlc p3;
                (_, p5) = stream_send E cs (AllPeerRoleAssignments \<lparr>apra_assignments = assigns, apra_hlc_ts = t2\<rparr>) p4;
                (q, p6) = qc_Snapshot E p5;
                (t3, p7) = now_hlc p6;
                q' = (case q of QueueUpdate u \<Rightarrow> QueueUpdate (u\<lparr>qu_hlc_ts := t3\<rparr>) | m \<Rightarrow> m)
            in snd (stream_send E cs q' p7)))"

definition maybeStartMdns :: "peer \<Rightarrow> peer" where
  "maybeStartMdns p = (if \<not> mdnsEnabled p then p else if mdnsStarted p then p else p\<lparr>mdnsStarted := True\<rparr>)"

section \<open>Role commands\<close>

definition handleSetPeerRolesCmd :: "env \<Rightarrow> string \<Rightarrow> string list \<Rightarrow> peer_id \<Rightarrow> peer \<Rightarrow> peer" where
  "handleSetPeerRolesCmd E target names sender p =
     (if \<not> Has (GetPermissionsForPeer (rm_of p) sender) PermManageUserRoles then p
      else
        (let K = codec_of E;
             actualTarget =
               (if target \<noteq> pid_string K sender \<and> target \<noteq> ''defaultPeerId'' \<and> target \<noteq> ''''
                then (case pid_decode K target of None \<Rightarrow> sender | Some t \<Rightarrow> t) else sender);
             (res, p1) = on_roles (SetPeerRoles K actualTarget names) p
         in (case res of
               Inl e \<Rightarrow> p1
             | Inr None \<Rightarrow> p1
             | Inr (Some a) \<Rightarrow>
                 (let (t, p2) = now_hlc p1
                  in tell_all E (PeerRoleAssignment (a\<lparr>pra_hlc_ts := t\<rparr>)) p2))))"

definition handleUpdateRoleCmd :: "env \<Rightarrow> role_definition_pb option \<Rightarrow> peer_id \<Rightarrow> peer \<Rightarrow> peer" where
  "handleUpdateRoleCmd E defn sender p =
     (if \<not> Has (GetPermissionsForPeer (rm_of p) sender) PermAddRemoveRoles then p
      else
        (case defn of
           None \<Rightarrow> p
         | Some d \<Rightarrow>
             (let (res, rm) = UpdateDefinition (rd_name d) (ucast (rd_permissions d)) (rm_of p);
                  p1 = p\<lparr>rm_of := rm\<rparr>
              in (case res of
                    Inl e \<Rightarrow> p1
                  | Inr u \<Rightarrow>
                      (let (t, p2) = now_hlc p1
                       in tell_all E (RoleDefinitionsUpdate (u\<lparr>rdu_hlc_ts := t\<rparr>)) p2)))))"

definition tell_assignment :: "env \<Rightarrow> peer_role_assignment \<Rightarrow> peer \<Rightarrow> peer" where
  "tell_assignment E a p =
     (let (t, p1) = now_hlc p in tell_all E (PeerRoleAssignment (a\<lparr>pra_hlc_ts := t\<rparr>)) p1)"

definition handleRemoveRoleCmd :: "env \<Rightarrow> string \<Rightarrow> peer_id \<Rightarrow> peer \<Rightarrow> peer" where
  "handleRemoveRoleCmd E name sender p =
     (if \<not> Has (GetPermissionsForPeer (rm_of p) sender) PermAddRemoveRoles then p
      else
        (let (res, p1) = on_roles (RemoveDefinition (codec_of E) name) p
         in (case res of
               Inl e \<Rightarrow> p1
             | Inr (u, affected) \<Rightarrow>
                 (let (t, p2) = now_hlc p1;
                      p3 = tell_all E (RoleDefinitionsUpdate (u\<lparr>rdu_hlc_ts := t\<rparr>)) p2
                  in fold (tell_assignment E) affected p3))))"

section \<open>Moderation\<close>

definition handleChatDeleteCmd :: "env \<Rightarrow> string \<Rightarrow> i64 \<Rightarrow> peer_id \<Rightarrow> peer \<Rightarrow> peer" where
  "handleChatDeleteCmd E messageId cmdHlc sender p =
     (if \<not> Has (GetPermissionsForPeer (rm_of p) sender) PermModerateChat then p
      else if messageId = '''' then p
      else
        (let (h, p1) = (if cmdHlc = 0 then now_hlc p else (cmdHlc, p));
             m = ChatDeleteMsg \<lparr>cd_message_id = messageId, cd_deleted_by = pid_string (codec_of E) sender, cd_hlc_ts = h\<rparr>
         in snd (publishToChatTopic m (hub_broadcast E m p1))))"

text \<open>The block after the expulsion that takes the target's roles.\<close>

definition strip_roles_of :: "env \<Rightarrow> peer_id \<Rightarrow> peer \<Rightarrow> peer" where
  "strip_roles_of E target p =
     (let (res, p1) = on_roles (SetPeerRoles (codec_of E) target []) p
      in (case res of
            Inr (Some a) \<Rightarrow> tell_assignment E a p1
          | _ \<Rightarrow> p1))"

definition handleKickPeerCmd :: "env \<Rightarrow> target_cmd \<Rightarrow> peer_id \<Rightarrow> peer \<Rightarrow> peer" where
  "handleKickPeerCmd E cmd sender p =
     (let K = codec_of E; sid = GetCurrentSessionID p in
      if \<not> Has (GetPermissionsForPeer (rm_of p) sender) PermKickUser then p
      else if tc_target cmd = '''' then p
      else if tc_target cmd = pid_string K sender then p
      else
        (case pid_decode K (tc_target cmd) of
           None \<Rightarrow> p
         | Some target \<Rightarrow>
             (if sid = '''' \<or> sid = ''default'' then p
              else
                (case GetSession sid (sm_of p) of
                   None \<Rightarrow> p
                 | Some session \<Rightarrow>
                     (if AdminPeerID session = target \<and> sender \<noteq> AdminPeerID session then p
                      else if \<not> IsPeerInSession sid target (sm_of p) then p
                      else
                        (case RemovePeerFromSession sid target (sm_of p) of
                           (Inl e, sm) \<Rightarrow> p\<lparr>sm_of := sm\<rparr>
                         | (Inr (info, removed), sm) \<Rightarrow>
                             (let p1 = p\<lparr>sm_of := sm\<rparr> in
                              if \<not> removed then p1
                              else
                                (let p2 = strip_roles_of E target p1;
                                     (h, p3) = (if tc_hlc_ts cmd = 0 then now_hlc p2 else (tc_hlc_ts cmd, p2))
                                 in tell_all E (PeerKicked \<lparr>pe_peer_id = pid_string K target,
                                      pe_issued_by = pid_string K sender, pe_reason = tc_reason cmd,
                                      pe_hlc_ts = h\<rparr>) p3))))))))"

definition handleBanPeerCmd :: "env \<Rightarrow> target_cmd \<Rightarrow> peer_id \<Rightarrow> peer \<Rightarrow> peer" where
  "handleBanPeerCmd E cmd sender p =
     (let K = codec_of E; sid = GetCurrentSessionID p in
      if \<not> Has (GetPermissionsForPeer (rm_of p) sender) PermBanUser then p
      else if tc_target cmd = '''' then p
      else if tc_target cmd = pid_string K sender then p
      else
        (case pid_decode K (tc_target cmd) of
           None \<Rightarrow> p
         | Some target \<Rightarrow>
             (if sid = '''' \<or> sid = ''default'' then p
              else
                (case GetSession sid (sm_of p) of
                   None \<Rightarrow> p
                 | Some session \<Rightarrow>
                     (if AdminPeerID session = target \<and> sender \<noteq> AdminPeerID session then p
                      else if \<not> IsPeerInSession sid target (sm_of p) then p
                      else
                        (let (h, p1) = (if tc_hlc_ts cmd = 0 then now_hlc p else (tc_hlc_ts cmd, p))
                         in (case BanPeer sid target sender (tc_reason cmd) h (sm_of p1) of
                               (Inl e, sm) \<Rightarrow> p1\<lparr>sm_of := sm\<rparr>
                             | (Inr info, sm) \<Rightarrow>
                                 (let p2 = strip_roles_of E target (p1\<lparr>sm_of := sm\<rparr>)
                                  in tell_all E (PeerBanned \<lparr>pe_peer_id = pid_string K target,
                                       pe_issued_by = pid_string K sender, pe_reason = tc_reason cmd,
                                       pe_hlc_ts = h\<rparr>) p2))))))))"

end
