(* ===== verification/Admission.thy ===== *)
theory Admission
  imports Server QueueFlow
begin

text \<open>
  The join protocol \<^verbatim>\<open>/p2ptogether/auth/1\<close> of \<^verbatim>\<open>peer_service/main.go\<close>: \<^verbatim>\<open>handleAuthStream\<close> at the
  administrator and \<^verbatim>\<open>processAdminJoinResponse\<close> at the joiner. A request that cannot be read or decoded is
  \<open>None\<close>; so is the response when nothing is written.
\<close>

section \<open>The administrator's side\<close>

definition error_response :: "string \<Rightarrow> join_response" where
  "error_response msg = \<lparr>jr_session_id = '''', jr_assigned_roles = [], jr_snapshot = [],
     jr_session_name = None, jr_error = Some msg\<rparr>"

fun session_error_text :: "session_error \<Rightarrow> string" where
  "session_error_text (SessionNotFound s) = ''session '' @ s @ '' not found''"
| "session_error_text (SessionCollision s) = ''session ID '' @ s @ '' already exists (collision)''"

definition on_sessions ::
  "(session_manager \<times> role_manager \<times> hlc \<Rightarrow> 'a \<times> session_manager \<times> role_manager \<times> hlc) \<Rightarrow> peer \<Rightarrow> 'a \<times> peer" where
  "on_sessions f p =
     (case f (sm_of p, rm_of p, clk p) of (x, sm, rm, c) \<Rightarrow> (x, p\<lparr>sm_of := sm, rm_of := rm, clk := c\<rparr>))"

text \<open>The state a new member is sent.\<close>

definition session_snapshot :: "env \<Rightarrow> session \<Rightarrow> peer \<Rightarrow> session_state_data \<times> peer" where
  "session_snapshot E session p =
     (let K = codec_of E;
          allAssignments = map Some (GetAllAssignments K (rm_of p));
          (t1, p1) = now_hlc p;
          pbQueueItems = map (pb_item K) (Items (queue_of p1));
          (t2, p2) = now_hlc p1;
          identities = map (\<lambda>(i, u). \<lparr>lpi_peer_id = pid_string K i, lpi_username = Some (ui_username u)\<rparr>) (Members session)
      in (\<lparr>ssd_assignments = Some \<lparr>apra_assignments = allAssignments, apra_hlc_ts = t1\<rparr>,
           ssd_queue = Some \<lparr>qu_items = pbQueueItems, qu_hlc_ts = t2\<rparr>,
           ssd_playback = None, ssd_identities = identities\<rparr>, p2))"

text \<open>What the other members and the local clients are told about the new one.\<close>

definition announce_member :: "env \<Rightarrow> peer_id \<Rightarrow> string \<Rightarrow> peer \<Rightarrow> peer" where
  "announce_member E remote username p =
     (let K = codec_of E;
          (t, p1) = now_hlc p;
          assignment = PeerRoleAssignment \<lparr>pra_peer_id = pid_string K remote, pra_role_names = [''Viewer''], pra_hlc_ts = t\<rparr>;
          identity = LocalPeerIdentity \<lparr>lpi_peer_id = pid_string K remote, lpi_username = Some username\<rparr>;
          p2 = hub_broadcast E identity (hub_broadcast E assignment p1)
      in if CtrlTopic p2 \<noteq> None
         then snd (publishToControlTopic identity (snd (publishToControlTopic assignment p2)))
         else p2)"

definition ban_message :: "ban_info \<Rightarrow> string" where
  "ban_message b =
     (if bi_reason b \<noteq> '''' then ''You are banned from this session. Reason: '' @ bi_reason b
      else ''You are banned from this session.'')"

definition handleAuthStream ::
  "env \<Rightarrow> peer_id \<Rightarrow> auth_request option \<Rightarrow> peer \<Rightarrow> join_response option \<times> peer" where
  "handleAuthStream E remote request p =
     (case request of
        None \<Rightarrow> (None, p)
      | Some r \<Rightarrow>
          (case GetSession (ar_session_id r) (sm_of p) of
             None \<Rightarrow> (Some (error_response ''Session not found.''), p)
           | Some session0 \<Rightarrow>
               (if AdminPeerID session0 \<noteq> ID p then (Some (error_response ''Authorization failed: not session admin.''), p)
                else
                  (case IsPeerBanned (sess_id session0) remote (sm_of p) of
                     (banned, banInfo) \<Rightarrow>
                       (if banned then (Some (error_response (ban_message banInfo)), p)
                        else
                          (case on_sessions (AddPeerToSession (codec_of E) (sess_id session0) remote (ar_username r) [''Viewer'']) p of
                             (Inl e, p1) \<Rightarrow> (Some (error_response (''Failed to add peer to session: '' @ session_error_text e)), p1)
                           | (Inr (session, info), p1) \<Rightarrow>
                               (let (d, p2) = session_snapshot E session p1
                                in (case snap_marshal (codec_of E) d of
                                      None \<Rightarrow> (Some (error_response ''Internal server error creating session snapshot.''), p2)
                                    | Some bytes \<Rightarrow>
                                        (Some \<lparr>jr_session_id = sess_id session, jr_assigned_roles = [''Viewer''],
                                               jr_snapshot = bytes, jr_session_name = Some (sess_name session),
                                               jr_error = None\<rparr>,
                                         announce_member E remote (ar_username r) p2)))))))))"

section \<open>The joiner's side\<close>

definition apply_session_snapshot :: "env \<Rightarrow> peer_id \<Rightarrow> session_state_data \<Rightarrow> peer \<Rightarrow> peer" where
  "apply_session_snapshot E admin d p =
     (let p1 = (case ssd_assignments d of
                  None \<Rightarrow> p
                | Some a \<Rightarrow> p\<lparr>rm_of := snd (ApplyAllAssignmentsSnapshot (codec_of E) (Some a) (rm_of p))\<rparr>)
      in (case ssd_queue d of None \<Rightarrow> p1 | Some q \<Rightarrow> snd (ApplyUpdate E q admin p1)))"

definition processAdminJoinResponse :: "env \<Rightarrow> join_response \<Rightarrow> peer_id \<Rightarrow> peer \<Rightarrow> peer" where
  "processAdminJoinResponse E resp admin p =
     (let p1 = SetCurrentSessionID (jr_session_id resp) p;
          p2 = (if jr_snapshot resp \<noteq> [] then
                  (case snap_unmarshal (codec_of E) (jr_snapshot resp) of
                     None \<Rightarrow> p1
                   | Some d \<Rightarrow> apply_session_snapshot E admin d p1)
                else p1);
          (ok, p3) = JoinSessionTopics E (jr_session_id resp) p2
      in if ok then p3\<lparr>srv_ctrlTopic := CtrlTopic p3, srv_chatTopic := ChatTopic p3\<rparr> else p3)"

section \<open>Lemmas\<close>

lemma srv_fields [simp]:
  "nd (p\<lparr>srv_ctrlTopic := a, srv_chatTopic := b\<rparr>) = nd p" "rm_of (p\<lparr>srv_ctrlTopic := a, srv_chatTopic := b\<rparr>) = rm_of p"
  "qc (p\<lparr>srv_ctrlTopic := a, srv_chatTopic := b\<rparr>) = qc p" "sm_of (p\<lparr>srv_ctrlTopic := a, srv_chatTopic := b\<rparr>) = sm_of p"
  by simp_all

lemma publish_sends [simp]:
  "nd (snd (publishToControlTopic m p)) = nd p" "qc (snd (publishToControlTopic m p)) = qc p"
  "rm_of (snd (publishToControlTopic m p)) = rm_of p" "sm_of (snd (publishToControlTopic m p)) = sm_of p"
  "ring (snd (publishToControlTopic m p)) = ring p" "clk (snd (publishToControlTopic m p)) = clk p"
  "nd (snd (publishToChatTopic m p)) = nd p" "qc (snd (publishToChatTopic m p)) = qc p"
  "rm_of (snd (publishToChatTopic m p)) = rm_of p" "sm_of (snd (publishToChatTopic m p)) = sm_of p"
  by (simp_all add: publishToControlTopic_def publishToChatTopic_def split: option.split)

lemma tell_fields [simp]:
  "nd (tell_all E m p) = nd p" "qc (tell_all E m p) = qc p" "rm_of (tell_all E m p) = rm_of p"
  "sm_of (tell_all E m p) = sm_of p" "ring (tell_all E m p) = ring p"
  "nd (tell_assignment E a p) = nd p" "qc (tell_assignment E a p) = qc p" "rm_of (tell_assignment E a p) = rm_of p"
  "sm_of (tell_assignment E a p) = sm_of p"
  by (simp_all add: tell_all_def tell_assignment_def Let_def case_prod_beta)

lemma on_roles_fields [simp]:
  "nd (snd (on_roles f p)) = nd p" "qc (snd (on_roles f p)) = qc p" "sm_of (snd (on_roles f p)) = sm_of p"
  "rm_of (snd (on_roles f p)) = fst (snd (f (rm_of p, clk p)))" "fst (on_roles f p) = fst (f (rm_of p, clk p))"
  by (simp_all add: on_roles_def case_prod_beta)

lemma announce_member_fields [simp]:
  "nd (announce_member E r u p) = nd p" "qc (announce_member E r u p) = qc p"
  "rm_of (announce_member E r u p) = rm_of p" "sm_of (announce_member E r u p) = sm_of p"
  by (simp_all add: announce_member_def Let_def case_prod_beta)

lemma session_snapshot_fields [simp]:
  "nd (snd (session_snapshot E s p)) = nd p" "qc (snd (session_snapshot E s p)) = qc p"
  "rm_of (snd (session_snapshot E s p)) = rm_of p" "sm_of (snd (session_snapshot E s p)) = sm_of p"
  by (simp_all add: session_snapshot_def Let_def case_prod_beta)

lemma SetPeerRoles_empty:
  "GetPermissionsForPeer (fst (snd (SetPeerRoles K t [] (rm, c)))) t = 0"
  by (auto simp: SetPeerRoles_def Let_def case_prod_beta GetPermissionsForPeer_def GetAssignedRoles_def split: option.split)

lemma lower_Viewer [simp]: "to_lower (trim_space ''Viewer'') = ''viewer''"
  by code_simp

lemma normalized_Viewer [simp]: "normalized [''Viewer''] = [''viewer'']"
  by code_simp

lemma normalize_Viewer:
  "mget defs ''viewer'' = Some v \<Longrightarrow> normalize_names defs [''Viewer''] = Inr [''viewer'']"
  unfolding normalize_names_Inr by simp

lemma SetPeerRoles_Viewer:
  assumes "mget (definitions rm) ''viewer'' = Some v"
  shows "GetPermissionsForPeer (fst (snd (SetPeerRoles K j [''Viewer''] (rm, c)))) i =
    (if i = j then role_perms v else GetPermissionsForPeer rm i)"
  using assms
  by (auto simp: SetPeerRoles_def normalize_Viewer Let_def case_prod_beta GetPermissionsForPeer_def
      GetAssignedRoles_def simp del: normalize_names.simps split: option.split)

lemma on_sessions_fields [simp]:
  "nd (snd (on_sessions f p)) = nd p" "qc (snd (on_sessions f p)) = qc p"
  "sm_of (snd (on_sessions f p)) = fst (snd (f (sm_of p, rm_of p, clk p)))"
  "rm_of (snd (on_sessions f p)) = fst (snd (snd (f (sm_of p, rm_of p, clk p))))"
  "fst (on_sessions f p) = fst (f (sm_of p, rm_of p, clk p))"
  "trace (snd (on_sessions f p)) = trace p"
  by (simp_all add: on_sessions_def case_prod_beta)

lemma AddPeer_cases:
  assumes "mget sm sid = Some s"
  shows "(\<exists>i. AddPeerToSession K sid j u rs (sm, rm, c) = (Inr (s, i), sm, rm, c)) \<and> mhas (Members s) j \<or>
    \<not> mhas (Members s) j \<and> (\<exists>s' i. fst (AddPeerToSession K sid j u rs (sm, rm, c)) = Inr (s', i)
      \<and> sess_id s' = sess_id s \<and> sess_name s' = sess_name s
      \<and> fst (snd (AddPeerToSession K sid j u rs (sm, rm, c))) = mput sm sid s' \<and> mget (Members s') j = Some i
      \<and> ui_username i = u
      \<and> fst (snd (snd (AddPeerToSession K sid j u rs (sm, rm, c)))) =
          fst (snd (SetPeerRoles K j (if rs = [] then [''Viewer''] else rs) (rm, c))))"
  using assms by (auto simp: AddPeerToSession_def Let_def case_prod_beta split: option.split)

text \<open>The three branches of the administrator.\<close>

lemma handleAuthStream_refuses:
  assumes "GetSession (ar_session_id r) (sm_of p) = None \<or>
    (\<exists>s. GetSession (ar_session_id r) (sm_of p) = Some s \<and>
      (AdminPeerID s \<noteq> ID p \<or> fst (IsPeerBanned (sess_id s) j (sm_of p))))"
  shows "\<exists>e. handleAuthStream E j (Some r) p = (Some (error_response e), p)"
  using assms by (auto simp: handleAuthStream_def case_prod_beta)

lemma handleAuthStream_member:
  assumes "GetSession (ar_session_id r) (sm_of p) = Some s" "AdminPeerID s = ID p" "sess_id s = ar_session_id r"
    "\<not> fst (IsPeerBanned (ar_session_id r) j (sm_of p))" "mhas (Members s) j"
    "snap_marshal (codec_of E) (fst (session_snapshot E s p)) = Some b"
  shows "handleAuthStream E j (Some r) p =
    (Some \<lparr>jr_session_id = sess_id s, jr_assigned_roles = [''Viewer''], jr_snapshot = b,
       jr_session_name = Some (sess_name s), jr_error = None\<rparr>,
     announce_member E j (ar_username r) (snd (session_snapshot E s p)))"
proof -
  have "mget (sm_of p) (ar_session_id r) = Some s" using assms(1) by (simp add: GetSession_def)
  from AddPeer_cases [OF this, of "codec_of E" j "ar_username r" "[''Viewer'']" "rm_of p" "clk p"] assms(5)
  obtain i where "AddPeerToSession (codec_of E) (ar_session_id r) j (ar_username r) [''Viewer''] (sm_of p, rm_of p, clk p)
      = (Inr (s, i), sm_of p, rm_of p, clk p)" by blast
  then show ?thesis
    using assms by (simp add: handleAuthStream_def on_sessions_def case_prod_beta Let_def)
qed

lemma handleAuthStream_new:
  assumes "GetSession (ar_session_id r) (sm_of p) = Some s" "AdminPeerID s = ID p" "sess_id s = ar_session_id r"
    "\<not> fst (IsPeerBanned (ar_session_id r) j (sm_of p))" "\<not> mhas (Members s) j"
    "\<forall>d. snap_marshal (codec_of E) d \<noteq> None"
  obtains p1 s1 i b where
    "handleAuthStream E j (Some r) p =
      (Some \<lparr>jr_session_id = sess_id s, jr_assigned_roles = [''Viewer''], jr_snapshot = b,
         jr_session_name = Some (sess_name s), jr_error = None\<rparr>,
       announce_member E j (ar_username r) (snd (session_snapshot E s1 p1)))"
    "snap_marshal (codec_of E) (fst (session_snapshot E s1 p1)) = Some b"
    "sm_of p1 = mput (sm_of p) (ar_session_id r) s1" "mget (Members s1) j = Some i" "ui_username i = ar_username r"
    "rm_of p1 = fst (snd (SetPeerRoles (codec_of E) j [''Viewer''] (rm_of p, clk p)))" "nd p1 = nd p" "qc p1 = qc p"
    "sess_id s1 = sess_id s"
    "sm_of p1 = fst (snd (AddPeerToSession (codec_of E) (ar_session_id r) j (ar_username r) [''Viewer''] (sm_of p, rm_of p, clk p)))"
proof -
  let ?f = "AddPeerToSession (codec_of E) (ar_session_id r) j (ar_username r) [''Viewer'']"
  have "mget (sm_of p) (ar_session_id r) = Some s" using assms(1) by (simp add: GetSession_def)
  from AddPeer_cases [OF this, of "codec_of E" j "ar_username r" "[''Viewer'']" "rm_of p" "clk p"] assms(5)
  obtain s1 i where f: "fst (?f (sm_of p, rm_of p, clk p)) = Inr (s1, i)" "sess_id s1 = sess_id s" "sess_name s1 = sess_name s"
      "fst (snd (?f (sm_of p, rm_of p, clk p))) = mput (sm_of p) (ar_session_id r) s1" "mget (Members s1) j = Some i"
      "ui_username i = ar_username r"
      "fst (snd (snd (?f (sm_of p, rm_of p, clk p)))) = fst (snd (SetPeerRoles (codec_of E) j [''Viewer''] (rm_of p, clk p)))"
    by auto
  let ?p1 = "snd (on_sessions ?f p)"
  obtain b where b: "snap_marshal (codec_of E) (fst (session_snapshot E s1 ?p1)) = Some b" using assms(6) by blast
  have e: "handleAuthStream E j (Some r) p =
      (Some \<lparr>jr_session_id = sess_id s, jr_assigned_roles = [''Viewer''], jr_snapshot = b,
         jr_session_name = Some (sess_name s), jr_error = None\<rparr>,
       announce_member E j (ar_username r) (snd (session_snapshot E s1 ?p1)))"
    using assms(1-4) b f(1-3)
    by (simp add: handleAuthStream_def case_prod_beta Let_def)
  show ?thesis
    by (rule that [where i = i, OF e b]) (simp_all add: f)
qed

section \<open>Properties of the admission\<close>

text \<open>
  C10. The administrator's decision. A request for an unknown session, for a session of another peer or from
  a banned peer is answered with an error and changes nothing. Any other request is answered with the
  session; the sender is a member afterwards, with exactly the permissions of a viewer if it was not one
  before and with the ones it had if it was, and neither the queue, the node nor anybody else's
  permissions change.
\<close>

theorem handleAuthStream_decides:
  assumes "sm_ok (sm_of p)" "mget (definitions (rm_of p)) ''viewer'' = Some v"
    "\<forall>d. snap_marshal (codec_of E) d \<noteq> None" "handleAuthStream E j (Some r) p = (resp, p')"
  shows "case GetSession (ar_session_id r) (sm_of p) of
      None \<Rightarrow> p' = p \<and> (\<exists>e. resp = Some (error_response e))
    | Some s \<Rightarrow>
        if AdminPeerID s = ID p \<and> \<not> fst (IsPeerBanned (ar_session_id r) j (sm_of p)) then
          (\<exists>b. resp = Some \<lparr>jr_session_id = ar_session_id r, jr_assigned_roles = [''Viewer''], jr_snapshot = b,
             jr_session_name = Some (sess_name s), jr_error = None\<rparr>)
          \<and> IsPeerInSession (ar_session_id r) j (sm_of p')
          \<and> GetPermissionsForPeer (rm_of p') j =
             (if IsPeerInSession (ar_session_id r) j (sm_of p) then GetPermissionsForPeer (rm_of p) j else role_perms v)
          \<and> (\<forall>i. i \<noteq> j \<longrightarrow> GetPermissionsForPeer (rm_of p') i = GetPermissionsForPeer (rm_of p) i)
          \<and> qc p' = qc p \<and> nd p' = nd p
        else p' = p \<and> (\<exists>e. resp = Some (error_response e))"
proof (cases "GetSession (ar_session_id r) (sm_of p)")
  case None
  with handleAuthStream_refuses [of r p j E] assms(4) show ?thesis by auto
next
  case (Some s)
  then have g: "mget (sm_of p) (ar_session_id r) = Some s" by (simp add: GetSession_def)
  have sid: "sess_id s = ar_session_id r" using sm_okD [OF assms(1) g] by (simp add: session_ok_def)
  show ?thesis
  proof (cases "AdminPeerID s = ID p \<and> \<not> fst (IsPeerBanned (ar_session_id r) j (sm_of p))")
    case False
    with handleAuthStream_refuses [of r p j E] assms(4) Some sid show ?thesis by auto
  next
    case ok: True
    then have a: "AdminPeerID s = ID p" "\<not> fst (IsPeerBanned (ar_session_id r) j (sm_of p))" by simp_all
    show ?thesis
    proof (cases "mhas (Members s) j")
      case True
      from assms(3) obtain b where "snap_marshal (codec_of E) (fst (session_snapshot E s p)) = Some b" by blast
      from handleAuthStream_member [OF Some a(1) sid a(2) True this] True assms(4) Some ok g sid
      show ?thesis by (auto simp: IsPeerInSession_def)
    next
      case False
      obtain p1 s1 i b where n: "handleAuthStream E j (Some r) p =
          (Some \<lparr>jr_session_id = sess_id s, jr_assigned_roles = [''Viewer''], jr_snapshot = b,
             jr_session_name = Some (sess_name s), jr_error = None\<rparr>,
           announce_member E j (ar_username r) (snd (session_snapshot E s1 p1)))"
        "sm_of p1 = mput (sm_of p) (ar_session_id r) s1" "mget (Members s1) j = Some i"
        "rm_of p1 = fst (snd (SetPeerRoles (codec_of E) j [''Viewer''] (rm_of p, clk p)))" "nd p1 = nd p" "qc p1 = qc p"
        using handleAuthStream_new [OF Some a(1) sid a(2) False assms(3)] by metis
      show ?thesis
        using n SetPeerRoles_Viewer [OF assms(2)] False assms(4) Some ok g sid by (auto simp: IsPeerInSession_def)
    qed
  qed
qed

section \<open>Expulsion\<close>

lemma strip_roles_of_fields [simp]:
  "nd (strip_roles_of E t p) = nd p" "qc (strip_roles_of E t p) = qc p" "sm_of (strip_roles_of E t p) = sm_of p"
  "rm_of (strip_roles_of E t p) = fst (snd (SetPeerRoles (codec_of E) t [] (rm_of p, clk p)))"
  by (simp_all add: strip_roles_of_def Let_def case_prod_beta split: sum.split option.split)

lemma if_pair_nd [simp]: "nd (snd (if b then now_hlc p else (h, p))) = nd p"
  "sm_of (snd (if b then now_hlc p else (h, p))) = sm_of p" "rm_of (snd (if b then now_hlc p else (h, p))) = rm_of p"
  by simp_all

definition expel_guard :: "env \<Rightarrow> permission \<Rightarrow> target_cmd \<Rightarrow> peer_id \<Rightarrow> peer_id \<Rightarrow> session \<Rightarrow> peer \<Rightarrow> bool" where
  "expel_guard E perm cmd sender t s p \<longleftrightarrow> Has (GetPermissionsForPeer (rm_of p) sender) perm
     \<and> tc_target cmd \<noteq> '''' \<and> tc_target cmd \<noteq> pid_string (codec_of E) sender
     \<and> pid_decode (codec_of E) (tc_target cmd) = Some t
     \<and> GetCurrentSessionID p \<noteq> '''' \<and> GetCurrentSessionID p \<noteq> ''default''
     \<and> GetSession (GetCurrentSessionID p) (sm_of p) = Some s
     \<and> \<not> (AdminPeerID s = t \<and> sender \<noteq> AdminPeerID s)
     \<and> IsPeerInSession (GetCurrentSessionID p) t (sm_of p)"

lemma SetPeerRoles_others: "j \<noteq> t \<Longrightarrow> GetPermissionsForPeer (fst (snd (SetPeerRoles K t ns (rm, c)))) j = GetPermissionsForPeer rm j"
  by (auto simp: SetPeerRoles_def Let_def case_prod_beta GetAssignedRoles_def intro!: GetPermissionsForPeer_cong split: sum.split)

lemma kick_cases:
  obtains (none) "handleKickPeerCmd E cmd sender p = p"
  | (kicked) t s where "expel_guard E PermKickUser cmd sender t s p"
      "sm_of (handleKickPeerCmd E cmd sender p) = snd (RemovePeerFromSession (GetCurrentSessionID p) t (sm_of p))"
      "GetPermissionsForPeer (rm_of (handleKickPeerCmd E cmd sender p)) t = 0"
      "\<forall>j. j \<noteq> t \<longrightarrow> GetPermissionsForPeer (rm_of (handleKickPeerCmd E cmd sender p)) j = GetPermissionsForPeer (rm_of p) j"
proof (cases "\<exists>t s. expel_guard E PermKickUser cmd sender t s p")
  case False
  then have "handleKickPeerCmd E cmd sender p = p"
    by (auto simp: handleKickPeerCmd_def expel_guard_def Let_def split: option.split)
  then show thesis by (rule none)
next
  case True
  then obtain t s where g: "expel_guard E PermKickUser cmd sender t s p" by blast
  then obtain m where m: "mget (Members s) t = Some m" "mget (sm_of p) (GetCurrentSessionID p) = Some s"
    by (auto simp: expel_guard_def IsPeerInSession_def GetSession_def)
  then have r: "RemovePeerFromSession (GetCurrentSessionID p) t (sm_of p) =
      (Inr (m, True), mput (sm_of p) (GetCurrentSessionID p) (s\<lparr>Members := mdel (Members s) t\<rparr>))"
    by (simp add: RemovePeerFromSession_def)
  have "sm_of (handleKickPeerCmd E cmd sender p) = snd (RemovePeerFromSession (GetCurrentSessionID p) t (sm_of p))"
    "GetPermissionsForPeer (rm_of (handleKickPeerCmd E cmd sender p)) t = 0"
    "\<forall>j. j \<noteq> t \<longrightarrow> GetPermissionsForPeer (rm_of (handleKickPeerCmd E cmd sender p)) j = GetPermissionsForPeer (rm_of p) j"
    using g r by (auto simp: handleKickPeerCmd_def expel_guard_def Let_def case_prod_beta SetPeerRoles_empty SetPeerRoles_others)
  then show thesis by (rule kicked [OF g])
qed

lemma ban_cases:
  obtains (none) "handleBanPeerCmd E cmd sender p = p"
  | (banned) t s h where "expel_guard E PermBanUser cmd sender t s p"
      "sm_of (handleBanPeerCmd E cmd sender p) = snd (BanPeer (GetCurrentSessionID p) t sender (tc_reason cmd) h (sm_of p))"
      "GetPermissionsForPeer (rm_of (handleBanPeerCmd E cmd sender p)) t = 0"
      "nd (handleBanPeerCmd E cmd sender p) = nd p"
      "\<forall>j. j \<noteq> t \<longrightarrow> GetPermissionsForPeer (rm_of (handleBanPeerCmd E cmd sender p)) j = GetPermissionsForPeer (rm_of p) j"
proof (cases "\<exists>t s. expel_guard E PermBanUser cmd sender t s p")
  case False
  then have "handleBanPeerCmd E cmd sender p = p"
    by (auto simp: handleBanPeerCmd_def expel_guard_def Let_def split: option.split)
  then show thesis by (rule none)
next
  case True
  then obtain t s where g: "expel_guard E PermBanUser cmd sender t s p" by blast
  then have m: "mget (sm_of p) (GetCurrentSessionID p) = Some s" by (simp add: expel_guard_def GetSession_def)
  define h where "h = fst (if tc_hlc_ts cmd = 0 then now_hlc p else (tc_hlc_ts cmd, p))"
  obtain info sm where b: "BanPeer (GetCurrentSessionID p) t sender (tc_reason cmd) h (sm_of p) = (Inr info, sm)"
    using m by (simp add: BanPeer_def Let_def case_prod_beta)
  have "sm_of (handleBanPeerCmd E cmd sender p) = snd (BanPeer (GetCurrentSessionID p) t sender (tc_reason cmd) h (sm_of p))"
    "GetPermissionsForPeer (rm_of (handleBanPeerCmd E cmd sender p)) t = 0"
    "nd (handleBanPeerCmd E cmd sender p) = nd p"
    "\<forall>j. j \<noteq> t \<longrightarrow> GetPermissionsForPeer (rm_of (handleBanPeerCmd E cmd sender p)) j = GetPermissionsForPeer (rm_of p) j"
    using g b h_def by (auto simp: handleBanPeerCmd_def expel_guard_def Let_def case_prod_beta SetPeerRoles_empty SetPeerRoles_others)
  then show thesis by (rule banned [OF g])
qed

lemma RemovePeer_gone: "\<not> IsPeerInSession sid t (snd (RemovePeerFromSession sid t sm))"
  by (auto simp: RemovePeer_sm IsPeerInSession_def split: option.split)

lemma RemovePeer_others:
  "IsPeerInSession sid t (snd (RemovePeerFromSession sid' t' sm)) \<longleftrightarrow> IsPeerInSession sid t sm \<and> (sid', t') \<noteq> (sid, t)"
  by (auto simp: RemovePeer_sm IsPeerInSession_def split: option.splits)

lemma BanPeer_others:
  "IsPeerInSession sid t (snd (BanPeer sid' t' b r h sm)) \<longleftrightarrow> IsPeerInSession sid t sm \<and> (sid', t') \<noteq> (sid, t)"
  by (auto simp: BanPeer_sm IsPeerInSession_def split: option.splits)

lemma BanPeer_banned:
  "mget sm sid = Some s \<Longrightarrow> fst (IsPeerBanned sid t (snd (BanPeer sid t b r h sm)))"
  by (simp add: BanPeer_sm IsPeerBanned_def)

text \<open>A kick or a ban that takes the member \<open>t\<close> out of the session \<open>sid\<close>.\<close>

lemma expulsion_cases:
  assumes "(perm, p') \<in> {(PermKickUser, handleKickPeerCmd E cmd sender p), (PermBanUser, handleBanPeerCmd E cmd sender p)}"
    "IsPeerInSession sid t (sm_of p)" "\<not> IsPeerInSession sid t (sm_of p')"
  shows "(\<exists>s. expel_guard E perm cmd sender t s p) \<and> sid = GetCurrentSessionID p \<and> GetPermissionsForPeer (rm_of p') t = 0
    \<and> (\<forall>x j. IsPeerInSession x j (sm_of p') \<longleftrightarrow> IsPeerInSession x j (sm_of p) \<and> (x, j) \<noteq> (sid, t))
    \<and> (\<forall>j. j \<noteq> t \<longrightarrow> GetPermissionsForPeer (rm_of p') j = GetPermissionsForPeer (rm_of p) j)
    \<and> (perm = PermBanUser \<longrightarrow> is_banned (sm_of p') sid t)"
proof -
  have ne: "PermKickUser \<noteq> PermBanUser" by (simp add: PermKickUser_def PermBanUser_def push_bit_eq_mult)
  consider (kick) "perm = PermKickUser" "p' = handleKickPeerCmd E cmd sender p"
    | (ban) "perm = PermBanUser" "p' = handleBanPeerCmd E cmd sender p" using assms(1) by auto
  then show ?thesis
  proof cases
    case kick
    with assms(2,3) ne show ?thesis by (cases rule: kick_cases [of E cmd sender p]) (auto simp: RemovePeer_others)
  next
    case ban
    with assms(2,3) show ?thesis
      by (cases rule: ban_cases [of E cmd sender p]) (auto simp: BanPeer_others is_banned_def expel_guard_def GetSession_def intro: BanPeer_banned)
  qed
qed

section \<open>The joiner's copy\<close>

lemma normalized_clean_names: "names_clean ns \<Longrightarrow> normalized ns = ns"
  unfolding names_clean_def normalized_def by (induction ns) auto

lemma apply_assignments_snapshot:
  assumes "codec_ok K" "keys_ok m"
    "\<forall>(q, st) \<in> set m. names_clean (role_names st) \<and> (\<forall>n \<in> set (role_names st). mhas (definitions rm) n)
      \<and> (case mget (assignments rm) q of None \<Rightarrow> True | Some st' \<Rightarrow> assign_ts st' <s assign_ts st)"
  shows "definitions (apply_assignments K (map (\<lambda>(q, st). Some \<lparr>pra_peer_id = pid_string K q, pra_role_names = role_names st,
      pra_hlc_ts = assign_ts st\<rparr>) m) rm) = definitions rm \<and>
    mget (assignments (apply_assignments K (map (\<lambda>(q, st). Some \<lparr>pra_peer_id = pid_string K q, pra_role_names = role_names st,
      pra_hlc_ts = assign_ts st\<rparr>) m) rm)) k = (case mget m k of None \<Rightarrow> mget (assignments rm) k | Some st \<Rightarrow> Some st)"
  using assms(2,3)
proof (induction m arbitrary: rm)
  case (Cons e m)
  obtain q st where e: "e = (q, st)" by (cases e)
  have q: "q \<notin> fst ` set m" and m: "keys_ok m" using Cons.prems(1) by (auto simp: e keys_ok_def)
  let ?rm = "rm\<lparr>assignments := mput (assignments rm) q st\<rparr>"
  have c: "names_clean (role_names st)" "\<forall>n \<in> set (role_names st). mhas (definitions rm) n"
    "case mget (assignments rm) q of None \<Rightarrow> True | Some st' \<Rightarrow> assign_ts st' <s assign_ts st"
    using Cons.prems(2) by (auto simp: e)
  have eta: "\<lparr>role_names = role_names st, assign_ts = assign_ts st\<rparr> = st" by simp
  have "normalize_names (definitions rm) (role_names st) = Inr (role_names st)"
    unfolding normalize_names_Inr using c(1,2) by (auto simp: normalized_clean_names names_clean_def)
  moreover have "role_names st \<noteq> []" using c(1) by (simp add: names_clean_def)
  ultimately have "snd (ApplyPeerAssignment q (role_names st) (assign_ts st) rm) =
      rm\<lparr>assignments := mput (assignments rm) q \<lparr>role_names = role_names st, assign_ts = assign_ts st\<rparr>\<rparr>"
    using c(3) by (simp add: ApplyPeerAssignment_def)
  then have "snd (ApplyPeerAssignment q (role_names st) (assign_ts st) rm) = ?rm"
    unfolding eta .
  moreover have "\<forall>(q', st') \<in> set m. names_clean (role_names st') \<and> (\<forall>n \<in> set (role_names st'). mhas (definitions ?rm) n)
      \<and> (case mget (assignments ?rm) q' of None \<Rightarrow> True | Some st'' \<Rightarrow> assign_ts st'' <s assign_ts st')"
  proof (rule ballI, unfold split_paired_all, simp only: prod.case)
    fix q' st' assume mem: "(q', st') \<in> set m"
    then have "q' \<noteq> q" using q by force
    with bspec [OF Cons.prems(2), of "(q', st')"] mem
    show "names_clean (role_names st') \<and> (\<forall>n \<in> set (role_names st'). mhas (definitions ?rm) n)
      \<and> (case mget (assignments ?rm) q' of None \<Rightarrow> True | Some st'' \<Rightarrow> assign_ts st'' <s assign_ts st')"
      by (simp add: e)
  qed
  moreover have "mget m q = None" using q by (simp add: map_of_eq_None_iff)
  ultimately show ?case
    using Cons.IH [OF m, of ?rm] assms(1) by (auto simp: e split: option.split)
qed simp

lemma item_pb_id: "codec_ok K \<Longrightarrow> item_of_pb K (pb_item K x) = Some x"
  by (simp add: item_of_pb_def pb_item_def)

lemma map_filter_pb: "codec_ok K \<Longrightarrow> List.map_filter (item_of_pb K) (map (pb_item K) xs) = xs"
  by (induction xs) (simp_all add: item_pb_id List.map_filter_simps)

lemma Items_Replace [simp]: "Items (ReplaceItems xs q) = xs"
  by (simp add: Items_def ReplaceItems_def updateCursorAfterMutation_def Let_def)

lemma ApplyUpdate_items:
  assumes "codec_ok (codec_of E)" "Has (GetPermissionsForPeer (rm_of p) a) PermQueue"
  shows "map (\<lambda>x. x\<lparr>FirstSeq := 0\<rparr>) (Items (queue_of (snd (ApplyUpdate E \<lparr>qu_items = map (pb_item (codec_of E)) xs, qu_hlc_ts = t\<rparr> a p))))
    = map (\<lambda>x. x\<lparr>FirstSeq := 0\<rparr>) xs"
proof -
  have "content (queue_of (snd (ApplyUpdate E \<lparr>qu_items = map (pb_item (codec_of E)) xs, qu_hlc_ts = t\<rparr> a p)))
      = content (ReplaceItems xs (queue_of p))"
    using assms by (simp add: ApplyUpdate_def Let_def case_prod_beta map_filter_pb)
  then show "map (\<lambda>x. x\<lparr>FirstSeq := 0\<rparr>) (Items (queue_of (snd (ApplyUpdate E \<lparr>qu_items = map (pb_item (codec_of E)) xs, qu_hlc_ts = t\<rparr> a p))))
    = map (\<lambda>x. x\<lparr>FirstSeq := 0\<rparr>) xs"
    by (metis content_items Items_Replace)
qed

lemma handleAuthStream_success:
  assumes "handleAuthStream E j req a = (Some resp, a')" "jr_error resp = None"
  obtains s1 p1 where "snap_marshal (codec_of E) (fst (session_snapshot E s1 p1)) = Some (jr_snapshot resp)"
    "rm_of a' = rm_of p1" "queue_of a' = queue_of p1"
proof -
  have "\<exists>s1 p1. snap_marshal (codec_of E) (fst (session_snapshot E s1 p1)) = Some (jr_snapshot resp)
      \<and> rm_of a' = rm_of p1 \<and> queue_of a' = queue_of p1"
    using assms
    by (auto simp: handleAuthStream_def error_response_def Let_def case_prod_beta queue_of_def simp del: on_sessions_fields
        split: option.splits if_splits sum.splits) (metis on_sessions_fields(1))
  with that show ?thesis by blast
qed

lemma SetCurrent_fields [simp]:
  "qc (SetCurrentSessionID s p) = qc p" "rm_of (SetCurrentSessionID s p) = rm_of p" "sm_of (SetCurrentSessionID s p) = sm_of p"
  by (simp_all add: SetCurrentSessionID_def)

lemma process_fields:
  "rm_of (processAdminJoinResponse E resp admin p) = (case snap_unmarshal (codec_of E) (jr_snapshot resp) of
      Some d \<Rightarrow> if jr_snapshot resp \<noteq> [] then rm_of (apply_session_snapshot E admin d (SetCurrentSessionID (jr_session_id resp) p)) else rm_of p
    | None \<Rightarrow> rm_of p)"
  "qc (processAdminJoinResponse E resp admin p) = (case snap_unmarshal (codec_of E) (jr_snapshot resp) of
      Some d \<Rightarrow> if jr_snapshot resp \<noteq> [] then qc (apply_session_snapshot E admin d (SetCurrentSessionID (jr_session_id resp) p)) else qc p
    | None \<Rightarrow> qc p)"
  by (auto simp: processAdminJoinResponse_def Let_def case_prod_beta split: option.split)

lemma ApplyUpdate_rm [simp]: "rm_of (snd (ApplyUpdate E u i p)) = rm_of p"
  by (simp add: ApplyUpdate_def Let_def case_prod_beta)

text \<open>
  The two handlers of the handshake: what the joiner has after it has processed the answer of the administrator, if both know the same role definitions.
\<close>

lemma snapshot_replicates:
  assumes "codec_ok (codec_of E)" "handleAuthStream E j req a = (Some resp, a')" "jr_error resp = None"
    "jr_snapshot resp \<noteq> []" "definitions (rm_of b) = definitions (rm_of a')" "keys_ok (assignments (rm_of a'))"
    "\<forall>(q, st) \<in> set (assignments (rm_of a')). names_clean (role_names st)
      \<and> (\<forall>n \<in> set (role_names st). mhas (definitions (rm_of a')) n)
      \<and> (case mget (assignments (rm_of b)) q of None \<Rightarrow> True | Some st' \<Rightarrow> assign_ts st' <s assign_ts st)"
    "Has (GetPermissionsForPeer (rm_of a') admin) PermQueue"
  shows "let b' = processAdminJoinResponse E resp admin b in
    (\<forall>q. mhas (assignments (rm_of a')) q \<longrightarrow> GetPermissionsForPeer (rm_of b') q = GetPermissionsForPeer (rm_of a') q)
    \<and> map (\<lambda>x. x\<lparr>FirstSeq := 0\<rparr>) (Items (queue_of b')) = map (\<lambda>x. x\<lparr>FirstSeq := 0\<rparr>) (Items (queue_of a'))"
proof -
  let ?K = "codec_of E" and ?as = "assignments (rm_of a')"
  obtain s1 p1 where s: "snap_marshal ?K (fst (session_snapshot E s1 p1)) = Some (jr_snapshot resp)"
    "rm_of a' = rm_of p1" "queue_of a' = queue_of p1"
    by (rule handleAuthStream_success [OF assms(2,3)])
  then have u: "snap_unmarshal ?K (jr_snapshot resp) = Some (fst (session_snapshot E s1 p1))"
    using codec_ok_snapshot [OF assms(1)] by blast
  let ?d = "fst (session_snapshot E s1 p1)" and ?b = "SetCurrentSessionID (jr_session_id resp) b"
  let ?msg = "map (\<lambda>(q, st). Some \<lparr>pra_peer_id = pid_string ?K q, pra_role_names = role_names st, pra_hlc_ts = assign_ts st\<rparr>) ?as"
  let ?rm = "apply_assignments ?K ?msg (rm_of b)"
  obtain t1 t2 where d: "ssd_assignments ?d = Some \<lparr>apra_assignments = ?msg, apra_hlc_ts = t1\<rparr>"
    "ssd_queue ?d = Some \<lparr>qu_items = map (pb_item ?K) (Items (queue_of a')), qu_hlc_ts = t2\<rparr>"
    using s(2,3) by (auto simp: session_snapshot_def Let_def case_prod_beta GetAllAssignments_def comp_def)
  have ball: "\<forall>(q, st) \<in> set ?as. names_clean (role_names st) \<and> (\<forall>n \<in> set (role_names st). mhas (definitions (rm_of b)) n)
      \<and> (case mget (assignments (rm_of b)) q of None \<Rightarrow> True | Some st' \<Rightarrow> assign_ts st' <s assign_ts st)"
    using assms(5,7) by simp
  note ap = apply_assignments_snapshot [OF assms(1,6) ball]
  have perms: "GetPermissionsForPeer ?rm q = GetPermissionsForPeer (rm_of a') q" if "mhas ?as q" for q
    using that ap [of q] assms(5) by (auto simp: GetPermissionsForPeer_def GetAssignedRoles_def)
  have "mhas ?as admin" using assms(8) by (auto simp: GetPermissionsForPeer_def GetAssignedRoles_def split: option.splits)
  then have adm: "Has (GetPermissionsForPeer ?rm admin) PermQueue" using perms assms(8) by simp
  let ?b1 = "?b\<lparr>rm_of := ?rm\<rparr>"
  have e: "apply_session_snapshot E admin ?d ?b = snd (ApplyUpdate E
      \<lparr>qu_items = map (pb_item ?K) (Items (queue_of a')), qu_hlc_ts = t2\<rparr> admin ?b1)"
    by (simp add: apply_session_snapshot_def d ApplyAllAssignmentsSnapshot_def)
  have rm: "rm_of (processAdminJoinResponse E resp admin b) = ?rm"
    using assms(4) u by (simp add: process_fields e)
  have q: "queue_of (processAdminJoinResponse E resp admin b) = queue_of (snd (ApplyUpdate E
      \<lparr>qu_items = map (pb_item ?K) (Items (queue_of a')), qu_hlc_ts = t2\<rparr> admin ?b1))"
    using assms(4) u by (simp add: queue_of_def process_fields e)
  show ?thesis
    unfolding Let_def rm q using perms ApplyUpdate_items [OF assms(1), of ?b1 admin] adm by simp
qed

section \<open>Joining again, and probing\<close>

lemma ApplyPeerAssignment_Viewer:
  assumes "mget (definitions rm) ''viewer'' = Some v"
    "case mget (assignments rm) j of None \<Rightarrow> True | Some st \<Rightarrow> assign_ts st <s ts"
  shows "GetPermissionsForPeer (snd (ApplyPeerAssignment j [''Viewer''] ts rm)) j = role_perms v"
  using assms
  by (simp add: ApplyPeerAssignment_def normalize_Viewer GetPermissionsForPeer_def GetAssignedRoles_def
      del: normalize_names.simps)

lemma announce_publishes:
  assumes "CtrlTopic p = Some t"
  shows "\<exists>ts. Publish t (PeerRoleAssignment \<lparr>pra_peer_id = pid_string (codec_of E) j, pra_role_names = [''Viewer''], pra_hlc_ts = ts\<rparr>)
    \<in> set (trace (announce_member E j u p))"
  using assms
  by (auto simp: announce_member_def Let_def case_prod_beta publishToControlTopic_def CtrlTopic_def publish_def)

text \<open>
  Joining again costs a member its roles everywhere else. When a peer that is already a member joins
  again, its roles at the administrator stay as they are, but the administrator announces the roles of a
  viewer for it with a fresh timestamp, and every other peer whose information is older takes them.
\<close>

theorem rejoin_demotes_elsewhere:
  assumes "sm_ok (sm_of p)" "GetSession sid (sm_of p) = Some s" "AdminPeerID s = ID p"
    "\<not> fst (IsPeerBanned sid j (sm_of p))" "IsPeerInSession sid j (sm_of p)"
    "\<forall>d. snap_marshal (codec_of E) d \<noteq> None" "CtrlTopic p = Some t"
  shows "let p' = snd (handleAuthStream E j (Some \<lparr>ar_session_id = sid, ar_username = u\<rparr>) p) in rm_of p' = rm_of p \<and>
    (\<exists>ts. Publish t (PeerRoleAssignment \<lparr>pra_peer_id = pid_string (codec_of E) j, pra_role_names = [''Viewer''], pra_hlc_ts = ts\<rparr>)
        \<in> set (trace p') \<and>
      (\<forall>rm v. mget (definitions rm) ''viewer'' = Some v \<longrightarrow>
        (case mget (assignments rm) j of None \<Rightarrow> True | Some st \<Rightarrow> assign_ts st <s ts) \<longrightarrow>
        GetPermissionsForPeer (snd (ApplyPeerAssignment j [''Viewer''] ts rm)) j = role_perms v))"
proof -
  let ?r = "\<lparr>ar_session_id = sid, ar_username = u\<rparr>"
  have g: "mget (sm_of p) sid = Some s" using assms(2) by (simp add: GetSession_def)
  have sid: "sess_id s = ar_session_id ?r" using sm_okD [OF assms(1) g] by (simp add: session_ok_def)
  have m: "mhas (Members s) j" using assms(5) g by (simp add: IsPeerInSession_def)
  obtain b where b: "snap_marshal (codec_of E) (fst (session_snapshot E s p)) = Some b" using assms(6) by blast
  have "snd (handleAuthStream E j (Some ?r) p) = announce_member E j u (snd (session_snapshot E s p))"
    using handleAuthStream_member [of ?r p s j E b] assms(2-4) sid m b by simp
  moreover have "CtrlTopic (snd (session_snapshot E s p)) = Some t" using assms(7) by (simp add: CtrlTopic_def)
  ultimately show ?thesis
    using announce_publishes [of "snd (session_snapshot E s p)" t E j u] ApplyPeerAssignment_Viewer by (auto simp: Let_def)
qed

lemma handleAuthStream_again:
  assumes "IsPeerInSession sid j (sm_of p)" "sm_ok (sm_of p)"
  shows "sm_of (snd (handleAuthStream E j (Some \<lparr>ar_session_id = sid, ar_username = u\<rparr>) p)) = sm_of p"
proof -
  obtain s i where s: "mget (sm_of p) sid = Some s" "mget (Members s) j = Some i"
    using assms(1) by (auto simp: IsPeerInSession_def split: option.splits)
  then have "sess_id s = sid" using sm_okD [OF assms(2)] by (auto simp: session_ok_def)
  then have "AddPeerToSession (codec_of E) (sess_id s) j u [''Viewer''] (sm_of p, rm_of p, clk p) = (Inr (s, i), sm_of p, rm_of p, clk p)"
    using s by (simp add: AddPeerToSession_def)
  with s show ?thesis
    by (simp add: handleAuthStream_def GetSession_def Let_def case_prod_beta split: option.split)
qed

text \<open>
  Looking for the administrator joins the session. The peer exchange asks every candidate with a join
  request for the user \<open>discovery-test\<close>. An administrator answers it like any other: without an error, which
  the exchange reads as a refusal, and with the peer admitted under that name, which a later join with
  the real name does not change.
\<close>

theorem discovery_probe_joins:
  assumes "sm_ok (sm_of p)" "GetSession sid (sm_of p) = Some s" "AdminPeerID s = ID p"
    "\<not> fst (IsPeerBanned sid j (sm_of p))" "\<not> IsPeerInSession sid j (sm_of p)"
    "\<forall>d. snap_marshal (codec_of E) d \<noteq> None"
  shows "let (resp, p1) = handleAuthStream E j (Some \<lparr>ar_session_id = sid, ar_username = ''discovery-test''\<rparr>) p;
      p2 = snd (handleAuthStream E j (Some \<lparr>ar_session_id = sid, ar_username = u\<rparr>) p1)
    in map_option jr_error resp = Some None \<and> IsPeerInSession sid j (sm_of p1)
      \<and> (\<exists>s2 i. GetSession sid (sm_of p2) = Some s2 \<and> mget (Members s2) j = Some i \<and> ui_username i = ''discovery-test'')"
proof -
  let ?r = "\<lparr>ar_session_id = sid, ar_username = ''discovery-test''\<rparr>"
  have g: "mget (sm_of p) sid = Some s" using assms(2) by (simp add: GetSession_def)
  have so: "session_ok sid s" using sm_okD [OF assms(1) g] .
  then have sid: "sess_id s = ar_session_id ?r" by (simp add: session_ok_def)
  have m: "\<not> mhas (Members s) j" using assms(5) g by (simp add: IsPeerInSession_def)
  obtain p1 s1 i b where n: "handleAuthStream E j (Some ?r) p =
      (Some \<lparr>jr_session_id = sess_id s, jr_assigned_roles = [''Viewer''], jr_snapshot = b,
         jr_session_name = Some (sess_name s), jr_error = None\<rparr>,
       announce_member E j (ar_username ?r) (snd (session_snapshot E s1 p1)))"
    "sm_of p1 = mput (sm_of p) (ar_session_id ?r) s1" "mget (Members s1) j = Some i" "ui_username i = ar_username ?r"
    "sm_of p1 = fst (snd (AddPeerToSession (codec_of E) (ar_session_id ?r) j (ar_username ?r) [''Viewer''] (sm_of p, rm_of p, clk p)))"
    by (rule handleAuthStream_new [of ?r p s j E]) (use assms(2-4,6) sid m in simp_all)
  let ?p1 = "snd (handleAuthStream E j (Some ?r) p)"
  have sm1: "sm_of ?p1 = mput (sm_of p) sid s1" using n by simp
  have "sm_of ?p1 = fst (session_exec (codec_of E) (CmdAdd sid j ''discovery-test'' [''Viewer'']) (sm_of p, rm_of p, clk p))"
    using n(1,5) by simp
  then have "sm_ok (sm_of ?p1)" using sm_ok_exec [of "(sm_of p, rm_of p, clk p)"] assms(1) by (metis fst_conv)
  moreover have "IsPeerInSession sid j (sm_of ?p1)" using sm1 n(3) by (simp add: IsPeerInSession_def)
  ultimately have "sm_of (snd (handleAuthStream E j (Some \<lparr>ar_session_id = sid, ar_username = u\<rparr>) ?p1)) = sm_of ?p1"
    by (rule handleAuthStream_again [rotated])
  with n sm1 show ?thesis by (auto simp: Let_def case_prod_beta IsPeerInSession_def GetSession_def)
qed

section \<open>Witnesses\<close>

definition ex_session :: session where
  "ex_session = \<lparr>sess_id = ''s'', AdminPeerID = PeerID ''a'', sess_name = ''film'', IsPrivate = False, InviteCode = ''s'',
     Members = [(PeerID ''a'', \<lparr>ui_username = ''ann'', ui_roles = [''Admin''], ui_peer = PeerID ''a''\<rparr>),
                (PeerID ''b'', \<lparr>ui_username = ''bob'', ui_roles = [''Viewer''], ui_peer = PeerID ''b''\<rparr>)],
     Banned = []\<rparr>"

definition ex_admin :: peer where
  "ex_admin = (ex_peer ''a'' ex_roles (ex_queue 3) 7)\<lparr>sm_of := [(''s'', ex_session)],
     nd := (NewNode (PeerID ''a''))\<lparr>currentSessionID := ''s'', ctrlTopic := Some ''ctrl''\<rparr>\<rparr>"

definition ex_marshal_env :: env where
  "ex_marshal_env = ex_env\<lparr>codec_of := plain_codec\<lparr>snap_marshal := (\<lambda>_. Some [1])\<rparr>\<rparr>"

lemma ex_admin_facts:
  "sm_ok (sm_of ex_admin)" "GetSession ''s'' (sm_of ex_admin) = Some ex_session" "AdminPeerID ex_session = ID ex_admin"
  "\<not> fst (IsPeerBanned ''s'' j (sm_of ex_admin))" "IsPeerInSession ''s'' (PeerID ''b'') (sm_of ex_admin)"
  "\<not> IsPeerInSession ''s'' (PeerID ''c'') (sm_of ex_admin)" "CtrlTopic ex_admin = Some ''ctrl''"
  "\<forall>d. snap_marshal (codec_of ex_marshal_env) d \<noteq> None"
  by (auto simp: ex_admin_def ex_session_def sm_ok_def session_ok_def keys_ok_def GetSession_def ID_def NewNode_def
      IsPeerBanned_def IsPeerInSession_def CtrlTopic_def ex_marshal_env_def)

lemma ex_roles_viewer: "mget (definitions (rm_of ex_admin)) ''viewer'' = Some \<lparr>role_name = ''Viewer'', role_perms = PermView OR PermChat\<rparr>"
  by code_simp

theorem handleAuthStream_decides_witness:
  "GetPermissionsForPeer (rm_of (snd (handleAuthStream ex_marshal_env (PeerID ''c'')
     (Some \<lparr>ar_session_id = ''s'', ar_username = ''cy''\<rparr>) ex_admin))) (PeerID ''c'') = PermView OR PermChat"
  using handleAuthStream_decides [OF ex_admin_facts(1) ex_roles_viewer ex_admin_facts(8) prod.collapse [symmetric],
      of "PeerID ''c''" "\<lparr>ar_session_id = ''s'', ar_username = ''cy''\<rparr>"] ex_admin_facts(2-4,6)
  by simp

definition ex_ban :: target_cmd where
  "ex_ban = \<lparr>tc_target = ''b'', tc_reason = ''spam'', tc_hlc_ts = 9\<rparr>"

text \<open>A codec whose snapshots are the one the example sends.\<close>

definition ex_added :: "session \<times> peer" where
  "ex_added = (case on_sessions (AddPeerToSession plain_codec ''s'' (PeerID ''c'') ''cy'' [''Viewer'']) ex_admin of
     (Inr (s, i), p) \<Rightarrow> (s, p) | (Inl e, p) \<Rightarrow> (ex_session, p))"

definition ex_snapshot :: session_state_data where
  "ex_snapshot = fst (session_snapshot ex_env (fst ex_added) (snd ex_added))"

definition ex_snap_env :: env where
  "ex_snap_env = ex_env\<lparr>codec_of := plain_codec\<lparr>snap_marshal := (\<lambda>d. if d = ex_snapshot then Some [1] else None),
     snap_unmarshal := (\<lambda>b. if b = [1] then Some ex_snapshot else None)\<rparr>\<rparr>"

definition ex_answer :: "join_response option \<times> peer" where
  "ex_answer = handleAuthStream ex_snap_env (PeerID ''c'') (Some \<lparr>ar_session_id = ''s'', ar_username = ''cy''\<rparr>) ex_admin"

definition ex_joiner :: peer where
  "ex_joiner = ex_peer ''c'' NewRoleManager NewQueue 0"

lemma ex_added_eq: "on_sessions (AddPeerToSession plain_codec ''s'' (PeerID ''c'') ''cy'' [''Viewer'']) ex_admin =
    (Inr (fst ex_added, \<lparr>ui_username = ''cy'', ui_roles = [''Viewer''], ui_peer = PeerID ''c''\<rparr>), snd ex_added)"
  by (simp add: ex_added_def on_sessions_def AddPeerToSession_def ex_admin_def ex_session_def Let_def case_prod_beta)

lemma session_snapshot_codec:
  "pid_string (codec_of E) = pid_string (codec_of E') \<Longrightarrow> session_snapshot E s p = session_snapshot E' s p"
  by (simp add: session_snapshot_def GetAllAssignments_def pb_item_def [abs_def] Let_def)

lemma AddPeer_codec: "pid_string K = pid_string K' \<Longrightarrow> AddPeerToSession K sid j u rs st = AddPeerToSession K' sid j u rs st"
proof -
  assume e: "pid_string K = pid_string K'"
  have "SetPeerRoles K t ns s = SetPeerRoles K' t ns s" for t ns s
    unfolding SetPeerRoles_def e by (rule refl)
  then have s: "SetPeerRoles K = SetPeerRoles K'" by (intro ext)
  show ?thesis unfolding AddPeerToSession_def s by (rule refl)
qed

lemma ex_answer_eq: "ex_answer = (Some \<lparr>jr_session_id = sess_id (fst ex_added), jr_assigned_roles = [''Viewer''], jr_snapshot = [1],
     jr_session_name = Some (sess_name (fst ex_added)), jr_error = None\<rparr>,
   announce_member ex_snap_env (PeerID ''c'') ''cy'' (snd (session_snapshot ex_env (fst ex_added) (snd ex_added))))"
proof -
  have s: "session_snapshot ex_snap_env = session_snapshot ex_env"
    by (intro ext session_snapshot_codec) (simp add: ex_snap_env_def ex_env_def)
  have a: "AddPeerToSession (codec_of ex_snap_env) = AddPeerToSession plain_codec"
    by (intro ext AddPeer_codec) (simp add: ex_snap_env_def)
  have i: "sess_id ex_session = ''s''" by (simp add: ex_session_def)
  have m: "snap_marshal (codec_of ex_snap_env) (fst (session_snapshot ex_env (fst ex_added) (snd ex_added))) = Some [1]"
    by (simp add: ex_snap_env_def ex_snapshot_def)
  show ?thesis
    unfolding ex_answer_def
    by (simp add: handleAuthStream_def ex_admin_facts(2,4) ex_admin_facts(3) [symmetric] a i ex_added_eq s m Let_def
        case_prod_beta del: on_sessions_fields)
qed

lemma ex_answer_facts: "fst ex_answer \<noteq> None" "jr_error (the (fst ex_answer)) = None" "jr_snapshot (the (fst ex_answer)) \<noteq> []"
  "definitions (rm_of ex_joiner) = definitions (rm_of (snd ex_answer))" "keys_ok (assignments (rm_of (snd ex_answer)))"
  "\<forall>(q, st) \<in> set (assignments (rm_of (snd ex_answer))). names_clean (role_names st)
      \<and> (\<forall>n \<in> set (role_names st). mhas (definitions (rm_of (snd ex_answer))) n)
      \<and> (case mget (assignments (rm_of ex_joiner)) q of None \<Rightarrow> True | Some st' \<Rightarrow> assign_ts st' <s assign_ts st)"
  "Has (GetPermissionsForPeer (rm_of (snd ex_answer)) (PeerID ''a'')) PermQueue"
  unfolding ex_answer_eq snd_conv announce_member_fields session_snapshot_fields
  by (simp, simp, simp, code_simp+)

lemma ex_snap_env_ok: "codec_ok (codec_of ex_snap_env)"
  by (auto simp: codec_ok_def ex_snap_env_def plain_codec_def split: peer_id.split if_splits)

theorem rejoin_demotes_elsewhere_witness:
  "rm_of (snd (handleAuthStream ex_marshal_env (PeerID ''b'') (Some \<lparr>ar_session_id = ''s'', ar_username = ''bob''\<rparr>) ex_admin)) = rm_of ex_admin"
  using rejoin_demotes_elsewhere [OF ex_admin_facts(1-3,4,5,8,7), of "''bob''"] by (simp add: Let_def)

theorem discovery_probe_joins_witness:
  "IsPeerInSession ''s'' (PeerID ''c'') (sm_of (snd (handleAuthStream ex_marshal_env (PeerID ''c'')
     (Some \<lparr>ar_session_id = ''s'', ar_username = ''discovery-test''\<rparr>) ex_admin)))"
  using discovery_probe_joins [OF ex_admin_facts(1-3,4,6,8), of "''cy''"] by (simp add: Let_def case_prod_beta)

end
