(* ===== verification/Gossip.thy ===== *)
theory Gossip
  imports Admission
begin

text \<open>
  What a peer does with messages of other peers: the \<^verbatim>\<open>process*\<close> loops and \<^verbatim>\<open>handleGossip*\<close> functions
  of \<^verbatim>\<open>peer_service/main.go\<close>. One message is one step; a message that does not unmarshal is \<open>None\<close>. The segment
  loops take the size of the marshalled message, the arrival time of the segment and whether the
  publication succeeded.
\<close>

section \<open>Handlers of the control topic\<close>

definition sync_hlc :: "i64 \<Rightarrow> peer \<Rightarrow> peer" where
  "sync_hlc h p = (if 0 <s h then update_hlc h p else p)"

definition handleGossipQueueUpdate :: "env \<Rightarrow> queue_update \<Rightarrow> peer_id \<Rightarrow> peer \<Rightarrow> peer" where
  "handleGossipQueueUpdate E update src p = snd (ApplyUpdate E update src (sync_hlc (qu_hlc_ts update) p))"

definition handleGossipRoleDefinitionsUpdate :: "env \<Rightarrow> role_definitions_update \<Rightarrow> peer_id \<Rightarrow> peer \<Rightarrow> peer" where
  "handleGossipRoleDefinitionsUpdate E update src p0 =
     (let p = sync_hlc (rdu_hlc_ts update) p0
      in (case ApplyDefinitionsUpdate (Some update) (rm_of p) of
            (Inl e, rm) \<Rightarrow> p\<lparr>rm_of := rm\<rparr>
          | (Inr u, rm) \<Rightarrow>
              ReactToQueueUpdate E (hub_broadcast E (RoleDefinitionsUpdate update) (p\<lparr>rm_of := rm\<rparr>))))"

definition handleGossipPeerRoleAssignment :: "env \<Rightarrow> peer_role_assignment \<Rightarrow> peer_id \<Rightarrow> peer \<Rightarrow> peer" where
  "handleGossipPeerRoleAssignment E a src p0 =
     (let p = sync_hlc (pra_hlc_ts a) p0
      in (case pid_decode (codec_of E) (pra_peer_id a) of
            None \<Rightarrow> p
          | Some target \<Rightarrow>
              (case ApplyPeerAssignment target (pra_role_names a) (pra_hlc_ts a) (rm_of p) of
                 (Inl e, rm) \<Rightarrow> p\<lparr>rm_of := rm\<rparr>
               | (Inr changed, rm) \<Rightarrow>
                   (let p1 = p\<lparr>rm_of := rm\<rparr>
                    in if changed then
                         (let p2 = hub_broadcast E (PeerRoleAssignment a) p1
                          in if target = ID p2 then ReactToQueueUpdate E p2 else p2)
                       else p1))))"

definition handleGossipPeerLeft :: "env \<Rightarrow> peer_left \<Rightarrow> peer_id \<Rightarrow> peer \<Rightarrow> peer" where
  "handleGossipPeerLeft E left src p0 =
     (let p = sync_hlc (pl_hlc_ts left) p0
      in (case pid_decode (codec_of E) (pl_peer_id left) of
            None \<Rightarrow> p
          | Some target \<Rightarrow>
              (let p1 = p\<lparr>rm_of := snd (ApplyPeerAssignment target [] (pl_hlc_ts left) (rm_of p))\<rparr>;
                   sid = GetCurrentSessionID p1;
                   p2 = (if sid \<noteq> '''' \<and> sid \<noteq> ''default''
                         then p1\<lparr>sm_of := snd (RemovePeerFromSession sid target (sm_of p1))\<rparr> else p1)
               in hub_broadcast E (PeerLeft left) p2)))"

definition handleGossipAllPeerRoleAssignments :: "env \<Rightarrow> all_peer_role_assignments \<Rightarrow> peer_id \<Rightarrow> peer \<Rightarrow> peer" where
  "handleGossipAllPeerRoleAssignments E snapshot src p0 =
     (let p = sync_hlc (apra_hlc_ts snapshot) p0
      in (case ApplyAllAssignmentsSnapshot (codec_of E) (Some snapshot) (rm_of p) of
            (Inl e, rm) \<Rightarrow> p\<lparr>rm_of := rm\<rparr>
          | (Inr u, rm) \<Rightarrow>
              ReactToQueueUpdate E (hub_broadcast E (AllPeerRoleAssignments snapshot) (p\<lparr>rm_of := rm\<rparr>))))"

definition handleGossipPlaylistReset :: "env \<Rightarrow> playlist_reset \<Rightarrow> peer_id \<Rightarrow> peer \<Rightarrow> peer" where
  "handleGossipPlaylistReset E cmd src p0 =
     (let p = sync_hlc (pr_hlc_ts cmd) p0;
          p1 = p\<lparr>ring := Reset (pr_sequence cmd) (ring p), pendingDiscont := True\<rparr>
      in hub_broadcast E (PlaylistReset cmd) p1)"

definition handleGossipPlaybackStateCmd :: "env \<Rightarrow> set_playback_state \<Rightarrow> peer_id \<Rightarrow> peer \<Rightarrow> peer" where
  "handleGossipPlaybackStateCmd E cmd src p0 =
     (let p = sync_hlc (sp_hlc_ts cmd) p0
      in hub_broadcast E (PlaybackStateMsg cmd) (UpdateLastKnownPlaybackState (Some cmd) p))"

definition handleGossipLocalPeerIdentity :: "env \<Rightarrow> local_peer_identity \<Rightarrow> peer_id \<Rightarrow> peer \<Rightarrow> peer" where
  "handleGossipLocalPeerIdentity E identity src p = hub_broadcast E (LocalPeerIdentity identity) p"

text \<open>What the peer does when it is the one expelled.\<close>

definition leave_expelled :: "env \<Rightarrow> peer \<Rightarrow> peer" where
  "leave_expelled E p =
     (let p1 = SetCurrentSessionID ''default'' (snd (JoinSessionTopics E ''default'' p));
          (res, p2) = on_roles (SetPeerRoles (codec_of E) (ID p1) [''Admin'']) p1
      in (case res of
            Inr (Some a) \<Rightarrow>
              (let (t, p3) = now_hlc p2 in hub_broadcast E (PeerRoleAssignment (a\<lparr>pra_hlc_ts := t\<rparr>)) p3)
          | _ \<Rightarrow> p2))"

definition expelled :: "env \<Rightarrow> peer_expelled \<Rightarrow> server_msg \<Rightarrow> peer \<Rightarrow> peer" where
  "expelled E x msg p =
     hub_broadcast E msg (if pe_peer_id x = pid_string (codec_of E) (ID p) then leave_expelled E p else p)"

fun control_payload :: "env \<Rightarrow> server_msg \<Rightarrow> peer_id \<Rightarrow> peer \<Rightarrow> peer" where
  "control_payload E (QueueUpdate u) src p = handleGossipQueueUpdate E u src p"
| "control_payload E (RoleDefinitionsUpdate u) src p = handleGossipRoleDefinitionsUpdate E u src p"
| "control_payload E (PeerRoleAssignment a) src p = handleGossipPeerRoleAssignment E a src p"
| "control_payload E (AllPeerRoleAssignments a) src p = handleGossipAllPeerRoleAssignments E a src p"
| "control_payload E (PlaylistReset r) src p = handleGossipPlaylistReset E r src p"
| "control_payload E (PlaybackStateMsg s) src p = handleGossipPlaybackStateCmd E s src p"
| "control_payload E (LocalPeerIdentity i) src p = handleGossipLocalPeerIdentity E i src p"
| "control_payload E (PeerKicked x) src p = expelled E x (PeerKicked x) p"
| "control_payload E (PeerBanned x) src p = expelled E x (PeerBanned x) p"
| "control_payload E (PeerLeft l) src p = handleGossipPeerLeft E l src p"
| "control_payload E _ src p = p"

definition processControlTopicMessages :: "env \<Rightarrow> peer_id \<Rightarrow> server_msg option \<Rightarrow> peer \<Rightarrow> peer" where
  "processControlTopicMessages E src msg p =
     (if src = ID p then p else (case msg of None \<Rightarrow> p | Some m \<Rightarrow> control_payload E m src p))"

section \<open>The chat topic\<close>

definition processChatTopicMessages :: "env \<Rightarrow> peer_id \<Rightarrow> server_msg option \<Rightarrow> peer \<Rightarrow> peer" where
  "processChatTopicMessages E src msg p =
     (if src = ID p then p
      else
        (case msg of
           Some (ChatMsg c) \<Rightarrow> hub_broadcast E (ChatMsg c) (sync_hlc (cm_hlc_ts c) p)
         | Some (ChatDeleteMsg d) \<Rightarrow> hub_broadcast E (ChatDeleteMsg d) (sync_hlc (cd_hlc_ts d) p)
         | _ \<Rightarrow> p))"

section \<open>Video segments\<close>

definition processSegmentEvents :: "(video_segment_gossip \<Rightarrow> u64) \<Rightarrow> bool \<Rightarrow> peer \<Rightarrow> peer" where
  "processSegmentEvents wire_size pub_ok p0 =
     (case receive_event (ring p0) of
        None \<Rightarrow> p0
      | Some (seq, rb) \<Rightarrow>
          (let p = p0\<lparr>ring := rb\<rparr>;
               (headItem, headOk) = Head (queue_of p);
               isDesignatedStreamer = (headOk \<and> StoredBy headItem = ID p
                 \<and> Has (GetPermissionsForPeer (rm_of p) (ID p)) PermStream)
           in if \<not> isDesignatedStreamer then p
              else
                (case Get seq (ring p) of
                   None \<Rightarrow> p
                 | Some segmentData \<Rightarrow>
                     (let videoMsg = \<lparr>vs_sequence = seq, vs_data = segmentData,
                                      vs_duration = rb_GetSegmentActualDuration seq (ring p)\<rparr>
                      in (case VideoTopic p of
                            None \<Rightarrow> p
                          | Some t \<Rightarrow>
                              (if pub_ok then AddBytesUp (wire_size videoMsg) (p\<lparr>trace := trace p @ [PublishVideo t videoMsg]\<rparr>)
                               else p))))))"

definition processVideoSegmentMessages ::
  "peer_id \<Rightarrow> video_segment_gossip option \<Rightarrow> u64 \<Rightarrow> i64 \<Rightarrow> peer \<Rightarrow> peer" where
  "processVideoSegmentMessages src seg msg_size now p =
     (if src = ID p then p
      else
        (case seg of
           None \<Rightarrow> p
         | Some v \<Rightarrow>
             (if \<not> Has (GetPermissionsForPeer (rm_of p) (ID p)) PermView then p
              else
                (let rb1 = SetPublishEvents False (ring p);
                     rb2 = WriteAt (vs_sequence v) (vs_data v) 0 (vs_duration v) now rb1;
                     rb3 = SetPublishEvents True rb2
                 in AddBytesDown msg_size (p\<lparr>ring := rb3\<rparr>)))))"

section \<open>What a message leaves alone\<close>

lemma sync_fields [simp]:
  "nd (sync_hlc h p) = nd p" "qc (sync_hlc h p) = qc p" "rm_of (sync_hlc h p) = rm_of p" "sm_of (sync_hlc h p) = sm_of p"
  "ring (sync_hlc h p) = ring p" "queue_of (sync_hlc h p) = queue_of p" "hub_of (sync_hlc h p) = hub_of p"
  by (simp_all add: sync_hlc_def update_hlc_def queue_of_def)

lemma ring_rm_queue [simp]: "queue_of (p\<lparr>rm_of := rm\<rparr>) = queue_of p" "queue_of (p\<lparr>sm_of := sm\<rparr>) = queue_of p"
  "queue_of (p\<lparr>ring := r, pendingDiscont := b\<rparr>) = queue_of p" "ID (p\<lparr>rm_of := rm\<rparr>) = ID p" "ID (hub_broadcast E m p) = ID p"
  "ID (sync_hlc h p) = ID p"
  by (simp_all add: queue_of_def ID_def)

lemma leave_expelled_fields:
  "qc (leave_expelled E p) = qc p" "sm_of (leave_expelled E p) = sm_of p" "ring (leave_expelled E p) = ring p"
  "GetCurrentSessionID (leave_expelled E p) = ''default''"
  by (auto simp: leave_expelled_def Let_def case_prod_beta SetCurrentSessionID_def GetCurrentSessionID_def on_roles_def
      split: sum.split option.split)

lemma leave_expelled_definitions: "definitions (rm_of (leave_expelled E p)) = definitions (rm_of p)"
  by (auto simp: leave_expelled_def Let_def case_prod_beta SetPeerRoles_def on_roles_def SetCurrentSessionID_def
      split: sum.split option.split)

lemma apply_assignments_definitions [simp]: "definitions (apply_assignments K as rm) = definitions rm"
  by (induction K as rm rule: apply_assignments.induct)
    (auto simp: ApplyPeerAssignment_def split: option.split sum.split)

lemma ApplyPeerAssignment_definitions [simp]: "definitions (snd (ApplyPeerAssignment q ns t rm)) = definitions rm"
  by (simp add: ApplyPeerAssignment_def split: sum.split)

lemma hub_broadcast_session [simp]: "GetCurrentSessionID (hub_broadcast E m p) = GetCurrentSessionID p"
  by (simp add: GetCurrentSessionID_def)

lemma React_session [simp]: "GetCurrentSessionID (ReactToQueueUpdate E p) = GetCurrentSessionID p"
  by (simp add: GetCurrentSessionID_def)

lemma UpdateLastKnown_fields [simp]:
  "nd (UpdateLastKnownPlaybackState s p) = nd p" "rm_of (UpdateLastKnownPlaybackState s p) = rm_of p"
  "sm_of (UpdateLastKnownPlaybackState s p) = sm_of p" "queue_of (UpdateLastKnownPlaybackState s p) = queue_of p"
  by (simp_all add: UpdateLastKnownPlaybackState_def queue_of_def split: option.split)

lemma ApplyUpdate_frame [simp]:
  "sm_of (snd (ApplyUpdate E u i p)) = sm_of p" "host_ID (nd (snd (ApplyUpdate E u i p))) = host_ID (nd p)"
  "GetCurrentSessionID (snd (ApplyUpdate E u i p)) = GetCurrentSessionID p"
  by (simp_all add: ApplyUpdate_def Let_def case_prod_beta GetCurrentSessionID_def)

text \<open>One lemma per handler: the queue, the sessions, the node's session and the role definitions.\<close>

definition framed :: "peer \<Rightarrow> peer \<Rightarrow> bool" where
  "framed p p' \<longleftrightarrow> content (queue_of p') = content (queue_of p) \<and> sm_of p' = sm_of p
     \<and> GetCurrentSessionID p' = GetCurrentSessionID p \<and> definitions (rm_of p') = definitions (rm_of p)"

lemma framed_sync [simp]: "framed p (sync_hlc h p)" "GetCurrentSessionID (sync_hlc h p) = GetCurrentSessionID p"
  by (simp_all add: framed_def GetCurrentSessionID_def)

lemma rm_of_session [simp]: "GetCurrentSessionID (p\<lparr>rm_of := rm\<rparr>) = GetCurrentSessionID p"
  "GetCurrentSessionID (p\<lparr>sm_of := sm\<rparr>) = GetCurrentSessionID p"
  "GetCurrentSessionID (p\<lparr>ring := r, pendingDiscont := b\<rparr>) = GetCurrentSessionID p"
  by (simp_all add: GetCurrentSessionID_def)

lemma framed_roles [simp]: "framed p (handleGossipPeerRoleAssignment E a src p)"
  "framed p (handleGossipAllPeerRoleAssignments E as src p)"
  by (auto simp: framed_def handleGossipPeerRoleAssignment_def handleGossipAllPeerRoleAssignments_def
      ApplyAllAssignmentsSnapshot_def ApplyPeerAssignment_def Let_def split: option.split sum.split)

lemma framed_playback [simp]: "framed p (handleGossipPlaybackStateCmd E s src p)"
  "framed p (handleGossipLocalPeerIdentity E i src p)" "framed p (handleGossipPlaylistReset E r src p)"
proof -
  show "framed p (handleGossipPlaybackStateCmd E s src p)"
    by (simp add: framed_def handleGossipPlaybackStateCmd_def Let_def) (simp add: GetCurrentSessionID_def)
  show "framed p (handleGossipLocalPeerIdentity E i src p)"
    by (simp add: framed_def handleGossipLocalPeerIdentity_def)
  show "framed p (handleGossipPlaylistReset E r src p)"
    by (simp add: framed_def handleGossipPlaylistReset_def Let_def)
qed

lemma queue_update_frame:
  "sm_of (handleGossipQueueUpdate E u src p) = sm_of p"
  "GetCurrentSessionID (handleGossipQueueUpdate E u src p) = GetCurrentSessionID p"
  "rm_of (handleGossipQueueUpdate E u src p) = rm_of p"
  "content (queue_of (handleGossipQueueUpdate E u src p)) \<noteq> content (queue_of p) \<Longrightarrow>
     Has (GetPermissionsForPeer (rm_of p) src) PermQueue"
  using ApplyUpdate_allowed [of E u src "sync_hlc (qu_hlc_ts u) p"] by (simp_all add: handleGossipQueueUpdate_def)

lemma definitions_update_frame:
  "sm_of (handleGossipRoleDefinitionsUpdate E u src p) = sm_of p"
  "GetCurrentSessionID (handleGossipRoleDefinitionsUpdate E u src p) = GetCurrentSessionID p"
  "content (queue_of (handleGossipRoleDefinitionsUpdate E u src p)) = content (queue_of p)"
  by (simp_all add: handleGossipRoleDefinitionsUpdate_def ApplyDefinitionsUpdate_def Let_def)

lemma peer_left_frame:
  "content (queue_of (handleGossipPeerLeft E l src p)) = content (queue_of p)"
  "GetCurrentSessionID (handleGossipPeerLeft E l src p) = GetCurrentSessionID p"
  "definitions (rm_of (handleGossipPeerLeft E l src p)) = definitions (rm_of p)"
  by (auto simp: handleGossipPeerLeft_def Let_def split: option.split)

lemma expelled_frame:
  "queue_of (expelled E x m p) = queue_of p" "sm_of (expelled E x m p) = sm_of p"
  "definitions (rm_of (expelled E x m p)) = definitions (rm_of p)"
  "pe_peer_id x \<noteq> pid_string (codec_of E) (ID p) \<Longrightarrow> GetCurrentSessionID (expelled E x m p) = GetCurrentSessionID p"
  by (simp_all add: expelled_def leave_expelled_fields leave_expelled_definitions queue_of_def)

section \<open>Properties\<close>

text \<open>
  What a control message can change. A message of another peer changes the items or the cursor of the
  queue only as a \<open>QueueUpdate\<close> of a peer that holds \<open>PermQueue\<close>; the members of a session only as a
  \<open>PeerLeft\<close>; the session the peer is in only as a kick or ban that names it; and the role definitions only
  as a \<open>RoleDefinitionsUpdate\<close>.
\<close>

theorem control_message_frame:
  assumes "p' = processControlTopicMessages E src msg p"
  shows "(content (queue_of p') \<noteq> content (queue_of p) \<longrightarrow>
      (\<exists>u. msg = Some (QueueUpdate u)) \<and> Has (GetPermissionsForPeer (rm_of p) src) PermQueue)
    \<and> (sm_of p' \<noteq> sm_of p \<longrightarrow> (\<exists>l. msg = Some (PeerLeft l)))
    \<and> (GetCurrentSessionID p' \<noteq> GetCurrentSessionID p \<longrightarrow>
        (\<exists>x. msg \<in> {Some (PeerKicked x), Some (PeerBanned x)} \<and> pe_peer_id x = pid_string (codec_of E) (ID p)))
    \<and> (definitions (rm_of p') \<noteq> definitions (rm_of p) \<longrightarrow> (\<exists>u. msg = Some (RoleDefinitionsUpdate u)))"
proof (cases "src = ID p \<or> msg = None")
  case True
  then show ?thesis using assms by (auto simp: processControlTopicMessages_def)
next
  case False
  then obtain m where m: "msg = Some m" "p' = control_payload E m src p"
    using assms by (auto simp: processControlTopicMessages_def)
  note fr = queue_update_frame definitions_update_frame peer_left_frame expelled_frame(1-3)
  have kick: "pe_peer_id x = pid_string (codec_of E) (ID p)"
    if "GetCurrentSessionID (expelled E x k p) \<noteq> GetCurrentSessionID p" for x k
    using that expelled_frame(4) by blast
  show ?thesis
    using framed_roles framed_playback
    by (cases m) (auto simp: m framed_def fr(1,2,3,5-13) dest: fr(4) kick)
qed

lemma control_message_frame_witness:
  "GetCurrentSessionID (processControlTopicMessages ex_env (PeerID ''b'') (Some (PeerRoleAssignment
      \<lparr>pra_peer_id = ''b'', pra_role_names = [''Admin''], pra_hlc_ts = 5\<rparr>)) ex_admin) = ''s''"
  using control_message_frame [OF refl, of ex_env "PeerID ''b''"
      "Some (PeerRoleAssignment \<lparr>pra_peer_id = ''b'', pra_role_names = [''Admin''], pra_hlc_ts = 5\<rparr>)" ex_admin]
  by (auto simp: ex_admin_def GetCurrentSessionID_def NewNode_def)

lemma lower_Admin: "to_lower (trim_space ''Admin'') = ''admin''" "normalized [''Admin''] = [''admin'']"
  by code_simp+

lemma normalize_Admin: "mget defs ''admin'' = Some r \<Longrightarrow> normalize_names defs [''Admin''] = Inr [''admin'']"
  unfolding normalize_names_Inr by (simp add: lower_Admin)

lemma gossip_admin:
  assumes "codec_ok (codec_of E)" "src \<noteq> ID p" "mget (definitions (rm_of p)) ''admin'' = Some r"
    "case mget (assignments (rm_of p)) src of None \<Rightarrow> True | Some st \<Rightarrow> assign_ts st <s t"
  defines "a \<equiv> \<lparr>pra_peer_id = pid_string (codec_of E) src, pra_role_names = [''Admin''], pra_hlc_ts = t\<rparr>"
  shows "GetPermissionsForPeer (rm_of (processControlTopicMessages E src (Some (PeerRoleAssignment a)) p)) src = role_perms r"
    "ID (processControlTopicMessages E src (Some (PeerRoleAssignment a)) p) = ID p"
  using assms(1-4)
  by (simp_all add: a_def processControlTopicMessages_def handleGossipPeerRoleAssignment_def ApplyPeerAssignment_def
      normalize_Admin GetPermissionsForPeer_def GetAssignedRoles_def Let_def del: normalize_names.simps)

text \<open>
  C35. Gossip is trusted. Messages of other peers are checked against the permissions of the sender only when
  they replace the queue. Any peer, whatever its roles and whether or not it is in the session, can make
  itself an administrator at everybody with one \<open>PeerRoleAssignment\<close>, and the \<open>QueueUpdate\<close> it sends next
  replaces their queues; a kick from anybody takes the peer it names to the default session.
\<close>

theorem gossip_takeover:
  assumes "codec_ok (codec_of E)" "src \<noteq> ID p" "mget (definitions (rm_of p)) ''admin'' = Some r" "Has (role_perms r) PermQueue"
    "case mget (assignments (rm_of p)) src of None \<Rightarrow> True | Some st \<Rightarrow> assign_ts st <s t"
  shows "let p1 = processControlTopicMessages E src (Some (PeerRoleAssignment
            \<lparr>pra_peer_id = pid_string (codec_of E) src, pra_role_names = [''Admin''], pra_hlc_ts = t\<rparr>)) p;
        p2 = processControlTopicMessages E src (Some (QueueUpdate \<lparr>qu_items = map (pb_item (codec_of E)) xs, qu_hlc_ts = u\<rparr>)) p1
      in GetPermissionsForPeer (rm_of p1) src = role_perms r
        \<and> map FilePath (Items (queue_of p2)) = map FilePath xs
        \<and> GetCurrentSessionID (processControlTopicMessages E src (Some (PeerKicked
        \<lparr>pe_peer_id = pid_string (codec_of E) (ID p), pe_issued_by = i, pe_reason = e, pe_hlc_ts = h\<rparr>)) p) = ''default''"
proof -
  let ?p1 = "processControlTopicMessages E src (Some (PeerRoleAssignment
            \<lparr>pra_peer_id = pid_string (codec_of E) src, pra_role_names = [''Admin''], pra_hlc_ts = t\<rparr>)) p"
  note a = gossip_admin [OF assms(1-3,5)]
  have perm: "Has (GetPermissionsForPeer (rm_of (sync_hlc u ?p1)) src) PermQueue" using a(1) assms(4) by simp
  have "map FilePath (map (\<lambda>x. x\<lparr>FirstSeq := 0\<rparr>) ys) = map FilePath ys" for ys
    by simp
  then have "map FilePath (Items (queue_of (snd (ApplyUpdate E \<lparr>qu_items = map (pb_item (codec_of E)) xs, qu_hlc_ts = u\<rparr> src
      (sync_hlc u ?p1))))) = map FilePath xs"
    using ApplyUpdate_items [OF assms(1) perm, of xs u] by metis
  moreover have "processControlTopicMessages E src (Some (QueueUpdate \<lparr>qu_items = map (pb_item (codec_of E)) xs, qu_hlc_ts = u\<rparr>)) ?p1
      = snd (ApplyUpdate E \<lparr>qu_items = map (pb_item (codec_of E)) xs, qu_hlc_ts = u\<rparr> src (sync_hlc u ?p1))"
    unfolding processControlTopicMessages_def [of E src "Some (QueueUpdate _)"] using a(2) assms(2)
    by (simp add: handleGossipQueueUpdate_def)
  moreover have "GetCurrentSessionID (processControlTopicMessages E src (Some (PeerKicked
        \<lparr>pe_peer_id = pid_string (codec_of E) (ID p), pe_issued_by = i, pe_reason = e, pe_hlc_ts = h\<rparr>)) p) = ''default''"
    using assms(2) by (simp add: processControlTopicMessages_def expelled_def leave_expelled_fields)
  ultimately show ?thesis unfolding Let_def using a(1) by simp
qed

lemma ex_takeover_facts:
  "codec_ok (codec_of ex_env)" "PeerID ''b'' \<noteq> ID ex_admin"
  "mget (definitions (rm_of ex_admin)) ''admin'' = Some \<lparr>role_name = ''Admin'', role_perms = PermAll\<rparr>"
  "Has (role_perms \<lparr>role_name = ''Admin'', role_perms = PermAll\<rparr>) PermQueue"
  "case mget (assignments (rm_of ex_admin)) (PeerID ''b'') of None \<Rightarrow> True | Some st \<Rightarrow> assign_ts st <s 5"
  "pid_string (codec_of ex_env) (PeerID ''b'') = ''b''"
  by (simp add: ex_env_def, simp add: ID_def ex_admin_def NewNode_def, code_simp, code_simp, code_simp, simp add: ex_env_def)

theorem gossip_takeover_witness:
  "GetPermissionsForPeer (rm_of (processControlTopicMessages ex_env (PeerID ''b'') (Some (PeerRoleAssignment
      \<lparr>pra_peer_id = ''b'', pra_role_names = [''Admin''], pra_hlc_ts = 5\<rparr>)) ex_admin)) (PeerID ''b'') = PermAll"
  using gossip_takeover [OF ex_takeover_facts(1-5), of "[]" 0] by (simp add: Let_def ex_takeover_facts(6))

end
