(* ===== verification/Discovery.thy ===== *)
theory Discovery
  imports Admission "HOL-Library.Multiset"
begin

text \<open>
  How a joiner finds and reaches the administrator of a session: the first two thirds of the
  \<^verbatim>\<open>JoinSessionRequest\<close> case of \<^verbatim>\<open>ControlStream\<close>, and the order of addresses, in \<^verbatim>\<open>peer_service/main.go\<close>.
  What the DHT, libp2p and the other peers answer is the parameter \<open>net_env\<close>: every answer it can give is a
  value of the record, indexed by the attempt where the code asks more than once. Waiting times are not
  modelled. A multiaddress is its text.
\<close>

section \<open>The network as the code sees it\<close>

record addr_info =
  ai_ID :: peer_id
  ai_Addrs :: "string list"

datatype io_err = NoErr | EOF | IoErr string

text \<open>
  One use of a \<^verbatim>\<open>/p2ptogether/auth/1\<close> stream: the errors of \<^verbatim>\<open>NewStream\<close>, \<^verbatim>\<open>proto.Marshal\<close> and \<^verbatim>\<open>Write\<close>, the
  bytes that wait in the stream and the error a \<^verbatim>\<open>Read\<close> of all of them returns.
\<close>

record exchange =
  x_open :: "string option"
  x_marshal :: "string option"
  x_write :: "string option"
  x_bytes :: bytes
  x_err :: io_err

text \<open>The three places that open such a stream.\<close>

datatype stage = PeerExchange | LocalNetwork | Authorize

record net_env =
  find_peers :: "nat \<Rightarrow> addr_info list option"
  net_peers :: "peer_id list"
  net_conns :: "peer_id list"
  protocols_of :: "peer_id \<Rightarrow> string list option"
  talk :: "stage \<Rightarrow> peer_id \<Rightarrow> auth_request \<Rightarrow> exchange"
  resp_unmarshal :: "bytes \<Rightarrow> string + join_response"
  peerstore :: "peer_id \<Rightarrow> string list"
  bootstrap_ok :: bool
  is_private :: "string \<Rightarrow> bool"
  connect_ok :: "nat \<Rightarrow> addr_info \<Rightarrow> bool"
  relay_peers :: "peer_id list"
  relay_parse :: "string \<Rightarrow> addr_info option"
  fresh_uuid :: string

text \<open>One \<^verbatim>\<open>Read\<close> into a buffer of \<open>n\<close> bytes.\<close>

definition read_buf :: "nat \<Rightarrow> exchange \<Rightarrow> bytes \<times> io_err" where
  "read_buf n x = (take n (x_bytes x), if n < length (x_bytes x) then NoErr else x_err x)"

definition read_failed :: "bytes \<times> io_err \<Rightarrow> bool" where
  "read_failed r = (case r of (b, e) \<Rightarrow> e \<noteq> NoErr \<and> \<not> (e = EOF \<and> b \<noteq> []))"

section \<open>Looking for the administrator\<close>

definition other_than :: "peer_id \<Rightarrow> addr_info list \<Rightarrow> addr_info option" where
  "other_than self ch = List.find (\<lambda>i. ai_ID i \<noteq> self) ch"

text \<open>The retry loop over the DHT: attempts \<open>attempt..maxRetries\<close>.\<close>

function dht_attempts :: "net_env \<Rightarrow> peer_id \<Rightarrow> nat \<Rightarrow> nat \<Rightarrow> addr_info option" where
  "dht_attempts N self maxRetries attempt =
     (if maxRetries < attempt then None
      else
        (case find_peers N attempt of
           None \<Rightarrow> dht_attempts N self maxRetries (Suc attempt)
         | Some ch \<Rightarrow>
             (case other_than self ch of
                None \<Rightarrow> dht_attempts N self maxRetries (Suc attempt)
              | Some i \<Rightarrow> Some i)))"
  by pat_completeness auto
termination by (relation "measure (\<lambda>(N, self, m, a). Suc m - a)") auto

definition session_not_found :: string where
  "session_not_found = ''Session not found''"

definition discovery_test :: "string \<Rightarrow> auth_request" where
  "discovery_test sid = \<lparr>ar_session_id = sid, ar_username = ''discovery-test''\<rparr>"

definition app_peers :: "net_env \<Rightarrow> peer_id list \<Rightarrow> peer_id list" where
  "app_peers N connectedPeers =
     filter (\<lambda>c. case protocols_of N c of None \<Rightarrow> False | Some ps \<Rightarrow> list_ex (\<lambda>x. contains_sub x ''p2ptogether'') ps) connectedPeers"

definition peers_to_try :: "net_env \<Rightarrow> peer_id list" where
  "peers_to_try N =
     (let appPeers = app_peers N (net_peers N)
      in if appPeers = [] then take (if length (net_peers N) < 5 then length (net_peers N) else 5) (net_peers N)
         else appPeers)"

text \<open>Strategy 1: does the answer of a connected peer show that it knows the session?\<close>

definition exchange_knows :: "net_env \<Rightarrow> string \<Rightarrow> peer_id \<Rightarrow> bool" where
  "exchange_knows N sid c =
     (let x = talk N PeerExchange c (discovery_test sid); r = read_buf 1024 x
      in if x_open x \<noteq> None then False
         else if x_marshal x \<noteq> None then False
         else if x_write x \<noteq> None then False
         else if read_failed r then False
         else if fst r = [] then False
         else
           (case resp_unmarshal N (fst r) of
              Inl e \<Rightarrow> False
            | Inr resp \<Rightarrow> (case jr_error resp of None \<Rightarrow> False | Some e \<Rightarrow> \<not> contains_sub e session_not_found)))"

definition peer_exchange :: "net_env \<Rightarrow> string \<Rightarrow> addr_info option" where
  "peer_exchange N sid =
     map_option (\<lambda>c. \<lparr>ai_ID = c, ai_Addrs = peerstore N c\<rparr>)
       (List.find (exchange_knows N sid) (take 10 (peers_to_try N)))"

text \<open>Strategy 2 asks every connection, ignores errors before the read and takes other answers.\<close>

definition local_knows :: "net_env \<Rightarrow> peer_id \<Rightarrow> string \<Rightarrow> peer_id \<Rightarrow> bool" where
  "local_knows N self sid c =
     (let x = talk N LocalNetwork c (discovery_test sid); (b, e) = read_buf 1024 x
      in if c = self then False
         else if x_open x \<noteq> None then False
         else if (e = NoErr \<or> (e = EOF \<and> b \<noteq> [])) \<and> b \<noteq> [] then
           (case resp_unmarshal N b of
              Inl err \<Rightarrow> False
            | Inr resp \<Rightarrow> (case jr_error resp of None \<Rightarrow> True | Some t \<Rightarrow> \<not> contains_sub t session_not_found))
         else False)"

definition local_discovery :: "net_env \<Rightarrow> peer_id \<Rightarrow> string \<Rightarrow> addr_info option" where
  "local_discovery N self sid =
     map_option (\<lambda>c. \<lparr>ai_ID = c, ai_Addrs = peerstore N c\<rparr>) (List.find (local_knows N self sid) (net_conns N))"

text \<open>Strategy 3: bootstrap the DHT again and ask it once more (attempt 5).\<close>

definition bootstrap_discovery :: "net_env \<Rightarrow> peer_id \<Rightarrow> addr_info option" where
  "bootstrap_discovery N self =
     (if \<not> bootstrap_ok N then None
      else (case find_peers N 5 of None \<Rightarrow> None | Some ch \<Rightarrow> other_than self ch))"

definition find_admin :: "net_env \<Rightarrow> peer_id \<Rightarrow> string \<Rightarrow> addr_info option" where
  "find_admin N self sid =
     (case dht_attempts N self 4 1 of
        Some i \<Rightarrow> Some i
      | None \<Rightarrow>
          (case peer_exchange N sid of
             Some i \<Rightarrow> Some i
           | None \<Rightarrow>
               (case local_discovery N self sid of
                  Some i \<Rightarrow> Some i
                | None \<Rightarrow> bootstrap_discovery N self)))"

section \<open>Addresses\<close>

text \<open>The merge of the addresses of the peerstore: \<open>seen\<close> is the set \<^verbatim>\<open>addrSet\<close>.\<close>

fun merge_loop :: "string list \<Rightarrow> string list \<Rightarrow> string list \<Rightarrow> string list" where
  "merge_loop addrs seen [] = addrs"
| "merge_loop addrs seen (a # as) =
     (if a \<in> set seen then merge_loop addrs seen as else merge_loop (addrs @ [a]) (a # seen) as)"

definition merge_addrs :: "string list \<Rightarrow> string list \<Rightarrow> string list" where
  "merge_addrs addrs extra = (if extra = [] then addrs else merge_loop addrs addrs extra)"

definition isQUICAddr :: "string \<Rightarrow> bool" where
  "isQUICAddr addr = contains_sub addr ''/quic''"

text \<open>The loop sorts the addresses into four lists.\<close>

fun sort_loop :: "(string \<Rightarrow> bool) \<Rightarrow> string list \<Rightarrow> string list \<times> string list \<times> string list \<times> string list
    \<Rightarrow> string list \<times> string list \<times> string list \<times> string list" where
  "sort_loop priv [] acc = acc"
| "sort_loop priv (addr # addrs) (localQuic, localOther, publicQuic, publicOther) =
     (let isLocal = priv addr; isQuic = isQUICAddr addr
      in sort_loop priv addrs
          (if isLocal \<and> isQuic then (localQuic @ [addr], localOther, publicQuic, publicOther)
           else if isLocal \<and> \<not> isQuic then (localQuic, localOther @ [addr], publicQuic, publicOther)
           else if \<not> isLocal \<and> isQuic then (localQuic, localOther, publicQuic @ [addr], publicOther)
           else (localQuic, localOther, publicQuic, publicOther @ [addr])))"

definition sortAddressesLocalFirst :: "(string \<Rightarrow> bool) \<Rightarrow> string list \<Rightarrow> string list" where
  "sortAddressesLocalFirst priv addrs =
     (case sort_loop priv addrs ([], [], [], []) of
        (localQuic, localOther, publicQuic, publicOther) \<Rightarrow> localQuic @ localOther @ publicQuic @ publicOther)"

definition admin_addrs :: "net_env \<Rightarrow> addr_info \<Rightarrow> addr_info" where
  "admin_addrs N i =
     i\<lparr>ai_Addrs := sortAddressesLocalFirst (is_private N) (merge_addrs (ai_Addrs i) (peerstore N (ai_ID i)))\<rparr>"

section \<open>Reaching the administrator\<close>

datatype conn_method = Direct nat | Relay peer_id

text \<open>Attempts \<open>attempt..3\<close> of a direct connection.\<close>

function direct_attempts :: "net_env \<Rightarrow> addr_info \<Rightarrow> nat \<Rightarrow> conn_method option" where
  "direct_attempts N i attempt =
     (if 3 < attempt then None
      else if connect_ok N attempt i then Some (Direct attempt)
      else direct_attempts N i (Suc attempt))"
  by pat_completeness auto
termination by (relation "measure (\<lambda>(N, i, a). 4 - a)") auto

text \<open>The loop over possible relays; \<open>relayAttempts\<close> have been made. A relay connection is attempt 4.\<close>

fun relay_loop :: "env \<Rightarrow> net_env \<Rightarrow> peer_id \<Rightarrow> addr_info \<Rightarrow> peer_id list \<Rightarrow> nat \<Rightarrow> conn_method option" where
  "relay_loop E N self i [] relayAttempts = None"
| "relay_loop E N self i (r # rs) relayAttempts =
     (if r = self \<or> r = ai_ID i then relay_loop E N self i rs relayAttempts
      else if 2 \<le> relayAttempts then None
      else
        (case relay_parse N (''/p2p/'' @ pid_string (codec_of E) r @ ''/p2p-circuit/p2p/'' @ pid_string (codec_of E) (ai_ID i)) of
           None \<Rightarrow> relay_loop E N self i rs (Suc relayAttempts)
         | Some a \<Rightarrow>
             (if connect_ok N 4 a then Some (Relay r) else relay_loop E N self i rs (Suc relayAttempts))))"

definition reach_admin :: "env \<Rightarrow> net_env \<Rightarrow> peer_id \<Rightarrow> addr_info \<Rightarrow> conn_method option" where
  "reach_admin E N self i =
     (case direct_attempts N i 1 of
        Some m \<Rightarrow> Some m
      | None \<Rightarrow> relay_loop E N self i (relay_peers N) 0)"

declare dht_attempts.simps [simp del] direct_attempts.simps [simp del]

section \<open>Lemmas\<close>

lemma dht_attempts_unfold:
  "dht_attempts N self m a = (if m < a then None else
     (case (case find_peers N a of None \<Rightarrow> None | Some ch \<Rightarrow> other_than self ch) of
        None \<Rightarrow> dht_attempts N self m (Suc a) | Some i \<Rightarrow> Some i))"
  by (subst dht_attempts.simps) (auto split: option.split)

lemma dht_attempts_None:
  "dht_attempts N self m a = None \<longleftrightarrow>
     (\<forall>k. a \<le> k \<and> k \<le> m \<longrightarrow> (case find_peers N k of None \<Rightarrow> True | Some ch \<Rightarrow> other_than self ch = None))"
proof (induction N self m a rule: dht_attempts.induct)
  case (1 N self m a)
  show ?case
  proof (cases "m < a")
    case True
    then show ?thesis by (auto simp: dht_attempts_unfold)
  next
    case False
    then have "dht_attempts N self m a = None \<longleftrightarrow>
        (case find_peers N a of None \<Rightarrow> True | Some ch \<Rightarrow> other_than self ch = None) \<and> dht_attempts N self m (Suc a) = None"
      by (subst dht_attempts_unfold) (auto split: option.splits)
    moreover have "dht_attempts N self m (Suc a) = None \<longleftrightarrow>
        (\<forall>k. Suc a \<le> k \<and> k \<le> m \<longrightarrow> (case find_peers N k of None \<Rightarrow> True | Some ch \<Rightarrow> other_than self ch = None))"
      if "(case find_peers N a of None \<Rightarrow> True | Some ch \<Rightarrow> other_than self ch = None)"
      using 1 False that by (auto split: option.splits)
    ultimately show ?thesis using False by (metis Suc_leD Suc_leI le_neq_implies_less not_less)
  qed
qed

lemma other_than_Some: "other_than self ch = Some i \<Longrightarrow> i \<in> set ch \<and> ai_ID i \<noteq> self"
  by (auto simp: other_than_def find_Some_iff)

lemma dht_attempts_Some:
  "dht_attempts N self m a = Some i \<Longrightarrow> \<exists>k ch. k \<le> m \<and> find_peers N k = Some ch \<and> i \<in> set ch \<and> ai_ID i \<noteq> self"
proof (induction N self m a rule: dht_attempts.induct)
  case (1 N self m a)
  from 1(3) have m: "\<not> m < a" by (auto simp: dht_attempts_unfold)
  show ?case
  proof (cases "dht_attempts N self m (Suc a) = Some i \<and> (\<forall>ch. find_peers N a = Some ch \<longrightarrow> other_than self ch = None)")
    case True
    with 1(1,2) m show ?thesis by (cases "find_peers N a") auto
  next
    case False
    with 1(3) m obtain ch where "find_peers N a = Some ch" "other_than self ch = Some i"
      unfolding dht_attempts_unfold [of N self m a] by (auto split: option.splits)
    with m other_than_Some show ?thesis by (metis leI)
  qed
qed

lemma direct_attempts_eq:
  "direct_attempts N i 1 = map_option Direct (List.find (\<lambda>k. connect_ok N k i) [1, 2, 3])"
  by (simp add: direct_attempts.simps numeral_2_eq_2 numeral_3_eq_3)

definition relay_works :: "env \<Rightarrow> net_env \<Rightarrow> addr_info \<Rightarrow> peer_id \<Rightarrow> bool" where
  "relay_works E N i r \<longleftrightarrow>
     (case relay_parse N (''/p2p/'' @ pid_string (codec_of E) r @ ''/p2p-circuit/p2p/'' @ pid_string (codec_of E) (ai_ID i)) of
        None \<Rightarrow> False | Some a \<Rightarrow> connect_ok N 4 a)"

lemma relay_loop_eq:
  "relay_loop E N self i rs n =
     map_option Relay (List.find (relay_works E N i) (take (2 - n) (filter (\<lambda>r. r \<noteq> self \<and> r \<noteq> ai_ID i) rs)))"
proof (induction rs arbitrary: n)
  case (Cons r rs)
  show ?case
  proof (cases "2 \<le> n")
    case False
    then have "2 - n = Suc (2 - Suc n)" by simp
    with False Cons show ?thesis by (simp add: relay_works_def split: option.split)
  qed (use Cons in simp)
qed simp

definition addr_priority :: "(string \<Rightarrow> bool) \<Rightarrow> string \<Rightarrow> nat" where
  "addr_priority priv a = (if priv a then 0 else 2) + (if isQUICAddr a then 0 else 1)"

lemma sort_loop_eq:
  "sort_loop priv as (a, b, c, d) =
     (a @ filter (\<lambda>x. addr_priority priv x = 0) as, b @ filter (\<lambda>x. addr_priority priv x = 1) as,
      c @ filter (\<lambda>x. addr_priority priv x = 2) as, d @ filter (\<lambda>x. addr_priority priv x = 3) as)"
  by (induction as arbitrary: a b c d) (auto simp: Let_def addr_priority_def)

lemma addr_priority_cases: "addr_priority priv a \<in> {0, 1, 2, 3}"
  by (simp add: addr_priority_def)

lemma filter_split4:
  assumes "\<And>x. f x \<in> {0, 1, 2, 3 :: nat}"
  shows "mset (filter (\<lambda>x. f x = 0) xs @ filter (\<lambda>x. f x = 1) xs @ filter (\<lambda>x. f x = 2) xs @ filter (\<lambda>x. f x = 3) xs) = mset xs"
proof (induction xs)
  case (Cons x xs)
  with assms [of x] show ?case by auto
qed simp

lemma sorted_const: "\<forall>x \<in> set xs. f x = (k :: nat) \<Longrightarrow> sorted (map f xs)"
  by (induction xs) auto

text \<open>
  The order of addresses. The four lists put one behind the other are the stable sort of the addresses by
  priority: private QUIC addresses first, then the other private ones, then public QUIC addresses, then
  the rest; no address is lost or duplicated and equal priorities keep their order.
\<close>

theorem sortAddresses_stable_sort:
  "sortAddressesLocalFirst priv addrs = sort_key (addr_priority priv) addrs"
proof -
  let ?f = "addr_priority priv"
  let ?p = "\<lambda>k. filter (\<lambda>x. ?f x = k) addrs"
  let ?ys = "?p 0 @ ?p 1 @ ?p 2 @ ?p 3"
  have "mset ?ys = mset addrs" by (rule filter_split4) (rule addr_priority_cases)
  moreover have "filter (\<lambda>x. ?f k = ?f x) ?ys = filter (\<lambda>x. ?f k = ?f x) addrs" for k
  proof -
    have "filter (\<lambda>x. ?f k = ?f x) (?p j) = (if j = ?f k then filter (\<lambda>x. ?f k = ?f x) addrs else [])" for j
      by (auto simp: filter_empty_conv intro: filter_cong)
    then show ?thesis using addr_priority_cases [of priv k] by auto
  qed
  moreover have "sorted (map ?f ?ys)"
    by (auto simp: sorted_append intro!: sorted_const)
  ultimately have "sort_key ?f addrs = ?ys" by (intro properties_for_sort_key) auto
  then show ?thesis by (simp add: sortAddressesLocalFirst_def sort_loop_eq)
qed

lemma find_mem: "List.find P xs = Some x \<Longrightarrow> x \<in> set xs \<and> P x"
  by (auto simp: find_Some_iff)

lemma peers_to_try_sub: "set (peers_to_try N) \<subseteq> set (net_peers N)"
  by (auto simp: peers_to_try_def Let_def app_peers_def dest: in_set_takeD)

text \<open>
  Who the joiner takes for the administrator. It is never the joiner itself, and it is either an entry of
  one of the five answers of the DHT, or a connected peer whose answer to the probe did not say that it
  does not know the session. The search fails only when every one of these has failed.
\<close>

theorem find_admin_sound:
  assumes "self \<notin> set (net_peers N)"
  shows "case find_admin N self sid of
      Some i \<Rightarrow> ai_ID i \<noteq> self \<and>
        ((\<exists>k ch. k \<le> 5 \<and> find_peers N k = Some ch \<and> i \<in> set ch)
         \<or> (ai_ID i \<in> set (net_peers N) \<and> exchange_knows N sid (ai_ID i))
         \<or> (ai_ID i \<in> set (net_conns N) \<and> local_knows N self sid (ai_ID i)))
    | None \<Rightarrow> (\<forall>k \<in> {1..4}. \<forall>ch. find_peers N k = Some ch \<longrightarrow> (\<forall>i \<in> set ch. ai_ID i = self))
        \<and> (\<forall>c \<in> set (take 10 (peers_to_try N)). \<not> exchange_knows N sid c)
        \<and> (\<forall>c \<in> set (net_conns N). \<not> local_knows N self sid c)"
proof (cases "find_admin N self sid")
  case None
  then have "dht_attempts N self 4 1 = None" "peer_exchange N sid = None" "local_discovery N self sid = None"
    by (auto simp: find_admin_def split: option.splits)
  then show ?thesis
    using None by (auto simp: dht_attempts_None other_than_def peer_exchange_def local_discovery_def find_None_iff split: option.splits)
next
  case (Some i)
  then consider (dht) "dht_attempts N self 4 1 = Some i" | (asked) "peer_exchange N sid = Some i"
    | (near) "local_discovery N self sid = Some i" | (boot) "bootstrap_discovery N self = Some i"
    by (auto simp: find_admin_def split: option.splits)
  then show ?thesis
  proof cases
    case dht
    then obtain k ch where "k \<le> 4" "find_peers N k = Some ch" "i \<in> set ch" "ai_ID i \<noteq> self"
      using dht_attempts_Some by metis
    then show ?thesis unfolding Some option.case by (intro conjI disjI1 exI [of _ k] exI [of _ ch]) auto
  next
    case asked
    then obtain c where c: "List.find (exchange_knows N sid) (take 10 (peers_to_try N)) = Some c" "ai_ID i = c"
      by (auto simp: peer_exchange_def)
    then have "c \<in> set (take 10 (peers_to_try N))" "exchange_knows N sid c" using find_mem [OF c(1)] by simp_all
    moreover have "c \<in> set (net_peers N)" using in_set_takeD [OF calculation(1)] peers_to_try_sub [of N] by auto
    ultimately show ?thesis unfolding Some option.case using c(2) assms by auto
  next
    case near
    then have "ai_ID i \<in> set (net_conns N)" "local_knows N self sid (ai_ID i)"
      by (auto simp: local_discovery_def find_Some_iff)
    moreover from this have "ai_ID i \<noteq> self" by (auto simp: local_knows_def Let_def split: prod.splits)
    ultimately show ?thesis unfolding Some option.case by blast
  next
    case boot
    then obtain ch where "find_peers N 5 = Some ch" "other_than self ch = Some i"
      by (auto simp: bootstrap_discovery_def split: option.splits if_splits)
    with other_than_Some show ?thesis unfolding Some option.case 
      by (intro conjI disjI1 exI [of _ 5] exI [of _ ch]) auto
  qed
qed

text \<open>
  Reaching the administrator takes at most five connections: the first of three direct attempts that
  succeeds, otherwise the first of the first two usable relays that does.
\<close>

theorem reach_admin_attempts:
  "reach_admin E N self i =
     (case List.find (\<lambda>k. connect_ok N k i) [1, 2, 3] of
        Some k \<Rightarrow> Some (Direct k)
      | None \<Rightarrow> map_option Relay (List.find (relay_works E N i)
          (take 2 (filter (\<lambda>r. r \<noteq> self \<and> r \<noteq> ai_ID i) (relay_peers N)))))"
  unfolding reach_admin_def direct_attempts_eq relay_loop_eq by (simp split: option.split)

section \<open>An example network\<close>

text \<open>The DHT knows the administrator \<open>a\<close> from the second attempt on.\<close>

definition ex_net :: net_env where
  "ex_net = \<lparr>find_peers = (\<lambda>k. if k < 2 then None else Some [\<lparr>ai_ID = PeerID ''c'', ai_Addrs = []\<rparr>, \<lparr>ai_ID = PeerID ''a'', ai_Addrs = [''/tcp'']\<rparr>]),
     net_peers = [PeerID ''r''], net_conns = [], protocols_of = (\<lambda>_. None),
     talk = (\<lambda>_ _ _. \<lparr>x_open = None, x_marshal = None, x_write = None, x_bytes = [1], x_err = EOF\<rparr>),
     resp_unmarshal = (\<lambda>_. Inr (error_response ''no'')), peerstore = (\<lambda>_. [''/quic-v1'']), bootstrap_ok = False,
     is_private = (\<lambda>_. False), connect_ok = (\<lambda>k _. k = 3), relay_peers = [], relay_parse = (\<lambda>_. None),
     fresh_uuid = ''u1''\<rparr>"

theorem find_admin_sound_witness:
  "find_admin ex_net (PeerID ''c'') ''s'' = Some \<lparr>ai_ID = PeerID ''a'', ai_Addrs = [''/tcp'']\<rparr> \<and>
     (\<exists>k ch. k \<le> 5 \<and> find_peers ex_net k = Some ch \<and> \<lparr>ai_ID = PeerID ''a'', ai_Addrs = [''/tcp'']\<rparr> \<in> set ch)"
proof -
  have f: "find_admin ex_net (PeerID ''c'') ''s'' = Some \<lparr>ai_ID = PeerID ''a'', ai_Addrs = [''/tcp'']\<rparr>"
    by (simp add: find_admin_def dht_attempts.simps ex_net_def other_than_def)
  have "PeerID ''c'' \<notin> set (net_peers ex_net)" "PeerID ''a'' \<notin> set (net_peers ex_net)" "net_conns ex_net = []"
    by (simp_all add: ex_net_def)
  with find_admin_sound [of "PeerID ''c''" ex_net "''s''"] f show ?thesis by simp
qed

end
