(* ===== verification/ControlStream.thy ===== *)
theory ControlStream
  imports Gossip Discovery
begin

text \<open>
  The bidirectional stream of a local client: \<^verbatim>\<open>ControlStream\<close> of \<^verbatim>\<open>peer_service/main.go\<close>. One received
  message is one step. A nil pointer that the code follows ends the whole process, because nothing
  recovers it: such a step has no result (\<open>None\<close>). The advertisement of a new session in the DHT has no
  effect on the peer's state and is left out, as is its waiting time.
\<close>

section \<open>Creating and leaving a session\<close>

definition from_opt :: "string option \<Rightarrow> string" where
  "from_opt x = (case x of None \<Rightarrow> '''' | Some s \<Rightarrow> s)"

definition session_created :: "env \<Rightarrow> nat \<Rightarrow> session \<Rightarrow> peer \<Rightarrow> peer" where
  "session_created E cs created p1 =
     (let (ok, p2) = JoinSessionTopics E (sess_id created) p1;
          p3 = (if ok then p2\<lparr>srv_ctrlTopic := CtrlTopic p2, srv_chatTopic := ChatTopic p2\<rparr> else p2);
          p4 = sendInitialState E cs (maybeStartMdns p3)
      in snd (stream_send E cs (CreateSessionResponse \<lparr>cr_session_id = sess_id created,
           cr_invite_code = InviteCode created, cr_error = None\<rparr>) p4))"

definition handleCreateSession :: "env \<Rightarrow> net_env \<Rightarrow> nat \<Rightarrow> string option \<Rightarrow> string option \<Rightarrow> peer \<Rightarrow> peer" where
  "handleCreateSession E N cs name user p =
     (case on_sessions (CreateSession (codec_of E) (fresh_uuid N) (ID p) (from_opt user) (from_opt name)) p of
        (Inl e, p1) \<Rightarrow>
          snd (stream_send E cs (CreateSessionResponse \<lparr>cr_session_id = '''', cr_invite_code = '''',
            cr_error = Some (''Failed to create session: '' @ session_error_text e)\<rparr>) p1)
      | (Inr created, p1) \<Rightarrow> session_created E cs created p1)"

definition in_real_session :: "peer \<Rightarrow> bool" where
  "in_real_session p \<longleftrightarrow> GetCurrentSessionID p \<noteq> '''' \<and> GetCurrentSessionID p \<noteq> ''default''"

definition tell_left :: "env \<Rightarrow> string \<Rightarrow> peer \<Rightarrow> peer" where
  "tell_left E reason p =
     (let (t, p1) = now_hlc p
      in snd (publishToControlTopic (PeerLeft \<lparr>pl_peer_id = pid_string (codec_of E) (ID p), pl_reason = reason,
           pl_hlc_ts = t\<rparr>) p1))"

definition handleLeaveSession :: "env \<Rightarrow> string \<Rightarrow> peer \<Rightarrow> peer" where
  "handleLeaveSession E sid p =
     (let cur = GetCurrentSessionID p
      in if sid \<noteq> '''' \<and> cur \<noteq> sid then p
         else
           (let p1 = (if in_real_session p
                      then tell_left E ''leave'' (p\<lparr>sm_of := snd (RemovePeerFromSession cur (ID p) (sm_of p))\<rparr>)
                      else p)
            in SetCurrentSessionID ''default'' (snd (JoinSessionTopics E ''default'' p1))))"

section \<open>Joining a session\<close>

definition join_error :: "env \<Rightarrow> nat \<Rightarrow> string \<Rightarrow> peer \<Rightarrow> peer" where
  "join_error E cs msg p = snd (stream_send E cs (JoinSessionResponse (error_response msg)) p)"

fun io_text :: "io_err \<Rightarrow> string" where
  "io_text NoErr = ''<nil>''"
| "io_text EOF = ''EOF''"
| "io_text (IoErr e) = e"

text \<open>The exchange with the administrator: its response, or the error the client is told.\<close>

definition authorize :: "env \<Rightarrow> net_env \<Rightarrow> string \<Rightarrow> string \<Rightarrow> peer_id \<Rightarrow> string + join_response" where
  "authorize E N sid user admin =
     (let x = talk N Authorize admin \<lparr>ar_session_id = sid, ar_username = user\<rparr>;
          A = pid_string (codec_of E) admin;
          (b, e) = read_buf 4096 x
      in (case x_open x of
            Some err \<Rightarrow> Inl (''Failed to open /auth/1 stream to Admin '' @ A @ '': '' @ err)
          | None \<Rightarrow>
              (case x_marshal x of
                 Some err \<Rightarrow> Inl (''Failed to marshal AuthRequest: '' @ err)
               | None \<Rightarrow>
                   (case x_write x of
                      Some err \<Rightarrow> Inl (''Failed to write AuthRequest to Admin '' @ A @ '': '' @ err)
                    | None \<Rightarrow>
                        (if e \<noteq> NoErr \<and> \<not> (e = EOF \<and> b \<noteq> [])
                         then Inl (''Failed to read JoinSessionResponse from Admin '' @ A @ '': '' @ io_text e)
                         else if b = []
                         then Inl (''Failed to read JoinSessionResponse from Admin '' @ A @ '': empty response'')
                         else
                           (case resp_unmarshal N b of
                              Inl err \<Rightarrow> Inl (''Failed to unmarshal JoinSessionResponse from Admin '' @ A @ '': '' @ err)
                            | Inr resp \<Rightarrow> Inr resp))))))"

definition handleJoinSession :: "env \<Rightarrow> net_env \<Rightarrow> nat \<Rightarrow> string \<Rightarrow> string option \<Rightarrow> peer \<Rightarrow> peer" where
  "handleJoinSession E N cs sid user p0 =
     (let p = maybeStartMdns p0
      in (case find_admin N (ID p) sid of
            None \<Rightarrow> join_error E cs (''No providers found for session '' @ sid @
                '' on the DHT after exhaustive search (standard DHT + peer exchange + bootstrap).'') p
          | Some found \<Rightarrow>
              (let adminInfo = admin_addrs N found
               in (case reach_admin E N (ID p) adminInfo of
                     None \<Rightarrow> join_error E cs (''Failed to establish connection to session Admin '' @
                         pid_string (codec_of E) (ai_ID adminInfo) @
                         '' after trying direct and relay methods. Both peers may be behind symmetric NATs.'') p
                   | Some how \<Rightarrow>
                       (case authorize E N sid (from_opt user) (ai_ID adminInfo) of
                          Inl msg \<Rightarrow> join_error E cs msg p
                        | Inr resp \<Rightarrow>
                            (if from_opt (jr_error resp) \<noteq> '''' then snd (stream_send E cs (JoinSessionResponse resp) p)
                             else snd (stream_send E cs (JoinSessionResponse resp)
                                    (processAdminJoinResponse E resp (ai_ID adminInfo) p))))))))"

section \<open>The other commands\<close>

definition handlePlaybackStateCmd :: "set_playback_state \<Rightarrow> peer \<Rightarrow> peer" where
  "handlePlaybackStateCmd s p =
     (let p1 = UpdateLastKnownPlaybackState (Some s) p;
          senderPerms = GetPermissionsForPeer (rm_of p1) (ID p1)
      in if Has senderPerms PermPlayPause \<or> Has senderPerms PermSeek \<or> Has senderPerms PermSetSpeed
         then snd (publishToControlTopic (PlaybackStateMsg s) p1) else p1)"

definition handleChatCmd :: "env \<Rightarrow> net_env \<Rightarrow> string \<Rightarrow> i64 \<Rightarrow> peer \<Rightarrow> peer" where
  "handleChatCmd E N txt h p =
     (let m = ChatMsg \<lparr>cm_message_id = fresh_uuid N, cm_sender = pid_string (codec_of E) (ID p), cm_text = txt,
                       cm_hlc_ts = h, cm_reply_to = ''''\<rparr>
      in snd (publishToChatTopic m (hub_broadcast E m p)))"

definition handleQueueCmd :: "env \<Rightarrow> queue_cmd \<Rightarrow> peer \<Rightarrow> peer" where
  "handleQueueCmd E c p =
     (if GetCurrentSessionID p = '''' then p else snd (Handle E c (ID p) (CtrlTopic p) p))"

text \<open>The timestamp of a message, where the code reads one.\<close>

fun client_hlc :: "client_msg \<Rightarrow> i64" where
  "client_hlc (QueueCmd c) = qc_hlc_ts c"
| "client_hlc (SetPeerRolesCmd target names h) = h"
| "client_hlc (UpdateRoleCmd d h) = h"
| "client_hlc (RemoveRoleCmd name h) = h"
| "client_hlc (PlaybackStateCmd s) = sp_hlc_ts s"
| "client_hlc (PlaybackStreamCompletedCmd s h) = h"
| "client_hlc (ChatCmd txt h reply) = h"
| "client_hlc (ChatDeleteCmd i h) = h"
| "client_hlc (KickPeerCmd c) = tc_hlc_ts c"
| "client_hlc (BanPeerCmd c) = tc_hlc_ts c"
| "client_hlc _ = 0"

fun client_switch :: "env \<Rightarrow> net_env \<Rightarrow> nat \<Rightarrow> client_msg \<Rightarrow> peer \<Rightarrow> peer" where
  "client_switch E N cs (CreateSessionRequest name user) p = handleCreateSession E N cs name user p"
| "client_switch E N cs (LeaveSessionRequest sid h) p = handleLeaveSession E sid p"
| "client_switch E N cs (JoinSessionRequest code user) p = handleJoinSession E N cs code user p"
| "client_switch E N cs (QueueCmd c) p = handleQueueCmd E c p"
| "client_switch E N cs (PlaybackStateCmd s) p = handlePlaybackStateCmd s p"
| "client_switch E N cs (SetPeerRolesCmd target names h) p = handleSetPeerRolesCmd E target names (ID p) p"
| "client_switch E N cs (UpdateRoleCmd d h) p = handleUpdateRoleCmd E d (ID p) p"
| "client_switch E N cs (RemoveRoleCmd name h) p = handleRemoveRoleCmd E name (ID p) p"
| "client_switch E N cs (PlaybackStreamCompletedCmd s h) p = NotifyPlayerStreamCompleted E s (ID p) p"
| "client_switch E N cs (ChatCmd txt h reply) p = handleChatCmd E N txt h p"
| "client_switch E N cs (ChatDeleteCmd i h) p = handleChatDeleteCmd E i h (ID p) p"
| "client_switch E N cs (KickPeerCmd c) p = handleKickPeerCmd E c (ID p) p"
| "client_switch E N cs (BanPeerCmd c) p = handleBanPeerCmd E c (ID p) p"

text \<open>The log line that describes a message follows the pointer to the definition of an \<open>UpdateRoleCmd\<close>.\<close>

definition describe_panics :: "client_msg \<Rightarrow> bool" where
  "describe_panics m = (case m of UpdateRoleCmd None h \<Rightarrow> True | _ \<Rightarrow> False)"

definition client_step :: "env \<Rightarrow> net_env \<Rightarrow> nat \<Rightarrow> client_msg \<Rightarrow> peer \<Rightarrow> peer option" where
  "client_step E N cs m p =
     (if describe_panics m then None
      else Some (client_switch E N cs m (sync_hlc (client_hlc m) p)))"

section \<open>The stream\<close>

fun client_loop :: "env \<Rightarrow> nat \<Rightarrow> (net_env \<times> client_msg) list \<Rightarrow> peer \<Rightarrow> peer option" where
  "client_loop E cs [] p = Some p"
| "client_loop E cs ((N, m) # ms) p = (case client_step E N cs m p of None \<Rightarrow> None | Some p1 \<Rightarrow> client_loop E cs ms p1)"

definition stream_opened :: "env \<Rightarrow> nat \<Rightarrow> peer \<Rightarrow> peer" where
  "stream_opened E cs p =
     sendInitialState E cs (p\<lparr>hub_of := hub_Add (pid_string (codec_of E) (ID p)) cs (hub_of p)\<rparr>)"

text \<open>The deferred function, when \<^verbatim>\<open>Recv\<close> fails or the client is gone.\<close>

definition stream_closed :: "env \<Rightarrow> peer \<Rightarrow> peer" where
  "stream_closed E p =
     (let p1 = (if in_real_session p then tell_left E ''disconnect'' p else p)
      in p1\<lparr>hub_of := hub_Remove (pid_string (codec_of E) (ID p)) (hub_of p1)\<rparr>)"

definition ControlStream :: "env \<Rightarrow> nat \<Rightarrow> (net_env \<times> client_msg) list \<Rightarrow> peer \<Rightarrow> peer option" where
  "ControlStream E cs ms p = map_option (stream_closed E) (client_loop E cs ms (stream_opened E cs p))"

section \<open>What a message leaves alone\<close>

lemma stream_send_fields [simp]:
  "nd (snd (stream_send E cs m p)) = nd p" "qc (snd (stream_send E cs m p)) = qc p"
  "rm_of (snd (stream_send E cs m p)) = rm_of p" "sm_of (snd (stream_send E cs m p)) = sm_of p"
  "ring (snd (stream_send E cs m p)) = ring p" "clk (snd (stream_send E cs m p)) = clk p"
  by (simp_all add: stream_send_def)

lemma qc_Snapshot_fields [simp]:
  "nd (snd (qc_Snapshot E p)) = nd p" "qc (snd (qc_Snapshot E p)) = qc p"
  "rm_of (snd (qc_Snapshot E p)) = rm_of p" "sm_of (snd (qc_Snapshot E p)) = sm_of p"
  by (simp_all add: qc_Snapshot_def Let_def case_prod_beta now_hlc_def)

lemma sendInitialState_fields [simp]:
  "nd (sendInitialState E cs p) = nd p" "qc (sendInitialState E cs p) = qc p"
  "rm_of (sendInitialState E cs p) = rm_of p" "sm_of (sendInitialState E cs p) = sm_of p"
  by (simp_all add: sendInitialState_def Let_def case_prod_beta)

lemma maybeStartMdns_fields [simp]:
  "nd (maybeStartMdns p) = nd p" "qc (maybeStartMdns p) = qc p" "rm_of (maybeStartMdns p) = rm_of p"
  "sm_of (maybeStartMdns p) = sm_of p"
  by (simp_all add: maybeStartMdns_def)

lemma tell_left_fields [simp]:
  "nd (tell_left E r p) = nd p" "qc (tell_left E r p) = qc p" "rm_of (tell_left E r p) = rm_of p"
  "sm_of (tell_left E r p) = sm_of p"
  by (simp_all add: tell_left_def Let_def case_prod_beta)

lemma process_sm [simp]:
  "sm_of (processAdminJoinResponse E resp admin p) = sm_of p"
  "definitions (rm_of (processAdminJoinResponse E resp admin p)) = definitions (rm_of p)"
  by (auto simp: processAdminJoinResponse_def apply_session_snapshot_def ApplyAllAssignmentsSnapshot_def Let_def case_prod_beta
      split: option.split)

lemma join_fields [simp]:
  "sm_of (handleJoinSession E N cs sid u p) = sm_of p"
  "definitions (rm_of (handleJoinSession E N cs sid u p)) = definitions (rm_of p)"
  by (auto simp: handleJoinSession_def join_error_def Let_def split: option.split sum.split)

lemma create_fields [simp]:
  "qc (handleCreateSession E N cs name user p) = qc p"
  "definitions (rm_of (handleCreateSession E N cs name user p)) = definitions (rm_of p)"
  by (auto simp: handleCreateSession_def session_created_def on_sessions_def CreateSession_def SetPeerRoles_def Let_def case_prod_beta
      split: option.split sum.split)

lemma leave_fields [simp]:
  "qc (handleLeaveSession E sid p) = qc p" "rm_of (handleLeaveSession E sid p) = rm_of p"
  "queue_of (handleLeaveSession E sid p) = queue_of p"
  by (simp_all add: handleLeaveSession_def Let_def queue_of_def)

lemma publish_queue [simp]: "queue_of (snd (publishToControlTopic m p)) = queue_of p"
  by (simp add: queue_of_def)

lemma playback_fields [simp]:
  "queue_of (handlePlaybackStateCmd s p) = queue_of p" "rm_of (handlePlaybackStateCmd s p) = rm_of p"
  "sm_of (handlePlaybackStateCmd s p) = sm_of p"
  by (simp_all add: handlePlaybackStateCmd_def Let_def)

lemma chat_fields [simp]:
  "qc (handleChatCmd E N x h p) = qc p" "rm_of (handleChatCmd E N x h p) = rm_of p" "sm_of (handleChatCmd E N x h p) = sm_of p"
  "qc (handleChatDeleteCmd E i h s p) = qc p" "rm_of (handleChatDeleteCmd E i h s p) = rm_of p"
  "sm_of (handleChatDeleteCmd E i h s p) = sm_of p"
  by (simp_all add: handleChatCmd_def handleChatDeleteCmd_def Let_def case_prod_beta)

lemma tell_assignments_fields [simp]:
  "qc (fold (tell_assignment E) as p) = qc p" "rm_of (fold (tell_assignment E) as p) = rm_of p"
  "sm_of (fold (tell_assignment E) as p) = sm_of p"
  by (induction as arbitrary: p) simp_all

lemma role_cmds_fields [simp]:
  "qc (handleSetPeerRolesCmd E t ns s p) = qc p" "sm_of (handleSetPeerRolesCmd E t ns s p) = sm_of p"
  "definitions (rm_of (handleSetPeerRolesCmd E t ns s p)) = definitions (rm_of p)"
  "qc (handleUpdateRoleCmd E d s p) = qc p" "sm_of (handleUpdateRoleCmd E d s p) = sm_of p"
  "assignments (rm_of (handleUpdateRoleCmd E d s p)) = assignments (rm_of p)"
  "qc (handleRemoveRoleCmd E n s p) = qc p" "sm_of (handleRemoveRoleCmd E n s p) = sm_of p"
  by (auto simp: handleSetPeerRolesCmd_def handleUpdateRoleCmd_def handleRemoveRoleCmd_def SetPeerRoles_def UpdateDefinition_def
      Let_def case_prod_beta split: option.split sum.split)

lemma role_cmds_allowed:
  "handleSetPeerRolesCmd E t ns s p \<noteq> p \<Longrightarrow> Has (GetPermissionsForPeer (rm_of p) s) PermManageUserRoles"
  "handleUpdateRoleCmd E d s p \<noteq> p \<Longrightarrow> Has (GetPermissionsForPeer (rm_of p) s) PermAddRemoveRoles"
  "handleRemoveRoleCmd E n s p \<noteq> p \<Longrightarrow> Has (GetPermissionsForPeer (rm_of p) s) PermAddRemoveRoles"
  "handleKickPeerCmd E c s p \<noteq> p \<Longrightarrow> Has (GetPermissionsForPeer (rm_of p) s) PermKickUser"
  "handleBanPeerCmd E c s p \<noteq> p \<Longrightarrow> Has (GetPermissionsForPeer (rm_of p) s) PermBanUser"
  by (rule ccontr, simp add: handleSetPeerRolesCmd_def handleUpdateRoleCmd_def handleRemoveRoleCmd_def handleKickPeerCmd_def
      handleBanPeerCmd_def Let_def)+

lemma SetPeerRoles_definitions [simp]: "definitions (fst (snd (SetPeerRoles K t ns (rm, c)))) = definitions rm"
  by (simp add: SetPeerRoles_def Let_def case_prod_beta split: sum.split option.split)

lemma expel_fields [simp]:
  "qc (handleKickPeerCmd E c s p) = qc p" "definitions (rm_of (handleKickPeerCmd E c s p)) = definitions (rm_of p)"
  "qc (handleBanPeerCmd E c s p) = qc p" "definitions (rm_of (handleBanPeerCmd E c s p)) = definitions (rm_of p)"
  by (simp_all add: handleKickPeerCmd_def handleBanPeerCmd_def Let_def case_prod_beta split: option.split sum.split)

lemma qc_queue: "qc p' = qc p \<Longrightarrow> queue_of p' = queue_of p"
  by (simp add: queue_of_def)

lemma handleQueueCmd_allowed:
  assumes "content (queue_of (handleQueueCmd E c p)) \<noteq> content (queue_of p)"
  shows "Has (GetPermissionsForPeer (rm_of p) (ID p)) PermQueue \<or> qc_type c = NEXT"
  using assms by (auto simp: handleQueueCmd_def Handle_def split: if_splits)

lemma switch_tables:
  "queue_switch E cmd s ty p = Inr (b, p') \<Longrightarrow> rm_of p' = rm_of p \<and> sm_of p' = sm_of p"
  by (cases ty) (auto simp: Let_def case_prod_beta split: if_splits)

lemma Handle_tables [simp]:
  "rm_of (snd (Handle E c s t p)) = rm_of p" "sm_of (snd (Handle E c s t p)) = sm_of p"
proof -
  have "rm_of (snd (Handle E c s t p)) = rm_of p \<and> sm_of (snd (Handle E c s t p)) = sm_of p"
  proof (cases "queue_switch E c s (qc_type c) p")
    case (Inr r)
    obtain b p1 where "r = (b, p1)" by (cases r)
    with Inr switch_tables [of E c s "qc_type c" p b p1] show ?thesis
      by (simp add: Handle_def Let_def case_prod_beta del: queue_switch.simps)
  qed (simp add: Handle_def Let_def del: queue_switch.simps)
  then show "rm_of (snd (Handle E c s t p)) = rm_of p" "sm_of (snd (Handle E c s t p)) = sm_of p" by simp_all
qed

lemma check_tables [simp]:
  "rm_of (checkAndAttemptQueueAdvance E s p) = rm_of p" "sm_of (checkAndAttemptQueueAdvance E s p) = sm_of p"
  by (simp_all add: checkAndAttemptQueueAdvance_def del_completion_def Let_def case_prod_beta split: option.split)

lemma Notify_tables [simp]:
  "rm_of (NotifyPlayerStreamCompleted E s i p) = rm_of p" "sm_of (NotifyPlayerStreamCompleted E s i p) = sm_of p"
  "rm_of (handleQueueCmd E c p) = rm_of p" "sm_of (handleQueueCmd E c p) = sm_of p"
  by (simp_all add: handleQueueCmd_def NotifyPlayerStreamCompleted_def set_completion_def Let_def)

lemma command_queues [simp]:
  "queue_of (handleCreateSession E N cs name user p) = queue_of p" "queue_of (handleChatCmd E N x h p) = queue_of p"
  "queue_of (handleChatDeleteCmd E i h s p) = queue_of p" "queue_of (handleSetPeerRolesCmd E t ns s p) = queue_of p"
  "queue_of (handleUpdateRoleCmd E d s p) = queue_of p" "queue_of (handleRemoveRoleCmd E n s p) = queue_of p"
  "queue_of (handleKickPeerCmd E c s p) = queue_of p" "queue_of (handleBanPeerCmd E c s p) = queue_of p"
  by (rule qc_queue, simp)+

section \<open>Properties\<close>

text \<open>
  A message of the client stops the service exactly when it is an \<open>UpdateRoleCmd\<close> without a definition: the
  line that logs the message reads the name of the definition before anything checks that there is one.
\<close>

theorem client_step_panics:
  "client_step E N cs m p = None \<longleftrightarrow> (\<exists>h. m = UpdateRoleCmd None h)"
  by (auto simp: client_step_def describe_panics_def split: client_msg.splits option.splits)

lemma client_step_cases:
  assumes "client_step E N cs m p = Some p'"
  obtains p0 where "p' = client_switch E N cs m p0" "rm_of p0 = rm_of p" "sm_of p0 = sm_of p" "queue_of p0 = queue_of p" "ID p0 = ID p"
proof (rule that)
  show "p' = client_switch E N cs m (sync_hlc (client_hlc m) p)" using assms by (simp add: client_step_def split: if_splits)
qed simp_all

text \<open>
  C5. What the client can change, and with which permissions of this peer. The queue: by a queue command with
  \<open>PermQueue\<close>, by a \<open>NEXT\<close>, by reporting the end of a stream, or by joining. The role definitions: with
  \<open>PermAddRemoveRoles\<close>. The roles of peers: with \<open>PermManageUserRoles\<close>, \<open>PermAddRemoveRoles\<close>, or the
  permission to kick or ban, or by creating or joining a session. The sessions: with the permission to kick
  or ban, or by creating or leaving one.
\<close>

theorem client_message_frame:
  assumes "client_step E N cs m p = Some p'"
  defines "may q \<equiv> Has (GetPermissionsForPeer (rm_of p) (ID p)) q"
  shows "(content (queue_of p') = content (queue_of p) \<or> (\<exists>c. m = QueueCmd c \<and> (may PermQueue \<or> qc_type c = NEXT))
      \<or> (\<exists>s h. m = PlaybackStreamCompletedCmd s h) \<or> (\<exists>c u. m = JoinSessionRequest c u))
    \<and> (definitions (rm_of p') = definitions (rm_of p)
      \<or> may PermAddRemoveRoles \<and> ((\<exists>d h. m = UpdateRoleCmd d h) \<or> (\<exists>n h. m = RemoveRoleCmd n h)))
    \<and> (assignments (rm_of p') = assignments (rm_of p)
      \<or> (\<exists>t ns h. m = SetPeerRolesCmd t ns h \<and> may PermManageUserRoles) \<or> (\<exists>n h. m = RemoveRoleCmd n h \<and> may PermAddRemoveRoles)
      \<or> (\<exists>c. m = KickPeerCmd c \<and> may PermKickUser) \<or> (\<exists>c. m = BanPeerCmd c \<and> may PermBanUser)
      \<or> (\<exists>n u. m = CreateSessionRequest n u) \<or> (\<exists>c u. m = JoinSessionRequest c u))
    \<and> (sm_of p' = sm_of p \<or> (\<exists>c. m = KickPeerCmd c \<and> may PermKickUser) \<or> (\<exists>c. m = BanPeerCmd c \<and> may PermBanUser)
      \<or> (\<exists>n u. m = CreateSessionRequest n u) \<or> (\<exists>s h. m = LeaveSessionRequest s h))"
proof -
  from assms(1) obtain p0 where p': "p' = client_switch E N cs m p0" and
    p0: "rm_of p0 = rm_of p" "sm_of p0 = sm_of p" "queue_of p0 = queue_of p" "ID p0 = ID p"
    by (rule client_step_cases)
  have roles: "\<not> may PermManageUserRoles \<Longrightarrow> handleSetPeerRolesCmd E t ns (ID p) p0 = p0"
    "\<not> may PermAddRemoveRoles \<Longrightarrow> handleUpdateRoleCmd E d (ID p) p0 = p0"
    "\<not> may PermAddRemoveRoles \<Longrightarrow> handleRemoveRoleCmd E n (ID p) p0 = p0" for t ns d n
    unfolding may_def using role_cmds_allowed(1-3) [where p = p0 and s = "ID p"] p0(1) by metis+
  have expels: "\<not> may PermKickUser \<Longrightarrow> handleKickPeerCmd E c (ID p) p0 = p0"
    "\<not> may PermBanUser \<Longrightarrow> handleBanPeerCmd E c (ID p) p0 = p0" for c
    unfolding may_def using role_cmds_allowed(4,5) [where p = p0 and s = "ID p"] p0(1) by metis+
  have queue: "content (queue_of (handleQueueCmd E c p0)) = content (queue_of p) \<or> may PermQueue \<or> qc_type c = NEXT" for c
    unfolding may_def using handleQueueCmd_allowed [of E c p0] p0 by metis
  show ?thesis
  proof (intro conjI)
    show "content (queue_of p') = content (queue_of p) \<or> (\<exists>c. m = QueueCmd c \<and> (may PermQueue \<or> qc_type c = NEXT))
      \<or> (\<exists>s h. m = PlaybackStreamCompletedCmd s h) \<or> (\<exists>c u. m = JoinSessionRequest c u)"
      using queue p0(3) by (cases m) (auto simp: p' p0(4))
    show "definitions (rm_of p') = definitions (rm_of p)
      \<or> may PermAddRemoveRoles \<and> ((\<exists>d h. m = UpdateRoleCmd d h) \<or> (\<exists>n h. m = RemoveRoleCmd n h))"
      by (cases m) (auto simp: p' p0 roles)
    show "assignments (rm_of p') = assignments (rm_of p)
      \<or> (\<exists>t ns h. m = SetPeerRolesCmd t ns h \<and> may PermManageUserRoles) \<or> (\<exists>n h. m = RemoveRoleCmd n h \<and> may PermAddRemoveRoles)
      \<or> (\<exists>c. m = KickPeerCmd c \<and> may PermKickUser) \<or> (\<exists>c. m = BanPeerCmd c \<and> may PermBanUser)
      \<or> (\<exists>n u. m = CreateSessionRequest n u) \<or> (\<exists>c u. m = JoinSessionRequest c u)"
      by (cases m) (auto simp: p' p0 roles expels)
    show "sm_of p' = sm_of p \<or> (\<exists>c. m = KickPeerCmd c \<and> may PermKickUser) \<or> (\<exists>c. m = BanPeerCmd c \<and> may PermBanUser)
      \<or> (\<exists>n u. m = CreateSessionRequest n u) \<or> (\<exists>s h. m = LeaveSessionRequest s h)"
      by (cases m) (auto simp: p' p0 expels)
  qed
qed

lemma stream_send_trace [simp]:
  "trace (snd (stream_send E cs m p)) = (if send_ok E cs then trace p @ [Send cs m] else trace p)"
  by (simp add: stream_send_def)

lemma maybeStartMdns_rest [simp]:
  "ring (maybeStartMdns p) = ring p" "clk (maybeStartMdns p) = clk p" "trace (maybeStartMdns p) = trace p" "ID (maybeStartMdns p) = ID p"
  "hub_of (maybeStartMdns p) = hub_of p"
  by (simp_all add: maybeStartMdns_def ID_def)

lemma stream_send_hub [simp]: "hub_of (snd (stream_send E cs m p)) = hub_of p"
  by (simp add: stream_send_def)

definition untouched :: "peer \<Rightarrow> peer \<Rightarrow> bool" where
  "untouched p p' \<longleftrightarrow> nd p' = nd p \<and> qc p' = qc p \<and> rm_of p' = rm_of p \<and> sm_of p' = sm_of p \<and> ring p' = ring p
     \<and> clk p' = clk p \<and> hub_of p' = hub_of p"

lemma join_cases:
  obtains (refused) msg where "handleJoinSession E N cs sid u p = join_error E cs msg (maybeStartMdns p)" "msg \<noteq> ''''"
  | (denied) resp where "handleJoinSession E N cs sid u p = snd (stream_send E cs (JoinSessionResponse resp) (maybeStartMdns p))"
      "from_opt (jr_error resp) \<noteq> ''''"
  | (joined) resp found how where "handleJoinSession E N cs sid u p = snd (stream_send E cs (JoinSessionResponse resp)
        (processAdminJoinResponse E resp (ai_ID (admin_addrs N found)) (maybeStartMdns p)))"
      "from_opt (jr_error resp) = ''''" "find_admin N (ID p) sid = Some found"
      "reach_admin E N (ID p) (admin_addrs N found) = Some how"
      "authorize E N sid (from_opt u) (ai_ID (admin_addrs N found)) = Inr resp"
proof (cases "find_admin N (ID p) sid")
  case None
  then show thesis by (intro refused) (auto simp: handleJoinSession_def Let_def)
next
  case (Some found)
  let ?i = "admin_addrs N found"
  show thesis
  proof (cases "reach_admin E N (ID p) ?i")
    case None
    with Some show thesis by (intro refused) (auto simp: handleJoinSession_def Let_def)
  next
    case r: (Some how)
    show thesis
    proof (cases "authorize E N sid (from_opt u) (ai_ID ?i)")
      case (Inl msg)
      have "msg \<noteq> ''''" using Inl by (auto simp: authorize_def Let_def case_prod_beta split: option.splits if_splits sum.splits)
      with Some r Inl show thesis by (intro refused [of msg]) (auto simp: handleJoinSession_def Let_def)
    next
      case (Inr resp)
      show thesis
      proof (cases "from_opt (jr_error resp) = ''''")
        case True
        with Some r Inr show thesis by (intro joined [of resp found how]) (auto simp: handleJoinSession_def Let_def)
      next
        case False
        with Some r Inr show thesis by (intro denied [of resp]) (auto simp: handleJoinSession_def Let_def)
      qed
    qed
  qed
qed

text \<open>
  C27. Every attempt to join is answered, and a failed one leaves no trace in the peer. Whatever the network does,
  the last thing the client's stream carries is a \<open>JoinSessionResponse\<close>; when it has an error, the node,
  the queue, the roles, the sessions, the segments and the clock are those of before, and when it has none
  it is the answer of a peer that the search found and that was reached.
\<close>

theorem join_answers:
  assumes "send_ok E cs"
  shows "\<exists>resp. last (trace (handleJoinSession E N cs sid u p)) = Send cs (JoinSessionResponse resp) \<and>
    (if from_opt (jr_error resp) \<noteq> '''' then untouched p (handleJoinSession E N cs sid u p)
     else \<exists>found how. find_admin N (ID p) sid = Some found \<and> reach_admin E N (ID p) (admin_addrs N found) = Some how
       \<and> authorize E N sid (from_opt u) (ai_ID found) = Inr resp)"
proof (cases rule: join_cases [of E N cs sid u p])
  case (refused msg)
  with assms show ?thesis
    by (intro exI [of _ "error_response msg"]) (simp add: join_error_def untouched_def error_response_def from_opt_def)
next
  case (denied resp)
  with assms show ?thesis by (intro exI [of _ resp]) (simp add: untouched_def)
next
  case (joined resp found how)
  with assms show ?thesis by (intro exI [of _ resp]) (simp add: admin_addrs_def)
qed

lemma handleAuthStream_admits:
  assumes "sm_ok (sm_of a)" "handleAuthStream E j (Some r) a = (Some resp, a')" "jr_error resp = None"
  shows "IsPeerInSession (ar_session_id r) j (sm_of a')"
proof -
  obtain s where s: "mget (sm_of a) (ar_session_id r) = Some s"
    using assms(2,3) by (auto simp: handleAuthStream_def error_response_def GetSession_def split: option.splits)
  then have "sess_id s = ar_session_id r" using sm_okD [OF assms(1)] by (auto simp: session_ok_def)
  with s assms(2,3) show ?thesis
    by (auto simp: handleAuthStream_def GetSession_def on_sessions_def AddPeerToSession_def IsPeerInSession_def error_response_def
        Let_def case_prod_beta split: option.splits if_splits)
qed

text \<open>
  A large session cannot be joined. The joiner reads the answer of the administrator with one \<^verbatim>\<open>Read\<close> into 4096
  bytes. When the answer with the snapshot is longer and what fits does not decode, the administrator has admitted the
  joiner and told everybody, while the joiner reports an error and stays where it was.
\<close>

theorem large_snapshot_blocks_join:
  assumes "sm_ok (sm_of a)"
    "handleAuthStream E (ID p) (Some \<lparr>ar_session_id = sid, ar_username = from_opt u\<rparr>) a = (Some resp, a')" "jr_error resp = None"
    "find_admin N (ID p) sid = Some found" "ai_ID found = ID a" "reach_admin E N (ID p) (admin_addrs N found) = Some how"
    "talk N Authorize (ID a) \<lparr>ar_session_id = sid, ar_username = from_opt u\<rparr> =
       \<lparr>x_open = None, x_marshal = None, x_write = None, x_bytes = b, x_err = EOF\<rparr>"
    "resp_unmarshal N b = Inr resp" "4096 < length b" "resp_unmarshal N (take 4096 b) = Inl e" "send_ok E cs"
  shows "let p' = handleJoinSession E N cs sid u p in
      IsPeerInSession sid (ID p) (sm_of a') \<and> untouched p p'
      \<and> trace p' = trace p @ [Send cs (JoinSessionResponse (error_response
          (''Failed to unmarshal JoinSessionResponse from Admin '' @ pid_string (codec_of E) (ID a) @ '': '' @ e)))]"
proof -
  let ?i = "admin_addrs N found"
  let ?msg = "''Failed to unmarshal JoinSessionResponse from Admin '' @ pid_string (codec_of E) (ID a) @ '': '' @ e"
  have i: "ai_ID ?i = ID a" using assms(5) by (simp add: admin_addrs_def)
  have ne: "take 4096 b \<noteq> []" using assms(9) by auto
  then have "authorize E N sid (from_opt u) (ID a) = Inl ?msg"
    using assms(7,9,10) by (simp add: authorize_def read_buf_def)
  with assms(4,6) i have "handleJoinSession E N cs sid u p = join_error E cs ?msg (maybeStartMdns p)"
    by (simp add: handleJoinSession_def Let_def)
  moreover have "IsPeerInSession sid (ID p) (sm_of a')"
    using handleAuthStream_admits [OF assms(1,2,3)] by simp
  ultimately show ?thesis using assms(11) by (simp add: join_error_def untouched_def)
qed

lemma Join_succeeds: "(\<And>x. join_ok E x) \<Longrightarrow> fst (JoinSessionTopics E sid p)"
  by (simp add: JoinSessionTopics_def join_topics_def Let_def case_prod_beta)

lemma srv_topics [simp]: "in_session sid (p\<lparr>srv_ctrlTopic := a, srv_chatTopic := b\<rparr>) = in_session sid p"
  by (simp add: in_session_def GetCurrentSessionID_def)

lemma SetPeerRoles_Admin:
  assumes "mget (definitions rm) ''admin'' = Some r"
  shows "GetPermissionsForPeer (fst (snd (SetPeerRoles K j [''Admin''] (rm, c)))) j = role_perms r"
  using assms
  by (auto simp: SetPeerRoles_def normalize_Admin Let_def case_prod_beta GetPermissionsForPeer_def
      GetAssignedRoles_def simp del: normalize_names.simps split: option.split)

definition created :: "peer_id \<Rightarrow> string \<Rightarrow> string \<Rightarrow> string \<Rightarrow> session" where
  "created i sid user name = \<lparr>sess_id = sid, AdminPeerID = i, sess_name = name, IsPrivate = False, InviteCode = sid,
     Members = [(i, \<lparr>ui_username = user, ui_roles = [''Admin''], ui_peer = i\<rparr>)], Banned = []\<rparr>"

lemma create_session_result:
  assumes "mget (sm_of p) (fresh_uuid N) = None" "\<And>x. join_ok E x"
  shows "\<exists>q. nd q = nd p \<and> nd (handleCreateSession E N cs name user p) = nd (snd (JoinSessionTopics E (fresh_uuid N) q))"
    "sm_of (handleCreateSession E N cs name user p) =
       mput (sm_of p) (fresh_uuid N) (created (ID p) (fresh_uuid N) (from_opt user) (from_opt name))"
    "rm_of (handleCreateSession E N cs name user p) = fst (snd (SetPeerRoles (codec_of E) (ID p) [''Admin''] (rm_of p, clk p)))"
proof -
  let ?c = "on_sessions (CreateSession (codec_of E) (fresh_uuid N) (ID p) (from_opt user) (from_opt name)) p"
  have c: "fst ?c = Inr (created (ID p) (fresh_uuid N) (from_opt user) (from_opt name))" "nd (snd ?c) = nd p"
    "sm_of (snd ?c) = mput (sm_of p) (fresh_uuid N) (created (ID p) (fresh_uuid N) (from_opt user) (from_opt name))"
    "rm_of (snd ?c) = fst (snd (SetPeerRoles (codec_of E) (ID p) [''Admin''] (rm_of p, clk p)))"
    using assms(1) by (simp_all add: on_sessions_def CreateSession_def created_def Let_def case_prod_beta)
  have h: "handleCreateSession E N cs name user p = snd (stream_send E cs (CreateSessionResponse
      \<lparr>cr_session_id = fresh_uuid N, cr_invite_code = fresh_uuid N, cr_error = None\<rparr>)
      (sendInitialState E cs (maybeStartMdns ((snd (JoinSessionTopics E (fresh_uuid N) (snd ?c)))
        \<lparr>srv_ctrlTopic := CtrlTopic (snd (JoinSessionTopics E (fresh_uuid N) (snd ?c))),
         srv_chatTopic := ChatTopic (snd (JoinSessionTopics E (fresh_uuid N) (snd ?c)))\<rparr>))))"
    unfolding handleCreateSession_def session_created_def using c(1) Join_succeeds [OF assms(2)]
    by (simp add: case_prod_beta Let_def split: sum.split) (simp add: created_def)
  show "\<exists>q. nd q = nd p \<and> nd (handleCreateSession E N cs name user p) = nd (snd (JoinSessionTopics E (fresh_uuid N) q))"
    unfolding h using c(2) by (intro exI [of _ "snd ?c"]) simp
  show
    "sm_of (handleCreateSession E N cs name user p) =
       mput (sm_of p) (fresh_uuid N) (created (ID p) (fresh_uuid N) (from_opt user) (from_opt name))"
    "rm_of (handleCreateSession E N cs name user p) = fst (snd (SetPeerRoles (codec_of E) (ID p) [''Admin''] (rm_of p, clk p)))"
    unfolding h using c by simp_all
qed

text \<open>
  C34. The life of a session at its creator. Creating a session puts the peer into the topics of the new session,
  as its administrator and only member and with the permissions of an administrator. Leaving it brings the
  peer back to the default session and takes it out of the members, but it keeps the roles of the session,
  and the session stays with it as its administrator.
\<close>

theorem create_then_leave:
  fixes E :: env and N :: net_env and cs :: nat and name user :: "string option"
  assumes "mget (sm_of p) (fresh_uuid N) = None" "\<And>x. join_ok E x" "topics_ok p" "CHR ''/'' \<notin> set (fresh_uuid N)"
    "fresh_uuid N \<noteq> ''''" "fresh_uuid N \<noteq> ''default''" "mget (definitions (rm_of p)) ''admin'' = Some r"
  defines "sid \<equiv> fresh_uuid N"
  defines "p1 \<equiv> handleCreateSession E N cs name user p"
  defines "p2 \<equiv> handleLeaveSession E sid p1"
  shows "in_session sid p1 \<and> GetSession sid (sm_of p1) = Some (created (ID p) sid (from_opt user) (from_opt name))
    \<and> GetPermissionsForPeer (rm_of p1) (ID p) = role_perms r
    \<and> in_session ''default'' p2 \<and> rm_of p2 = rm_of p1
    \<and> (\<exists>s. GetSession sid (sm_of p2) = Some s \<and> AdminPeerID s = ID p \<and> Members s = [])"
proof -
  note res = create_session_result [OF assms(1,2), of cs name user, folded p1_def sid_def]
  obtain q where q: "nd q = nd p" "nd p1 = nd (snd (JoinSessionTopics E sid q))" using res(1) by blast
  have "topics_ok q" using assms(3) q(1) by (simp add: topics_ok_def GetCurrentSessionID_def)
  then have ok: "in_session sid (snd (JoinSessionTopics E sid q))" "topics_ok (snd (JoinSessionTopics E sid q))"
    using JoinSessionTopics_ok [OF _ assms(4), of q E] Join_succeeds [OF assms(2)] by (simp_all add: sid_def)
  have i1: "in_session sid p1" "topics_ok p1"
    using ok q(2) by (simp_all add: in_session_def topics_ok_def GetCurrentSessionID_def)
  have id: "ID p1 = ID p" using q Join_runs [of q E sid] by (simp add: ID_def same_runs_def)
  let ?q = "tell_left E ''leave'' (p1\<lparr>sm_of := snd (RemovePeerFromSession sid (ID p1) (sm_of p1))\<rparr>)"
  have real: "in_real_session p1" "GetCurrentSessionID p1 = sid"
    using i1(1) assms(5,6) by (simp_all add: in_real_session_def in_session_def sid_def)
  then have p2: "p2 = SetCurrentSessionID ''default'' (snd (JoinSessionTopics E ''default'' ?q))"
    by (simp add: p2_def handleLeaveSession_def Let_def)
  have "topics_ok ?q" using i1(2) by (simp add: topics_ok_def GetCurrentSessionID_def)
  from JoinSessionTopics_ok [OF this, of "''default''" E] Join_succeeds [OF assms(2), of "''default''" ?q]
  have "in_session ''default'' (snd (JoinSessionTopics E ''default'' ?q))" by simp
  then have "in_session ''default'' p2"
    unfolding p2 by (simp add: in_session_def SetCurrentSessionID_def GetCurrentSessionID_def)
  moreover have "sm_of p2 = snd (RemovePeerFromSession sid (ID p1) (sm_of p1))" unfolding p2 by simp
  ultimately show ?thesis
    using i1(1) res(2,3) SetPeerRoles_Admin [OF assms(7)] id
    by (simp add: p2_def RemovePeerFromSession_def GetSession_def) (simp add: created_def)
qed

text \<open>
  A client that goes away takes its peer out of the session elsewhere. When the stream of the client ends
  during a session, the peer publishes on the control topic that it left, and every other peer of the
  session that receives this no longer counts it as a member; the peer itself stays in the session and its
  topics.
\<close>

theorem disconnect_removes_member:
  assumes "codec_ok (codec_of E)" "in_real_session p" "CtrlTopic p = Some t"
  shows "\<exists>l. last (trace (stream_closed E p)) = Publish t (PeerLeft l) \<and> nd (stream_closed E p) = nd p
    \<and> mget (subs (hub_of (stream_closed E p))) (pid_string (codec_of E) (ID p)) = None
    \<and> (\<forall>q. ID q \<noteq> ID p \<longrightarrow> GetCurrentSessionID q = GetCurrentSessionID p \<longrightarrow>
        \<not> IsPeerInSession (GetCurrentSessionID p) (ID p) (sm_of (processControlTopicMessages E (ID p) (Some (PeerLeft l)) q)))"
proof -
  let ?l = "\<lparr>pl_peer_id = pid_string (codec_of E) (ID p), pl_reason = ''disconnect'', pl_hlc_ts = fst (now_hlc p)\<rparr>"
  have "CtrlTopic (snd (now_hlc p)) = Some t" using assms(3) by (simp add: CtrlTopic_def)
  then have t: "last (trace (stream_closed E p)) = Publish t (PeerLeft ?l)"
    using assms(2,3) by (simp add: stream_closed_def tell_left_def publishToControlTopic_def publish_def Let_def case_prod_beta)
  have "\<not> IsPeerInSession (GetCurrentSessionID p) (ID p) (sm_of (processControlTopicMessages E (ID p) (Some (PeerLeft ?l)) q))"
    if "ID q \<noteq> ID p" "GetCurrentSessionID q = GetCurrentSessionID p" for q
    using that assms(1,2) RemovePeer_gone
    by (simp add: processControlTopicMessages_def handleGossipPeerLeft_def in_real_session_def Let_def)
  with t show ?thesis
    by (intro exI [of _ ?l]) (simp add: stream_closed_def Let_def hub_Remove_def)
qed

section \<open>Witnesses\<close>

theorem client_message_frame_witness:
  "definitions (rm_of (the (client_step ex_env ex_net 0 (ChatCmd ''hi'' 3 '''') ex_admin))) = definitions (rm_of ex_admin)"
  using client_message_frame [of ex_env ex_net 0 "ChatCmd ''hi'' 3 ''''" ex_admin "the (client_step ex_env ex_net 0 (ChatCmd ''hi'' 3 '''') ex_admin)"]
  by (simp add: client_step_def describe_panics_def)

definition ex_joiner :: peer where
  "ex_joiner = ex_peer ''c'' ex_roles NewQueue 0"

lemma ex_joiner_facts: "ID ex_joiner = PeerID ''c''" "send_ok ex_marshal_env 0"
  by (simp_all add: ex_joiner_def ex_peer_def ID_def NewNode_def ex_marshal_env_def ex_env_def)

theorem join_answers_witness:
  "\<exists>resp. last (trace (handleJoinSession ex_marshal_env ex_net 0 ''s'' None ex_joiner)) = Send 0 (JoinSessionResponse resp)"
  using join_answers [OF ex_joiner_facts(2), of ex_net "''s''" None ex_joiner] by blast

definition big_net :: "join_response \<Rightarrow> net_env" where
  "big_net resp = ex_net\<lparr>talk := (\<lambda>_ _ _. \<lparr>x_open = None, x_marshal = None, x_write = None, x_bytes = replicate 5000 1, x_err = EOF\<rparr>),
     resp_unmarshal := (\<lambda>b. if length b = 5000 then Inr resp else Inl ''unexpected EOF'')\<rparr>"

lemma big_net_facts:
  "find_admin (big_net resp) (PeerID ''c'') sid = Some \<lparr>ai_ID = PeerID ''a'', ai_Addrs = [''/tcp'']\<rparr>"
  "reach_admin E (big_net resp) i (admin_addrs (big_net resp) j) = Some (Direct 3)"
  unfolding reach_admin_def direct_attempts_eq
  by (simp_all add: big_net_def find_admin_def dht_attempts.simps ex_net_def other_than_def)

theorem large_snapshot_blocks_join_witness:
  "\<exists>N. untouched ex_joiner (handleJoinSession ex_marshal_env N 0 ''s'' (Some ''cy'') ex_joiner)
     \<and> IsPeerInSession ''s'' (PeerID ''c'') (sm_of (snd (handleAuthStream ex_marshal_env (PeerID ''c'')
         (Some \<lparr>ar_session_id = ''s'', ar_username = ''cy''\<rparr>) ex_admin)))"
proof -
  let ?r = "\<lparr>ar_session_id = ''s'', ar_username = ''cy''\<rparr>"
  obtain resp where r: "fst (handleAuthStream ex_marshal_env (PeerID ''c'') (Some ?r) ex_admin) = Some resp" "jr_error resp = None"
    by (rule handleAuthStream_new [of ?r ex_admin ex_session "PeerID ''c''" ex_marshal_env])
      (use ex_admin_facts in \<open>auto simp: IsPeerInSession_def GetSession_def ex_session_def\<close>)
  have j: "handleAuthStream ex_marshal_env (ID ex_joiner) (Some \<lparr>ar_session_id = ''s'', ar_username = from_opt (Some ''cy'')\<rparr>) ex_admin
      = (Some resp, snd (handleAuthStream ex_marshal_env (PeerID ''c'') (Some ?r) ex_admin))"
    using r(1) by (simp add: prod_eq_iff ex_joiner_facts from_opt_def)
  have a: "ID ex_admin = PeerID ''a''" by (simp add: ID_def ex_admin_def NewNode_def)
  have "find_admin (big_net resp) (ID ex_joiner) ''s'' = Some \<lparr>ai_ID = PeerID ''a'', ai_Addrs = [''/tcp'']\<rparr>"
    by (simp add: ex_joiner_facts big_net_facts)
  from large_snapshot_blocks_join [OF ex_admin_facts(1) j r(2) this _ big_net_facts(2) _ _ _ _ ex_joiner_facts(2), of "replicate 5000 1" "''unexpected EOF''"]
  show ?thesis unfolding Let_def
    by (intro exI [of _ "big_net resp"]) (simp add: a big_net_def ex_joiner_facts)
qed

definition ex_fresh :: peer where
  "ex_fresh = (ex_peer ''a'' ex_roles NewQueue 0)\<lparr>nd := NewNode (PeerID ''a'')\<rparr>"

theorem create_then_leave_witness:
  "in_session ''u1'' (handleCreateSession ex_env ex_net 0 (Some ''film'') (Some ''ann'') ex_fresh)"
proof -
  have "topics_ok ex_fresh" unfolding ex_fresh_def by (rule topics_ok_New)
  moreover have "mget (definitions (rm_of ex_fresh)) ''admin'' = Some \<lparr>role_name = ''Admin'', role_perms = PermAll\<rparr>" by code_simp
  moreover have "fresh_uuid ex_net = ''u1''" "mget (sm_of ex_fresh) (fresh_uuid ex_net) = None" "\<And>x. join_ok ex_env x"
    by (simp_all add: ex_net_def ex_fresh_def ex_peer_def NewSessionManager_def ex_env_def)
  ultimately show ?thesis
    using create_then_leave [of ex_fresh ex_net ex_env "\<lparr>role_name = ''Admin'', role_perms = PermAll\<rparr>" 0 "Some ''film''" "Some ''ann''"] by simp
qed

theorem disconnect_removes_member_witness:
  "\<exists>l. last (trace (stream_closed ex_env ex_admin)) = Publish ''ctrl'' (PeerLeft l)"
  using disconnect_removes_member [OF ex_takeover_facts(1) _ ex_admin_facts(7)]
  by (auto simp: in_real_session_def GetCurrentSessionID_def ex_admin_def NewNode_def)

end
