(* ===== verification/GoFloat.thy ===== *)
theory GoFloat
  imports GoStrings
begin

text \<open>
  Doubles as the rationals they denote: the nearest double of a rational, and Go's \<^verbatim>\<open>strconv.ParseFloat\<close>.
\<close>

section \<open>Floating point numbers\<close>

text \<open>The nearest double of a rational that is not negative, ties to even.\<close>

fun bits :: "nat \<Rightarrow> nat" where
  "bits n = (if n = 0 then 0 else Suc (bits (n div 2)))"

declare bits.simps [simp del]

definition pow2 :: "int \<Rightarrow> rat" where
  "pow2 e = (if 0 \<le> e then 2 ^ nat e else 1 / 2 ^ nat (- e))"

definition log2_floor :: "rat \<Rightarrow> int" where
  "log2_floor x =
     (case quotient_of x of
        (n, d) \<Rightarrow> (let k = int (bits (nat n)) - int (bits (nat d)) in if pow2 k \<le> x then k else k - 1))"

definition round_even :: "rat \<Rightarrow> int" where
  "round_even x =
     (let f = \<lfloor>x\<rfloor>; r = x - of_int f
      in if r < 1 / 2 then f else if 1 / 2 < r then f + 1 else if even f then f else f + 1)"

definition round64 :: "rat \<Rightarrow> float64" where
  "round64 x =
     (if x \<le> 0 then 0
      else (let e = max (log2_floor x - 52) (- 1074) in of_int (round_even (x / pow2 e)) * pow2 e))"

text \<open>\<^verbatim>\<open>strconv.ParseFloat(s, 64)\<close> of a string of digits and points; \<open>None\<close> is its error.\<close>

definition parse_float :: "string \<Rightarrow> float64 option" where
  "parse_float s =
     (case split_on (CHR ''.'') s of
        [a] \<Rightarrow> if a \<noteq> [] \<and> round64 (of_nat (dec_val a)) < 2 ^ 1024 then Some (round64 (of_nat (dec_val a))) else None
      | [a, b] \<Rightarrow>
          (let v = of_nat (dec_val (a @ b)) / 10 ^ length b
           in if a @ b \<noteq> [] \<and> round64 v < 2 ^ 1024 then Some (round64 v) else None)
      | _ \<Rightarrow> None)"

end
