(* ===== verification/Monitor.thy ===== *)
theory Monitor
  imports GoFloat
begin

text \<open>
  The reader of ffmpeg's playlist, \<^verbatim>\<open>peer_service/internal/media/m3u8_monitor.go\<close>, with the patterns of
  \<^verbatim>\<open>regexp\<close> it uses. The content of the playlist file is an argument of a parse;
  \<open>None\<close> is a file that cannot be opened or read to its end.
\<close>

section \<open>The three patterns\<close>

definition extinf_match :: "string \<Rightarrow> string option" where
  "extinf_match line =
     (if has_prefix line ''#EXTINF:'' then
        (let r = drop 8 line; d = takeWhile (\<lambda>c. is_digit c \<or> c = CHR ''.'') r
         in if d \<noteq> [] \<and> has_prefix (drop (length d) r) '','' then Some d else None)
      else None)"

definition media_match :: "string \<Rightarrow> string option" where
  "media_match line =
     (if has_prefix line ''#EXT-X-MEDIA-SEQUENCE:'' then
        (let d = takeWhile is_digit (drop 22 line) in if d \<noteq> [] then Some d else None)
      else None)"

definition segment_match :: "string \<Rightarrow> bool" where
  "segment_match line = (case line of [] \<Rightarrow> False | c # cs \<Rightarrow> c \<noteq> CHR ''#'')"

section \<open>Parsing\<close>

record parse_state =
  latestMediaBase :: u32
  segmentIndexInPlaylist :: int
  currentExtInfDuration :: float64
  tempDurations :: "(u32, float64) gomap"

definition parse_line :: "string \<Rightarrow> parse_state \<Rightarrow> parse_state" where
  "parse_line raw st =
     (let line = trim_space raw
      in (case media_match line of
            Some d \<Rightarrow>
              (case parse_uint32 d of
                 None \<Rightarrow> st
               | Some v \<Rightarrow> st\<lparr>latestMediaBase := v, segmentIndexInPlaylist := 0\<rparr>)
          | None \<Rightarrow>
              (case extinf_match line of
                 Some d \<Rightarrow> (case parse_float d of None \<Rightarrow> st | Some x \<Rightarrow> st\<lparr>currentExtInfDuration := x\<rparr>)
               | None \<Rightarrow>
                   (if segment_match line \<and> currentExtInfDuration st \<noteq> -1 then
                      st\<lparr>tempDurations := mput (tempDurations st)
                           (latestMediaBase st + word_of_int (segmentIndexInPlaylist st)) (currentExtInfDuration st),
                         currentExtInfDuration := -1,
                         segmentIndexInPlaylist := segmentIndexInPlaylist st + 1\<rparr>
                    else st))))"

definition newline :: char where
  "newline = CHR 0x0A"

record monitor =
  segmentDurations :: "(u32, float64) gomap"
  currentMediaBase :: u32
  ffmpegStartNum :: u32

definition parse_text :: "u32 \<Rightarrow> string \<Rightarrow> parse_state" where
  "parse_text start content =
     fold parse_line (split_on newline content)
       \<lparr>latestMediaBase = start, segmentIndexInPlaylist = 0, currentExtInfDuration = -1, tempDurations = []\<rparr>"

definition parsePlaylist :: "string option \<Rightarrow> monitor \<Rightarrow> monitor" where
  "parsePlaylist file m =
     (case file of
        None \<Rightarrow> m
      | Some content \<Rightarrow>
          (let st = parse_text (ffmpegStartNum m) content
           in m\<lparr>segmentDurations := fold (\<lambda>(k, d) ds. mput ds k d) (tempDurations st) (segmentDurations m),
                currentMediaBase := latestMediaBase st\<rparr>))"

definition NewM3U8Monitor :: "u32 \<Rightarrow> string option \<Rightarrow> monitor" where
  "NewM3U8Monitor start file =
     parsePlaylist file \<lparr>segmentDurations = [], currentMediaBase = start, ffmpegStartNum = start\<rparr>"

definition GetSegmentDuration :: "u32 \<Rightarrow> monitor \<Rightarrow> float64 \<times> bool" where
  "GetSegmentDuration globalSeqNum m =
     (case mget (segmentDurations m) globalSeqNum of None \<Rightarrow> (0, False) | Some d \<Rightarrow> (d, True))"

section \<open>Watching the file\<close>

text \<open>
  \<open>fs_watched\<close>: the watcher has the file in its list; \<open>ticking\<close>: the polling ticker runs. \<^verbatim>\<open>Start\<close> makes the ticker
  and its deferred \<^verbatim>\<open>pollTicker.Stop()\<close> runs when \<^verbatim>\<open>Start\<close> returns, right after it has started its goroutine.
\<close>

record watch =
  watch_monitor :: monitor
  fs_watched :: bool
  ticking :: bool

definition monitor_Start :: "bool \<Rightarrow> monitor \<Rightarrow> watch" where
  "monitor_Start file_exists m = \<lparr>watch_monitor = m, fs_watched = file_exists, ticking = False\<rparr>"

text \<open>
  One turn of the goroutine. fsnotify reports writes and creations of watched files only; a stopped ticker does not
  tick. \<open>add_ok\<close> is the result of the \<^verbatim>\<open>Add\<close> that follows.
\<close>

inductive watch_step :: "watch \<Rightarrow> watch \<Rightarrow> bool" where
  fs_write: "fs_watched w \<Longrightarrow> watch_step w (w\<lparr>watch_monitor := parsePlaylist file (watch_monitor w)\<rparr>)"
| fs_create: "fs_watched w \<Longrightarrow>
    watch_step w (w\<lparr>watch_monitor := parsePlaylist file (watch_monitor w), fs_watched := add_ok\<rparr>)"
| poll: "ticking w \<Longrightarrow>
    watch_step w (w\<lparr>watch_monitor := parsePlaylist file (watch_monitor w), fs_watched := fs_watched w \<or> add_ok\<rparr>)"
| poll_missing: "ticking w \<Longrightarrow> watch_step w w"

section \<open>Lemmas\<close>

lemma trim_id: "s \<noteq> [] \<Longrightarrow> \<not> is_space (hd s) \<Longrightarrow> \<not> is_space (last s) \<Longrightarrow> trim_space s = s"
proof -
  assume "s \<noteq> []" "\<not> is_space (hd s)" "\<not> is_space (last s)"
  then have "dropWhile is_space s = s" "dropWhile is_space (rev s) = rev s"
    by (simp_all add: dropWhile_eq_self_iff hd_rev)
  then show ?thesis by (simp add: trim_space_def)
qed

definition extinf_line :: "string \<Rightarrow> string" where
  "extinf_line d = ''#EXTINF:'' @ d @ '',''"

definition duration_text :: "string \<Rightarrow> bool" where
  "duration_text d \<longleftrightarrow> d \<noteq> [] \<and> (\<forall>c \<in> set d. is_digit c \<or> c = CHR ''.'')"

lemma trim_extinf: "trim_space (extinf_line d) = extinf_line d"
  by (rule trim_id) (simp_all add: extinf_line_def is_space_def ascii_code_def)

lemma extinf_match_line: "duration_text d \<Longrightarrow> extinf_match (extinf_line d) = Some d"
proof -
  assume d: "duration_text d"
  let ?P = "\<lambda>c. is_digit c \<or> c = CHR ''.''"
  have "takeWhile ?P (d @ '','') = d"
    using d by (subst takeWhile_append2) (auto simp: duration_text_def is_digit_def ascii_code_def)
  then show ?thesis using d by (simp add: extinf_match_def extinf_line_def has_prefix_def duration_text_def)
qed

lemma media_match_extinf: "media_match (extinf_line d) = None"
  by (simp add: media_match_def extinf_line_def has_prefix_def)

lemma parse_extinf:
  "duration_text d \<Longrightarrow> parse_float d = Some x \<Longrightarrow> parse_line (extinf_line d) st = st\<lparr>currentExtInfDuration := x\<rparr>"
  by (simp add: parse_line_def trim_extinf media_match_extinf extinf_match_line Let_def)

lemma segment_line_other:
  "segment_match line \<Longrightarrow> media_match line = None" "segment_match line \<Longrightarrow> extinf_match line = None"
  by (cases line; simp add: segment_match_def media_match_def extinf_match_def has_prefix_def)+

lemma parse_segment:
  "segment_match (trim_space f) \<Longrightarrow> parse_line f st =
     (if currentExtInfDuration st \<noteq> -1 then
        st\<lparr>tempDurations := mput (tempDurations st)
             (latestMediaBase st + word_of_int (segmentIndexInPlaylist st)) (currentExtInfDuration st),
           currentExtInfDuration := -1,
           segmentIndexInPlaylist := segmentIndexInPlaylist st + 1\<rparr>
      else st)"
  by (simp add: parse_line_def segment_line_other Let_def)

text \<open>A tag that is neither a duration nor a media sequence.\<close>

lemma parse_other:
  "media_match (trim_space l) = None \<Longrightarrow> extinf_match (trim_space l) = None \<Longrightarrow> \<not> segment_match (trim_space l) \<Longrightarrow>
   parse_line l st = st"
  by (simp add: parse_line_def Let_def)

text \<open>The lines of a list of segments, each a duration, its text and a file name.\<close>

fun entry_lines :: "(float64 \<times> string \<times> string) list \<Rightarrow> string list" where
  "entry_lines [] = []"
| "entry_lines ((x, d, f) # es) = extinf_line d # f # entry_lines es"

definition entry_ok :: "float64 \<times> string \<times> string \<Rightarrow> bool" where
  "entry_ok e = (case e of (x, d, f) \<Rightarrow> duration_text d \<and> parse_float d = Some x \<and> x \<noteq> -1 \<and> segment_match (trim_space f))"

fun put_durations :: "u32 \<Rightarrow> int \<Rightarrow> float64 list \<Rightarrow> (u32, float64) gomap \<Rightarrow> (u32, float64) gomap" where
  "put_durations b i [] m = m"
| "put_durations b i (x # xs) m = put_durations b (i + 1) xs (mput m (b + word_of_int i) x)"

lemma parse_entries:
  assumes "\<forall>e \<in> set es. entry_ok e" "currentExtInfDuration st = -1"
  shows "fold parse_line (entry_lines es) st =
    st\<lparr>tempDurations := put_durations (latestMediaBase st) (segmentIndexInPlaylist st) (map fst es) (tempDurations st),
       segmentIndexInPlaylist := segmentIndexInPlaylist st + int (length es)\<rparr>"
  using assms
proof (induction es arbitrary: st rule: entry_lines.induct)
  case 1
  then show ?case by (cases st) simp
next
  case (2 x d f es)
  let ?st = "st\<lparr>tempDurations := mput (tempDurations st) (latestMediaBase st + word_of_int (segmentIndexInPlaylist st)) x,
     segmentIndexInPlaylist := segmentIndexInPlaylist st + 1\<rparr>"
  have e: "duration_text d" "parse_float d = Some x" "x \<noteq> -1" "segment_match (trim_space f)"
    using 2(2) by (auto simp: entry_ok_def)
  have "parse_line f (parse_line (extinf_line d) st) = ?st"
    using e 2(3) by (simp add: parse_extinf parse_segment)
  with 2 show ?case by simp
qed

lemma put_durations_get:
  assumes "int (length xs) + i \<le> 2 ^ 32" "0 \<le> i" "j < length xs"
  shows "mget (put_durations b i xs m) (b + word_of_int (i + int j)) = Some (xs ! j)"
  using assms
proof (induction xs arbitrary: i j m)
  case (Cons x xs)
  have keep: "mget (put_durations b k ys m') (b + word_of_int i') = mget m' (b + word_of_int i')"
    if "i' < k" "0 \<le> i'" "int (length ys) + k \<le> 2 ^ 32" for k i' ys m'
    using that
  proof (induction ys arbitrary: k m')
    case (Cons y ys)
    have "(word_of_int i' :: u32) \<noteq> word_of_int k"
    proof
      assume "(word_of_int i' :: u32) = word_of_int k"
      then have "uint (word_of_int i' :: u32) = uint (word_of_int k :: u32)" by simp
      with Cons.prems show False by (simp add: uint_word_of_int take_bit_eq_mod)
    qed
    with Cons show ?case by simp
  qed simp
  show ?case
  proof (cases j)
    case 0
    with Cons.prems keep [of i "i + 1" xs "mput m (b + word_of_int i) x"] show ?thesis by simp
  next
    case (Suc j')
    with Cons.prems Cons.IH [of "i + 1" j' "mput m (b + word_of_int i) x"] show ?thesis by (simp add: algebra_simps)
  qed
qed simp

section \<open>Properties\<close>

text \<open>Without the file in the watcher and without the ticker nothing happens to a monitor.\<close>

interpretation unwatched: step_invariant watch_step "\<lambda>w. \<exists>m. w = monitor_Start False m \<and> segmentDurations m = []"
  "\<lambda>w. \<not> fs_watched w \<and> \<not> ticking w \<and> segmentDurations (watch_monitor w) = []"
proof unfold_locales
  fix v w assume "watch_step v w" "\<not> fs_watched v \<and> \<not> ticking v \<and> segmentDurations (watch_monitor v) = []"
  then show "\<not> fs_watched w \<and> \<not> ticking w \<and> segmentDurations (watch_monitor w) = []"
    by (cases rule: watch_step.cases) simp_all
qed (auto simp: monitor_Start_def)

text \<open>
  The monitor of a run never reads the playlist. Every run watches a fresh path before ffmpeg is started, so the file
  does not exist when \<^verbatim>\<open>Start\<close> adds it to the watcher, and the ticker that should poll for it is stopped as
  soon as \<^verbatim>\<open>Start\<close> returns. Whatever happens to the file afterwards, no duration is ever known.
\<close>

theorem monitor_stays_blind:
  assumes "watch_step\<^sup>*\<^sup>* (monitor_Start False (NewM3U8Monitor start None)) w"
  shows "GetSegmentDuration n (watch_monitor w) = (0, False)"
proof -
  have "segmentDurations (NewM3U8Monitor start None) = []" by (simp add: NewM3U8Monitor_def parsePlaylist_def)
  then have "segmentDurations (watch_monitor w) = []" using unwatched.inv_reachable [OF assms] by blast
  then show ?thesis by (simp add: GetSegmentDuration_def)
qed

text \<open>
  A duration that cannot be read shifts the ones after it. When the tag in front of a segment is not a duration the
  pattern accepts, the segment is not counted, so each following duration is stored one number too low.
\<close>

theorem unreadable_duration_shifts:
  assumes "hd (trim_space bad) = CHR ''#''" "trim_space bad \<noteq> ''''" "media_match (trim_space bad) = None"
    "case extinf_match (trim_space bad) of None \<Rightarrow> True | Some d \<Rightarrow> parse_float d = None"
    "segment_match (trim_space f)" "\<forall>e \<in> set es. entry_ok e" "currentExtInfDuration st = -1"
    "0 \<le> segmentIndexInPlaylist st" "int (length es) + segmentIndexInPlaylist st \<le> 2 ^ 32" "j < length es"
  shows "mget (tempDurations (fold parse_line (bad # f # entry_lines es) st))
      (latestMediaBase st + word_of_int (segmentIndexInPlaylist st + int j)) = Some (fst (es ! j))"
proof -
  have "\<not> segment_match (trim_space bad)" using assms(1,2) by (simp add: segment_match_def split: list.split) auto
  then have "parse_line bad st = st"
    using assms(3,4) by (simp add: parse_line_def Let_def split: option.splits)
  moreover have "parse_line f st = st" using assms(5,7) by (simp add: parse_segment)
  ultimately show ?thesis
    using parse_entries [OF assms(6,7)] put_durations_get [OF _ assms(8), of "map fst es" j] assms(9,10) by simp
qed

section \<open>Witnesses\<close>

theorem monitor_stays_blind_witness:
  "GetSegmentDuration 7 (watch_monitor (monitor_Start False (NewM3U8Monitor 3 None))) = (0, False)"
  using monitor_stays_blind [of 3 "monitor_Start False (NewM3U8Monitor 3 None)" 7] by simp

lemma ex_round: "round64 (5 / 2) = 5 / 2"
proof -
  have "(5 / 2 :: rat) = Fract 5 2" by (simp add: Fract_of_int_quotient)
  moreover have "quotient_of (Fract 5 2) = (5, 2)" unfolding quotient_of_Fract by code_simp
  ultimately have "quotient_of (5 / 2) = (5, 2)" by metis
  moreover have "bits 5 = 3" "bits 2 = 2" by (simp_all add: bits.simps)
  ultimately show ?thesis by (simp add: round64_def log2_floor_def pow2_def round_even_def Let_def)
qed

lemma ex_duration: "parse_float ''2.5'' = Some (5 / 2)" "duration_text ''2.5''"
  by (simp_all add: parse_float_def dec_val_def digit_val_def ascii_code_def ex_round duration_text_def is_digit_def)

theorem unreadable_duration_shifts_witness:
  "mget (tempDurations (fold parse_line [''#EXTINF:1e1,'', ''a.ts'', ''#EXTINF:2.5,'', ''b.ts'']
      \<lparr>latestMediaBase = 3, segmentIndexInPlaylist = 0, currentExtInfDuration = -1, tempDurations = []\<rparr>)) 3 = Some (5 / 2)"
proof -
  have "trim_space ''#EXTINF:1e1,'' = ''#EXTINF:1e1,''" "media_match ''#EXTINF:1e1,'' = None" "extinf_match ''#EXTINF:1e1,'' = None"
    "segment_match (trim_space ''a.ts'')" "segment_match (trim_space ''b.ts'')"
    by code_simp+
  moreover from this have "entry_ok (5 / 2, ''2.5'', ''b.ts'')" by (simp add: entry_ok_def ex_duration)
  ultimately show ?thesis using unreadable_duration_shifts [of "''#EXTINF:1e1,''" "''a.ts''" "[(5 / 2, ''2.5'', ''b.ts'')]"
      "\<lparr>latestMediaBase = 3, segmentIndexInPlaylist = 0, currentExtInfDuration = -1, tempDurations = []\<rparr>" 0]
    by (simp add: extinf_line_def)
qed

end
