(* ===== verification/Hls.thy ===== *)
theory Hls
  imports Monitor Streaming
begin

text \<open>
  The HTTP endpoints of the service: the playlist and the segments a player fetches
  (\<^verbatim>\<open>peer_service/internal/media/hls.go\<close>), the segments ffmpeg puts (\<^verbatim>\<open>ingest.go\<close>), the status ticker
  (\<^verbatim>\<open>status.go\<close>), and the route of \<^verbatim>\<open>main.go\<close>. A response is a status and a body; \<open>None\<close> is a panic of the
  handler.
\<close>

section \<open>Responses\<close>

record response =
  status :: nat
  body :: bytes

definition to_bytes :: "string \<Rightarrow> bytes" where
  "to_bytes s = map (\<lambda>c. word_of_nat (of_char c)) s"

definition not_found :: response where
  "not_found = \<lparr>status = 404, body = to_bytes (''404 page not found'' @ [newline])\<rparr>"

section \<open>The playlist\<close>

text \<open>\<^verbatim>\<open>fmt.Sprintf("%.6f", x)\<close> of an \<open>x\<close> that is not negative.\<close>

definition fixed6 :: "float64 \<Rightarrow> string" where
  "fixed6 x =
     (let n = nat (round_even (x * 10 ^ 6))
      in dec (n div 10 ^ 6) @ ''.'' @ pad0 6 (dec (n mod 10 ^ 6)))"

definition duration_of :: "segment \<Rightarrow> float64" where
  "duration_of s = (if ActualDuration s > 0 then ActualDuration s else SegmentDuration)"

definition segment_name :: "u32 \<Rightarrow> string" where
  "segment_name seq = ''seg_'' @ dec (unat seq) @ ''.ts''"

definition playlist_header :: "u32 \<Rightarrow> bool \<Rightarrow> string list" where
  "playlist_header base discont =
     [''#EXTM3U'', ''#EXT-X-VERSION:3'', ''#EXT-X-PLAYLIST-TYPE:EVENT'', ''#EXT-X-START:TIME-OFFSET=0,PRECISE=YES'',
      ''#EXT-X-TARGETDURATION:'' @ dec (nat \<lfloor>SegmentDuration\<rfloor>), ''#EXT-X-MEDIA-SEQUENCE:'' @ dec (unat base)]
     @ (if discont then [''#EXT-X-DISCONTINUITY''] else [])"

fun segment_lines :: "segment list \<Rightarrow> string list" where
  "segment_lines [] = []"
| "segment_lines (s # segs) = (''#EXTINF:'' @ fixed6 (duration_of s) @ '','') # segment_name (Seq s) # segment_lines segs"

definition text_of :: "string list \<Rightarrow> string" where
  "text_of ls = concat (map (\<lambda>l. l @ [newline]) ls)"

text \<open>The response to a request for the playlist, and whether a discontinuity is still to be announced.\<close>

definition playlist :: "ring_buffer \<Rightarrow> bool \<Rightarrow> string \<times> bool" where
  "playlist rb discont =
     (case Snapshot rb of
        (base, segs) \<Rightarrow> (text_of (playlist_header base discont @ segment_lines segs), False))"

definition playlist_request :: "peer \<Rightarrow> response \<times> peer" where
  "playlist_request p =
     (let (txt, d) = playlist (ring p) (pendingDiscont p)
      in (\<lparr>status = 200, body = to_bytes txt\<rparr>, p\<lparr>pendingDiscont := d\<rparr>))"

section \<open>The segments\<close>

definition segment_handler :: "string \<Rightarrow> ring_buffer \<Rightarrow> response option" where
  "segment_handler path rb =
     (if length path < 8 then None
      else
        (case parse_uint32 (take (length path - 8) (drop 5 path)) of
           None \<Rightarrow> Some not_found
         | Some seq \<Rightarrow>
             (case Get seq rb of None \<Rightarrow> Some not_found | Some d \<Rightarrow> Some \<lparr>status = 200, body = d\<rparr>)))"

definition root_handler :: "string \<Rightarrow> ring_buffer \<Rightarrow> response option" where
  "root_handler path rb =
     (if has_prefix path ''/seg_'' \<and> has_suffix path ''.ts'' then segment_handler path rb else Some not_found)"

section \<open>Ingest\<close>

definition ingest_handler ::
  "string \<Rightarrow> string \<Rightarrow> string + bytes \<Rightarrow> (u32 \<Rightarrow> float64 \<times> bool) \<Rightarrow> i64 \<Rightarrow> ring_buffer \<Rightarrow> response \<times> ring_buffer" where
  "ingest_handler meth path content durationGetter now rb =
     (if meth \<noteq> ''PUT'' \<and> meth \<noteq> ''POST'' then (\<lparr>status = 405, body = []\<rparr>, rb)
      else
        (case parse_uint32 (trim_suffix (trim_prefix path ''/ingest/'') ''.ts'') of
           None \<Rightarrow> (not_found, rb)
         | Some seq \<Rightarrow>
             (case content of
                Inl e \<Rightarrow> (\<lparr>status = 400, body = to_bytes (''io error: '' @ e @ [newline])\<rparr>, rb)
              | Inr data \<Rightarrow>
                  (let (currentDur, found) = durationGetter seq;
                       actualDuration = (if found \<and> currentDur > 0 then currentDur else SegmentDuration)
                   in (\<lparr>status = 202, body = []\<rparr>, WriteAt seq data 0 actualDuration now rb)))))"

text \<open>The durations of \<^verbatim>\<open>Node.GetActualSegmentDuration\<close>: those of the current monitor, if there is one.\<close>

definition GetActualSegmentDuration :: "monitor option \<Rightarrow> u32 \<Rightarrow> float64 \<times> bool" where
  "GetActualSegmentDuration m seq = (case m of None \<Rightarrow> (0, False) | Some mon \<Rightarrow> GetSegmentDuration seq mon)"

section \<open>Status\<close>

text \<open>One tick: what is sent to the clients, if anything.\<close>

definition status_tick :: "ring_buffer \<Rightarrow> stream_status option" where
  "status_tick rb =
     (case Snapshot rb of
        (base, segs) \<Rightarrow>
          (if base = 0 then None
           else Some \<lparr>ss_file_path = '''', ss_sequence = base, ss_pts = 0, ss_duration = 0, ss_is_live = True\<rparr>))"

definition broadcast_status :: "env \<Rightarrow> peer \<Rightarrow> peer" where
  "broadcast_status E p = (case status_tick (ring p) of None \<Rightarrow> p | Some st \<Rightarrow> hub_broadcast E (StreamStatus st) p)"

section \<open>Lemmas\<close>

lemma split_text: "\<forall>l \<in> set ls. newline \<notin> set l \<Longrightarrow> split_on newline (text_of ls) = ls @ [[]]"
  by (induction ls) (simp_all add: text_of_def split_on_append)

lemma dec_no: "c \<in> set (dec n) \<Longrightarrow> is_digit c"
  using dec_digits [of n] by (auto simp: list_all_iff)

lemma digit_not: "is_digit c \<Longrightarrow> c \<noteq> newline \<and> c \<noteq> CHR ''.'' \<and> \<not> is_space c"
  by (auto simp: is_digit_def newline_def is_space_def ascii_code_def)

lemma pad0_digits: "c \<in> set (pad0 k (dec n)) \<Longrightarrow> is_digit c"
  by (auto simp: pad0_def is_digit_def ascii_code_def dest: dec_no split: if_splits)

lemma fixed6_text: "duration_text (fixed6 x)" "newline \<notin> set (fixed6 x)"
proof -
  have c: "\<forall>c \<in> set (fixed6 x). is_digit c \<or> c = CHR ''.''"
    by (auto simp: fixed6_def Let_def dest: dec_no pad0_digits)
  then show "duration_text (fixed6 x)" by (simp add: duration_text_def) (simp add: fixed6_def Let_def)
  show "newline \<notin> set (fixed6 x)" using c digit_not by (auto simp: newline_def)
qed

lemma segment_name_text: "newline \<notin> set (segment_name s)" "segment_match (trim_space (segment_name s))"
proof -
  show "newline \<notin> set (segment_name s)"
    using digit_not dec_no by (auto simp: segment_name_def newline_def)
  have "trim_space (segment_name s) = segment_name s"
    by (rule trim_id) (simp_all add: segment_name_def is_space_def ascii_code_def)
  then show "segment_match (trim_space (segment_name s))" by (simp add: segment_name_def segment_match_def)
qed

lemma dec_val_append: "dec_val (a @ b) = dec_val a * 10 ^ length b + dec_val b"
  by (induction b rule: rev_induct) (simp_all add: dec_val_def algebra_simps)

lemma dec_val_zeros: "dec_val (replicate k (CHR ''0'') @ s) = dec_val s"
  by (induction k) (simp_all add: dec_val_append dec_val_def digit_val_def ascii_code_def)

lemma dec_val_pad0 [simp]: "dec_val (pad0 k (dec n)) = n"
  by (simp add: pad0_def dec_val_zeros)

lemma dec_length: "n < 10 ^ k \<Longrightarrow> 0 < k \<Longrightarrow> length (dec n) \<le> k"
proof (induction k arbitrary: n)
  case (Suc k)
  show ?case
  proof (cases "n < 10")
    case True
    then show ?thesis by (simp add: dec.simps [of n])
  next
    case False
    then have "k \<noteq> 0" using Suc.prems(1) by (cases k) auto
    moreover have "n div 10 < 10 ^ k" using Suc.prems(1) by (simp add: div_less_iff_less_mult)
    ultimately show ?thesis using False Suc.IH [of "n div 10"] by (simp add: dec.simps [of n])
  qed
qed simp

lemma pad0_length: "n < 10 ^ k \<Longrightarrow> 0 < k \<Longrightarrow> length (pad0 k (dec n)) = k"
  using dec_length [of n k] by (simp add: pad0_def)

text \<open>Reading back a printed duration.\<close>

definition printed :: "float64 \<Rightarrow> float64" where
  "printed x = round64 (of_nat (nat (round_even (x * 10 ^ 6))) / 10 ^ 6)"

lemma parse_fixed6: "printed x < 2 ^ 1024 \<Longrightarrow> parse_float (fixed6 x) = Some (printed x)"
proof -
  assume lt: "printed x < 2 ^ 1024"
  let ?n = "nat (round_even (x * 10 ^ 6))"
  let ?a = "dec (?n div 10 ^ 6)" and ?b = "pad0 6 (dec (?n mod 10 ^ 6))"
  have "CHR ''.'' \<notin> set ?a" "CHR ''.'' \<notin> set ?b" using dec_no pad0_digits digit_not by blast+
  then have s: "split_on (CHR ''.'') (fixed6 x) = [?a, ?b]"
    by (simp add: fixed6_def Let_def split_on_append split_on_single)
  have l: "length ?b = 6" by (rule pad0_length) simp_all
  have "dec_val (?a @ ?b) = ?n"
    unfolding dec_val_append l by simp
  with s l lt show ?thesis by (simp add: parse_float_def printed_def)
qed


text \<open>The lines of the segments, as the entries the monitor reads.\<close>

definition entry_of :: "segment \<Rightarrow> float64 \<times> string \<times> string" where
  "entry_of s = (printed (duration_of s), fixed6 (duration_of s), segment_name (Seq s))"

lemma segment_lines_entries: "segment_lines segs = entry_lines (map entry_of segs)"
  by (induction segs) (simp_all add: entry_of_def extinf_line_def)

lemma pow2_nonneg: "0 \<le> pow2 e"
  by (simp add: pow2_def)

lemma round_even_nonneg: "0 \<le> x \<Longrightarrow> 0 \<le> round_even x"
  by (simp add: round_even_def Let_def)

lemma round64_nonneg: "0 \<le> round64 x"
  by (auto simp: round64_def Let_def intro!: mult_nonneg_nonneg round_even_nonneg divide_nonneg_nonneg pow2_nonneg)

lemma entry_of_ok: "printed (duration_of s) < 2 ^ 1024 \<Longrightarrow> entry_ok (entry_of s)"
proof -
  have "0 \<le> printed (duration_of s)" by (simp add: printed_def round64_nonneg)
  then have "printed (duration_of s) \<noteq> -1" by linarith
  then show "printed (duration_of s) < 2 ^ 1024 \<Longrightarrow> entry_ok (entry_of s)"
    by (simp add: entry_ok_def entry_of_def fixed6_text segment_name_text parse_fixed6)
qed

lemma header_no_newline: "\<forall>l \<in> set (playlist_header b d). newline \<notin> set l"
  using dec_no digit_not by (fastforce simp: playlist_header_def newline_def)

lemma lines_no_newline: "\<forall>l \<in> set (segment_lines segs). newline \<notin> set l"
  using fixed6_text(2) segment_name_text(1) by (induction segs) (auto simp: newline_def)

lemma media_line:
  "media_match (''#EXT-X-MEDIA-SEQUENCE:'' @ dec (unat b)) = Some (dec (unat (b :: u32)))"
  "trim_space (''#EXT-X-MEDIA-SEQUENCE:'' @ dec n) = ''#EXT-X-MEDIA-SEQUENCE:'' @ dec n"
proof -
  have t: "takeWhile is_digit (dec (unat b)) = dec (unat b)"
    using dec_no by (auto simp: takeWhile_eq_all_conv)
  have "drop 22 (''#EXT-X-MEDIA-SEQUENCE:'' @ dec (unat b)) = dec (unat b)" by simp
  then show "media_match (''#EXT-X-MEDIA-SEQUENCE:'' @ dec (unat b)) = Some (dec (unat b))"
    unfolding media_match_def by (simp only: t Let_def) (simp add: has_prefix_def)
  have "last (dec n) \<in> set (dec n)" by simp
  then have "\<not> is_space (last (dec n))" using dec_no digit_not by blast
  then show "trim_space (''#EXT-X-MEDIA-SEQUENCE:'' @ dec n) = ''#EXT-X-MEDIA-SEQUENCE:'' @ dec n"
    by (intro trim_id) (simp_all add: is_space_def ascii_code_def)
qed

lemma parse_header:
  "fold parse_line (playlist_header b d) st = st\<lparr>latestMediaBase := b, segmentIndexInPlaylist := 0\<rparr>"
proof -
  have t: "trim_space (''#EXT-X-TARGETDURATION:'' @ dec n) = ''#EXT-X-TARGETDURATION:'' @ dec n" for n
  proof -
    have "last (dec n) \<in> set (dec n)" by simp
    then have "\<not> is_space (last (dec n))" using dec_no digit_not by blast
    then show ?thesis by (intro trim_id) (simp_all add: is_space_def ascii_code_def)
  qed
  have skip: "parse_line l s = s" if "l \<in> {''#EXTM3U'', ''#EXT-X-VERSION:3'', ''#EXT-X-PLAYLIST-TYPE:EVENT'',
      ''#EXT-X-START:TIME-OFFSET=0,PRECISE=YES'', ''#EXT-X-DISCONTINUITY''}" for l s
  proof (rule parse_other)
    have "list_all (\<lambda>l. media_match (trim_space l) = None \<and> extinf_match (trim_space l) = None \<and> \<not> segment_match (trim_space l))
        [''#EXTM3U'', ''#EXT-X-VERSION:3'', ''#EXT-X-PLAYLIST-TYPE:EVENT'', ''#EXT-X-START:TIME-OFFSET=0,PRECISE=YES'', ''#EXT-X-DISCONTINUITY'']"
      by code_simp
    with that show "media_match (trim_space l) = None" "extinf_match (trim_space l) = None" "\<not> segment_match (trim_space l)" by auto
  qed
  have target: "parse_line (''#EXT-X-TARGETDURATION:'' @ dec n) s = s" for n s
    by (rule parse_other; subst t) (simp_all add: media_match_def extinf_match_def segment_match_def has_prefix_def)
  have media: "parse_line (''#EXT-X-MEDIA-SEQUENCE:'' @ dec (unat b)) s = s\<lparr>latestMediaBase := b, segmentIndexInPlaylist := 0\<rparr>" for s
    unfolding parse_line_def Let_def media_line by simp
  show ?thesis
    unfolding playlist_header_def by (cases d) (simp_all add: skip target media del: append_Cons append.simps)
qed

lemma Snapshot_seqs:
  assumes "rb_ok rb" "Snapshot rb = (b, segs)" "i < length segs"
  shows "Seq (segs ! i) = b + word_of_nat i" "Get (Seq (segs ! i)) rb = Some (Data (segs ! i))" "unat b + i < 2 ^ 32"
proof -
  have l: "seg_lookup rb (unat b + i) = Some (segs ! i)" using Snapshot_run(1) [OF assms(1,2)] assms(3) by blast
  from seg_lookup_window [OF assms(1) l] have w: "unat (Seq (segs ! i)) = unat b + i" by simp
  then show lt: "unat b + i < 2 ^ 32" using unat32 [of "Seq (segs ! i)"] by simp
  have "unat (b + word_of_nat i) = unat b + i"
    using lt by (simp add: unat_word_ariths unat_of_nat)
  with w show "Seq (segs ! i) = b + word_of_nat i" by (simp add: word_unat_eq_iff)
  show "Get (Seq (segs ! i)) rb = Some (Data (segs ! i))"
  proof -
    have "Get n rb = map_option Data (seg_lookup rb (unat n))" for n
      using unat32 [of n] by (simp add: Get_def seg_lookup_def Let_def)
    then show ?thesis using l w by simp
  qed
qed

section \<open>Properties\<close>

text \<open>
  C24. A player reads the window back from the playlist. Read by the repository's own playlist reader, the text of the
  response has the first segment of the snapshot as its media sequence, and the durations of the segments, to six
  decimals, under their own numbers; and every segment it lists is served with its data.
\<close>

theorem playlist_roundtrip:
  assumes "rb_ok rb" "Snapshot rb = (b, segs)" "\<forall>s \<in> set segs. printed (duration_of s) < 2 ^ 1024"
  shows "latestMediaBase (parse_text start (fst (playlist rb d))) = b \<and>
    (\<forall>i < length segs.
      mget (tempDurations (parse_text start (fst (playlist rb d)))) (Seq (segs ! i)) = Some (printed (duration_of (segs ! i)))
      \<and> root_handler (CHR ''/'' # segment_name (Seq (segs ! i))) rb = Some \<lparr>status = 200, body = Data (segs ! i)\<rparr>)"
proof -
  let ?st = "\<lparr>latestMediaBase = b, segmentIndexInPlaylist = 0, currentExtInfDuration = -1, tempDurations = []\<rparr>"
  have t: "fst (playlist rb d) = text_of (playlist_header b d @ segment_lines segs)"
    by (simp add: playlist_def assms(2))
  have "\<forall>l \<in> set (playlist_header b d @ segment_lines segs). newline \<notin> set l"
    using header_no_newline lines_no_newline by auto
  then have "parse_text start (fst (playlist rb d)) = parse_line [] (fold parse_line (segment_lines segs) ?st)"
    unfolding parse_text_def t by (simp add: split_text parse_header)
  also have "\<dots> = fold parse_line (entry_lines (map entry_of segs)) ?st"
    unfolding segment_lines_entries
    by (rule parse_other) (simp_all add: media_match_def extinf_match_def segment_match_def has_prefix_def)
  also have "\<dots> = ?st\<lparr>tempDurations := put_durations b 0 (map (printed \<circ> duration_of) segs) [],
      segmentIndexInPlaylist := int (length segs)\<rparr>"
  proof (subst parse_entries)
    show "\<forall>e \<in> set (map entry_of segs). entry_ok e" using assms(3) entry_of_ok by auto
  qed (simp_all add: comp_def entry_of_def)
  finally have p: "parse_text start (fst (playlist rb d)) = ?st\<lparr>tempDurations := put_durations b 0 (map (printed \<circ> duration_of) segs) [],
      segmentIndexInPlaylist := int (length segs)\<rparr>" .
  have len: "int (length segs) \<le> 2 ^ 32"
    using Snapshot_seqs(3) [OF assms(1,2), of "length segs - 1"] by (cases "segs = []") auto
  have "mget (tempDurations (parse_text start (fst (playlist rb d)))) (Seq (segs ! i)) = Some (printed (duration_of (segs ! i)))"
    if "i < length segs" for i
    using put_durations_get [of "map (printed \<circ> duration_of) segs" 0 i b "[]"] len that Snapshot_seqs(1) [OF assms(1,2) that]
    unfolding p by simp
  moreover have "root_handler (CHR ''/'' # segment_name (Seq (segs ! i))) rb = Some \<lparr>status = 200, body = Data (segs ! i)\<rparr>"
    if "i < length segs" for i
  proof -
    let ?s = "Seq (segs ! i)"
    have path: "CHR ''/'' # segment_name ?s = ''/seg_'' @ dec (unat ?s) @ ''.ts''" by (simp add: segment_name_def)
    have "has_suffix (''/seg_'' @ dec (unat ?s) @ ''.ts'') ''.ts''" using has_suffix_append [of "''/seg_'' @ dec (unat ?s)" "''.ts''"] by simp
    moreover have "has_prefix (''/seg_'' @ dec (unat ?s) @ ''.ts'') ''/seg_''" by (rule has_prefix_append)
    moreover have "segment_handler (''/seg_'' @ dec (unat ?s) @ ''.ts'') rb = Some \<lparr>status = 200, body = Data (segs ! i)\<rparr>"
      using Snapshot_seqs(2) [OF assms(1,2) that] by (simp add: segment_handler_def)
    ultimately show ?thesis unfolding path root_handler_def by simp
  qed
  ultimately show ?thesis unfolding p by simp
qed

lemma parse_pad0: "parse_uint32 (pad0 k (dec (unat (n :: u32)))) = Some n"
proof -
  have "list_all is_digit (pad0 k (dec (unat n)))" using pad0_digits by (auto simp: list_all_iff)
  moreover have "pad0 k (dec (unat n)) \<noteq> []" by (simp add: pad0_def)
  moreover have "unat n < 2 ^ 32" by (rule unat32)
  ultimately show ?thesis by (simp add: parse_uint32_def)
qed

lemma served: "Get n rb = Some d \<Longrightarrow> root_handler (CHR ''/'' # segment_name n) rb = Some \<lparr>status = 200, body = d\<rparr>"
proof -
  assume g: "Get n rb = Some d"
  have path: "CHR ''/'' # segment_name n = ''/seg_'' @ dec (unat n) @ ''.ts''" by (simp add: segment_name_def)
  have "has_suffix (''/seg_'' @ dec (unat n) @ ''.ts'') ''.ts''" using has_suffix_append [of "''/seg_'' @ dec (unat n)" "''.ts''"] by simp
  moreover have "has_prefix (''/seg_'' @ dec (unat n) @ ''.ts'') ''/seg_''" by (rule has_prefix_append)
  moreover have "segment_handler (''/seg_'' @ dec (unat n) @ ''.ts'') rb = Some \<lparr>status = 200, body = d\<rparr>"
    using g by (simp add: segment_handler_def)
  ultimately show ?thesis unfolding path root_handler_def by simp
qed

text \<open>The duration a put segment is stored with.\<close>

definition ingest_duration :: "(u32 \<Rightarrow> float64 \<times> bool) \<Rightarrow> u32 \<Rightarrow> float64" where
  "ingest_duration g n = (if snd (g n) \<and> fst (g n) > 0 then fst (g n) else SegmentDuration)"

lemma ingest_accepts:
  "ingest_handler ''PUT'' (''/ingest/'' @ pad0 6 (dec (unat n)) @ ''.ts'') (Inr data) g now rb =
     (\<lparr>status = 202, body = []\<rparr>, WriteAt n data 0 (ingest_duration g n) now rb)"
proof -
  have "trim_suffix (pad0 6 (dec (unat n)) @ ''.ts'') ''.ts'' = pad0 6 (dec (unat n))" by (rule trim_suffix_append)
  then show ?thesis
    unfolding ingest_handler_def trim_prefix_append by (simp add: parse_pad0 ingest_duration_def case_prod_beta)
qed

text \<open>A segment that is not older than the window is in it once it is written.\<close>

lemma written_lookup:
  assumes "rb_ok rb" "unat n < 2 ^ 32 - 1" "data \<noteq> []" "baseSeq rb \<le> n" "unat (nextSeq rb) \<le> unat n + nat (capacity rb)"
  shows "seg_lookup (WriteAt n data pts dur now rb) (unat n) = Some (mk_segment n data pts dur now)"
proof -
  have "\<not> unat n < lo (WriteAt n data pts dur now rb)"
    using WriteAt_effect(1,2) [OF assms(1,2), of data pts dur now] assms(4,5) rb_okD(1) [OF assms(1)]
    by (auto simp: word_le_nat_alt max_def)
  then show ?thesis using seg_lookup_WriteAt [OF assms(1-3)] by simp
qed

lemma lookup_Get:
  assumes "seg_lookup rb (unat n) = Some s"
  shows "Get n rb = Some (Data s)" "rb_GetSegmentActualDuration n rb = ActualDuration s"
  using assms unat32 [of n]
  by (simp_all add: Get_def rb_GetSegmentActualDuration_def seg_lookup_def Let_def split: if_splits)

text \<open>
  C25. A segment that ffmpeg puts is a segment the player can fetch. Put under the six-digit name of its number, with
  data and not older than the window, a segment is accepted, and is what the service answers under the name
  the playlist uses for it.
\<close>

theorem ingest_serves:
  assumes "rb_ok rb" "unat n < 2 ^ 32 - 1" "data \<noteq> []" "baseSeq rb \<le> n" "unat (nextSeq rb) \<le> unat n + nat (capacity rb)"
  shows "let (resp, rb') = ingest_handler ''PUT'' (''/ingest/'' @ pad0 6 (dec (unat n)) @ ''.ts'') (Inr data) g now rb
    in status resp = 202 \<and> root_handler (CHR ''/'' # segment_name n) rb' = Some \<lparr>status = 200, body = data\<rparr>"
  unfolding ingest_accepts using served [OF lookup_Get(1) [OF written_lookup [OF assms]]] by (simp add: mk_segment_def)

lemma prefix_suffix_length:
  assumes "has_prefix path ''/seg_''" "has_suffix path ''.ts''"
  shows "8 \<le> length path"
proof (rule ccontr)
  assume "\<not> 8 \<le> length path"
  moreover obtain t where t: "path = ''/seg_'' @ t" using has_prefixE [OF assms(1)] by blast
  moreover obtain s where s: "path = s @ ''.ts''" using has_suffixE [OF assms(2)] by blast
  ultimately have "length t < 3" by simp
  then consider "t = []" | x where "t = [x]" | x y where "t = [x, y]"
    by (cases t rule: list.exhaust; cases "tl t"; cases "tl (tl t)") auto
  then show False using t s by cases (auto simp: append_eq_append_conv2 Cons_eq_append_conv append_eq_Cons_conv)
qed

text \<open>
  What the endpoints refuse. The segment route never panics, whatever the path. A put segment is stored exactly when the
  method is PUT or POST, the path names a 32-bit number and the body could be read; every other request is
  answered with 405, 404 or 400, in this order, and leaves the window as it is.
\<close>

theorem http_errors:
  "root_handler path rb \<noteq> None \<and>
   (let (resp, rb') = ingest_handler meth path content g now rb
    in (if meth \<noteq> ''PUT'' \<and> meth \<noteq> ''POST'' then status resp = 405 \<and> rb' = rb
        else case parse_uint32 (trim_suffix (trim_prefix path ''/ingest/'') ''.ts'') of
            None \<Rightarrow> status resp = 404 \<and> rb' = rb
          | Some seq \<Rightarrow>
              (case content of Inl e \<Rightarrow> status resp = 400 \<and> rb' = rb
               | Inr data \<Rightarrow> status resp = 202 \<and> (\<exists>d. d > 0 \<and> rb' = WriteAt seq data 0 d now rb))))"
proof -
  have "root_handler path rb \<noteq> None"
    using prefix_suffix_length [of path]
    by (auto simp: root_handler_def segment_handler_def split: option.split)
  moreover have "\<exists>d. d > 0 \<and> WriteAt seq data 0 (if b \<and> 0 < x then x else SegmentDuration) now rb = WriteAt seq data 0 d now rb"
    for b seq data and x :: float64
    by (intro exI [of _ "if b \<and> 0 < x then x else SegmentDuration"]) (simp add: SegmentDuration_def)
  ultimately show ?thesis
    by (simp add: ingest_handler_def not_found_def Let_def case_prod_beta split: option.split sum.split)
qed

text \<open>
  No status during the first minutes of the first item. The ticker takes a first segment number 0 for an encoder that
  has not started: as long as segment 0 is in the window, the clients are told nothing.
\<close>

theorem status_silent_from_zero:
  assumes "rb_ok rb" "Get 0 rb \<noteq> None"
  shows "status_tick rb = None \<and> broadcast_status E (p\<lparr>ring := rb\<rparr>) = p\<lparr>ring := rb\<rparr>"
proof -
  obtain b segs where s: "Snapshot rb = (b, segs)" by (cases "Snapshot rb")
  have "Get 0 rb = map_option Data (seg_lookup rb 0)" by (simp add: Get_def seg_lookup_def Let_def)
  with assms(2) have "seg_lookup rb 0 \<noteq> None" by auto
  with Snapshot_run(2) [OF assms(1) s] have "unat b = 0" by (metis neq0_conv)
  then have "b = 0" by (simp add: unat_eq_0)
  then show ?thesis by (simp add: status_tick_def s broadcast_status_def)
qed


section \<open>Witnesses\<close>

definition ex_window :: ring_buffer where
  "ex_window = \<lparr>capacity = 4, baseSeq = 0, nextSeq = 0, buf = replicate 4 zero_segment, head = 0, events = [],
     publishEvents = True\<rparr>"

lemma ex_window_ok: "rb_ok ex_window" "rb_ok (WriteAt 0 [71] 0 (5 / 2) 1 ex_window)"
proof -
  show "rb_ok ex_window" unfolding ex_window_def by (rule rb_okI) (auto simp: zero_segment_def nth_Cons')
  then show "rb_ok (WriteAt 0 [71] 0 (5 / 2) 1 ex_window)" by (simp add: rb_ok_WriteAt)
qed

lemma ex_snapshot: "Snapshot (WriteAt 0 [71] 0 (5 / 2) 1 ex_window) = (0, [mk_segment 0 [71] 0 (5 / 2) 1])"
  by code_simp

theorem playlist_roundtrip_witness:
  "root_handler ''/seg_0.ts'' (WriteAt 0 [71] 0 (5 / 2) 1 ex_window) = Some \<lparr>status = 200, body = [71]\<rparr>"
proof -
  have "nat (round_even (5 / 2 * 10 ^ 6)) = 2500000" by (simp add: round_even_def)
  then have "printed (5 / 2) = round64 (of_nat 2500000 / 10 ^ 6)" unfolding printed_def by simp
  then have "printed (5 / 2) = 5 / 2" by (simp add: ex_round)
  then have "\<forall>s \<in> set [mk_segment 0 [71] 0 (5 / 2) 1]. printed (duration_of s) < 2 ^ 1024"
    by (simp add: duration_of_def mk_segment_def)
  moreover have "CHR ''/'' # segment_name 0 = ''/seg_0.ts''" by code_simp
  ultimately show ?thesis
    using playlist_roundtrip [OF ex_window_ok(2) ex_snapshot] by (simp add: mk_segment_def)
qed

theorem ingest_serves_witness:
  "status (fst (ingest_handler ''PUT'' ''/ingest/000002.ts'' (Inr [71]) (\<lambda>_. (0, False)) 1 ex_window)) = 202"
proof -
  have "pad0 6 (dec (unat (2 :: u32))) @ ''.ts'' = ''000002.ts''" by code_simp
  with ingest_serves [OF ex_window_ok(1), of 2 "[71]" "\<lambda>_. (0, False)" 1] show ?thesis
    by (simp add: ex_window_def case_prod_beta Let_def)
qed

theorem http_errors_witness:
  "status (fst (ingest_handler ''GET'' ''/ingest/1.ts'' (Inr [71]) (\<lambda>_. (0, False)) 1 ex_window)) = 405"
  using http_errors [where path = "''/ingest/1.ts''" and rb = ex_window and meth = "''GET''" and content = "Inr [71]"
      and g = "\<lambda>_. (0, False)" and now = 1]
  by (simp add: case_prod_beta Let_def)

theorem status_silent_from_zero_witness:
  "status_tick (WriteAt 0 [71] 0 (5 / 2) 1 ex_window) = None"
proof -
  have "Get 0 (WriteAt 0 [71] 0 (5 / 2) 1 ex_window) \<noteq> None" by code_simp
  from status_silent_from_zero [OF ex_window_ok(2) this] show ?thesis by simp
qed

end
