(* ===== verification/Service.thy ===== *)
theory Service
  imports ControlStream Hls
begin

text \<open>
  The whole service: how \<^verbatim>\<open>main\<close> of \<^verbatim>\<open>peer_service/main.go\<close> puts the peer together, and every step it can
  take afterwards as one relation. What the environment answers may differ from step to step. After the invariant of this relation come
  the properties that need a good state: who takes whom out of a session, that a ban lasts, and what a joiner has after the join.
\<close>

section \<open>Start\<close>

text \<open>
  \<^verbatim>\<open>main\<close> up to \<open>SetDependencies\<close>, for the identity of the host, the \<open>-roles\<close> and \<open>-no-mdns\<close> flags and the clock;
  \<open>None\<close> is \<^verbatim>\<open>log.Fatalf\<close>. Listening on ports, the libp2p host and the servers are outside the model.
\<close>

definition initial_roles :: "codec \<Rightarrow> peer_id \<Rightarrow> string \<Rightarrow> role_manager \<times> hlc \<Rightarrow> (role_manager \<times> hlc) option" where
  "initial_roles K h initialRolesStr s =
     (case ParseRoleNames initialRolesStr (fst s) of
        Inl e \<Rightarrow> None
      | Inr parsed \<Rightarrow>
          (if length parsed > 0 then
             (case SetPeerRoles K h (map role_name parsed) s of
                (Inl e, s1) \<Rightarrow> None
              | (Inr a, s1) \<Rightarrow> Some s1)
           else Some s))"

text \<open>The components as they are created and wired, before any topic is joined.\<close>

definition wire :: "peer_id \<Rightarrow> role_manager \<Rightarrow> hlc \<Rightarrow> ring_buffer \<Rightarrow> bool \<Rightarrow> peer" where
  "wire h rm c rb noMdns =
     \<lparr>nd = NewNode h, qc = NewQueueController, rm_of = rm, ring = rb, hub_of = NewHub,
      sm_of = NewSessionManager, clk = c, pendingDiscont = False, srv_ctrlTopic = None,
      srv_chatTopic = None, mdnsEnabled = \<not> noMdns, mdnsStarted = False, trace = []\<rparr>"

definition main_init :: "env \<Rightarrow> peer_id \<Rightarrow> string \<Rightarrow> bool \<Rightarrow> hlc \<Rightarrow> peer option" where
  "main_init E h initialRolesStr noMdns c0 =
     (case NewRingBuffer 120 of
        None \<Rightarrow> None
      | Some rb \<Rightarrow>
          (case initial_roles (codec_of E) h initialRolesStr (NewRoleManager, c0) of
             None \<Rightarrow> None
           | Some (rm, c) \<Rightarrow>
               (let p1 = snd (JoinSessionTopics E ''default'' (wire h rm c rb noMdns));
                    p2 = p1\<lparr>srv_ctrlTopic := CtrlTopic p1, srv_chatTopic := ChatTopic p1\<rparr>
                in Some (on_qc (ctrlTopicRef_update (\<lambda>_. CtrlTopic p2)) p2))))"

section \<open>Steps\<close>

inductive service_step :: "peer \<Rightarrow> peer \<Rightarrow> bool" where
  client_opened: "service_step p (stream_opened E cs p)"
| client_message: "client_step E N cs m p = Some p' \<Longrightarrow> service_step p p'"
| client_closed: "service_step p (stream_closed E p)"
| control_message: "service_step p (processControlTopicMessages E src cm p)"
| chat_message: "service_step p (processChatTopicMessages E src cm p)"
| segment_event: "service_step p (processSegmentEvents wire_size pub_ok p)"
| video_message: "service_step p (processVideoSegmentMessages src seg msg_size now p)"
| auth_request: "service_step p (snd (handleAuthStream E remote request p))"
| encoder_starts: "t \<in> set (tasks (nd p)) \<Longrightarrow> \<not> t_entered t \<Longrightarrow> service_step p (runner_enter E t p)"
| encoder_returns: "t \<in> set (tasks (nd p)) \<Longrightarrow> t_entered t \<Longrightarrow> service_step p (runner_leave E t r p)"
| initial_react: "service_step p (ReactToQueueUpdate E p)"
| playlist_fetched: "service_step p (snd (playlist_request p))"
| segment_put: "service_step p (p\<lparr>ring := snd (ingest_handler meth path sent g now (ring p))\<rparr>)"
| status_ticks: "service_step p (broadcast_status E p)"
| client_dropped: "service_step p (p\<lparr>hub_of := run_doomed i (hub_of p)\<rparr>)"

section \<open>What every step preserves\<close>

definition service_ok :: "peer \<Rightarrow> bool" where
  "service_ok p \<longleftrightarrow> peer_ok p \<and> rm_ok (rm_of p) \<and> sm_ok (sm_of p)"

lemma service_okI: "peer_ok p \<Longrightarrow> rm_ok (rm_of p) \<Longrightarrow> sm_ok (sm_of p) \<Longrightarrow> service_ok p"
  by (simp add: service_ok_def)

lemma service_okD: "service_ok p \<Longrightarrow> peer_ok p" "service_ok p \<Longrightarrow> rm_ok (rm_of p)" "service_ok p \<Longrightarrow> sm_ok (sm_of p)"
  by (simp_all add: service_ok_def)

lemma peer_ok_runs: "same_runs (nd p) (nd p') \<Longrightarrow> queue_of p' = queue_of p \<Longrightarrow> peer_ok p' = peer_ok p"
  by (simp add: peer_ok_def runs_ok_def same_runs_def)

lemma same_runs_refl [simp]: "same_runs n n"
  by (simp add: same_runs_def)

lemma same_runs_trans: "same_runs a b \<Longrightarrow> same_runs b c \<Longrightarrow> same_runs a c"
  by (simp add: same_runs_def)

lemma rm_ok_stamp:
  "rm_ok rm \<Longrightarrow> rm_ok (fst (snd (SetPeerRoles K t ns (rm, c))))"
  "rm_ok rm \<Longrightarrow> rm_ok (snd (UpdateDefinition n q rm))"
  "rm_ok rm \<Longrightarrow> rm_ok (fst (snd (RemoveDefinition K n (rm, c))))"
  "rm_ok rm \<Longrightarrow> rm_ok (snd (ApplyDefinitionsUpdate u rm))"
  "rm_ok rm \<Longrightarrow> rm_ok (snd (ApplyPeerAssignment i ns ts rm))"
  "rm_ok rm \<Longrightarrow> rm_ok (snd (ApplyAllAssignmentsSnapshot K s rm))"
  using rm_ok_ops by (metis prod.collapse)+

text \<open>A step that leaves the runs of the encoder and the queue alone.\<close>

lemma service_ok_same:
  "service_ok p \<Longrightarrow> same_runs (nd p) (nd p') \<Longrightarrow> queue_of p' = queue_of p \<Longrightarrow> rm_ok (rm_of p') \<Longrightarrow> sm_ok (sm_of p') \<Longrightarrow> service_ok p'"
  by (simp add: service_ok_def peer_ok_runs)

lemma same_runs_session [simp]: "same_runs (nd p) (nd (SetCurrentSessionID s p))"
  "same_runs (nd p) (nd (SetCurrentSessionID s q)) = same_runs (nd p) (nd q)"
  by (simp_all add: same_runs_def SetCurrentSessionID_def)

lemma sm_ok_ops:
  "sm_ok sm \<Longrightarrow> sm_ok (fst (snd (CreateSession K sid i u n (sm, rm, c))))"
  "sm_ok sm \<Longrightarrow> sm_ok (fst (snd (AddPeerToSession K sid i u rs (sm, rm, c))))"
  "sm_ok sm \<Longrightarrow> sm_ok (snd (RemovePeerFromSession sid i sm))"
  "sm_ok sm \<Longrightarrow> sm_ok (snd (BanPeer sid i b r t sm))"
  using sm_ok_exec [of "(sm, rm, c)" K "CmdCreate sid i u n"] sm_ok_exec [of "(sm, rm, c)" K "CmdAdd sid i u rs"]
    sm_ok_exec [of "(sm, rm, c)" K "CmdRemovePeer sid i"] sm_ok_exec [of "(sm, rm, c)" K "CmdBan sid i b r t"]
  by simp_all

lemma rm_ok_sessions:
  "rm_ok rm \<Longrightarrow> rm_ok (fst (snd (snd (CreateSession K sid i u n (sm, rm, c)))))"
  "rm_ok rm \<Longrightarrow> rm_ok (fst (snd (snd (AddPeerToSession K sid i u rs (sm, rm, c)))))"
  by (auto simp: CreateSession_def AddPeerToSession_def Let_def case_prod_beta rm_ok_stamp split: option.split)

section \<open>Messages of the client\<close>

lemma service_ok_create: "service_ok p \<Longrightarrow> service_ok (handleCreateSession E N cs name user p)"
proof -
  assume ok: "service_ok p"
  let ?c = "on_sessions (CreateSession (codec_of E) (fresh_uuid N) (ID p) (from_opt user) (from_opt name)) p"
  have c: "rm_ok (rm_of (snd ?c))" "sm_ok (sm_of (snd ?c))"
    using service_okD [OF ok] by (simp_all add: on_sessions_def case_prod_beta sm_ok_ops rm_ok_sessions)
  have "same_runs (nd p) (nd (handleCreateSession E N cs name user p))"
    using Join_runs [of "snd ?c" E]
    by (auto simp: handleCreateSession_def session_created_def case_prod_beta Let_def split: sum.split)
  moreover have "rm_ok (rm_of (handleCreateSession E N cs name user p))" "sm_ok (sm_of (handleCreateSession E N cs name user p))"
    using c by (auto simp: handleCreateSession_def session_created_def case_prod_beta Let_def simp del: on_sessions_fields split: sum.split)
  ultimately show ?thesis using ok by (auto intro: service_ok_same)
qed

lemma service_ok_leave: "service_ok p \<Longrightarrow> service_ok (handleLeaveSession E sid p)"
proof -
  assume ok: "service_ok p"
  have j: "same_runs (nd p) (nd (snd (JoinSessionTopics E s q)))" if "nd q = nd p" for s q
    using Join_runs [of q E s] that by simp
  have "same_runs (nd p) (nd (handleLeaveSession E sid p))"
    unfolding handleLeaveSession_def Let_def by (auto simp: j)
  moreover have "sm_ok (sm_of (handleLeaveSession E sid p))"
    using service_okD(3) [OF ok] by (simp add: handleLeaveSession_def Let_def sm_ok_ops)
  ultimately show ?thesis using ok by (auto intro: service_ok_same simp: service_okD)
qed

lemma service_ok_ApplyUpdate: "service_ok p \<Longrightarrow> service_ok (snd (ApplyUpdate E u i p))"
  by (simp add: service_ok_def preserves)

lemma service_ok_send [simp]:
  "service_ok (snd (stream_send E cs m p)) = service_ok p" "service_ok (hub_broadcast E m p) = service_ok p"
  "service_ok (snd (publishToControlTopic m p)) = service_ok p" "service_ok (snd (publishToChatTopic m p)) = service_ok p"
  "service_ok (tell_all E m p) = service_ok p" "service_ok (sync_hlc h p) = service_ok p"
  "service_ok (maybeStartMdns p) = service_ok p" "service_ok (snd (now_hlc p)) = service_ok p"
  "service_ok (tell_left E r p) = service_ok p" "service_ok (sendInitialState E cs p) = service_ok p"
  "service_ok (tell_assignment E a p) = service_ok p"
  by (simp_all add: service_ok_def peer_ok_def queue_of_def)

lemma service_ok_process: "service_ok p \<Longrightarrow> service_ok (processAdminJoinResponse E resp admin p)"
proof -
  assume ok: "service_ok p"
  have s: "service_ok (SetCurrentSessionID x q)" if "service_ok q" for x q
    using that service_okD [OF that] by (auto intro!: service_ok_same [OF that] simp: queue_of_def)
  have a: "service_ok (apply_session_snapshot E admin d q)" if "service_ok q" for d q
    unfolding apply_session_snapshot_def Let_def
    using that by (auto simp: service_ok_def preserves rm_ok_stamp split: option.split intro!: service_ok_ApplyUpdate)
  have j: "service_ok (snd (JoinSessionTopics E x q))" if "service_ok q" for x q
    using that service_okD [OF that] by (auto intro!: service_ok_same [OF that] simp: queue_of_def Join_runs)
  have v: "service_ok (q\<lparr>srv_ctrlTopic := x, srv_chatTopic := y\<rparr>) = service_ok q" for x y q
    by (simp add: service_ok_def peer_ok_def queue_of_def)
  show ?thesis
    unfolding processAdminJoinResponse_def Let_def case_prod_beta
    using ok by (auto simp: v split: option.split intro!: j a s)
qed

lemma service_ok_join: "service_ok p \<Longrightarrow> service_ok (handleJoinSession E N cs sid u p)"
  by (cases rule: join_cases [of E N cs sid u p]) (simp_all add: join_error_def service_ok_process)

lemma service_ok_queue [intro]:
  "service_ok p \<Longrightarrow> service_ok (handleQueueCmd E c p)"
  "service_ok p \<Longrightarrow> service_ok (NotifyPlayerStreamCompleted E s i p)"
  "service_ok p \<Longrightarrow> service_ok (ReactToQueueUpdate E p)"
  by (simp_all add: service_ok_def handleQueueCmd_def preserves)

lemma service_ok_playback: "service_ok p \<Longrightarrow> service_ok (UpdateLastKnownPlaybackState s p)"
  by (simp add: service_ok_def peer_ok_def)

lemma service_ok_rm: "service_ok p \<Longrightarrow> rm_ok rm \<Longrightarrow> service_ok (p\<lparr>rm_of := rm\<rparr>)"
  by (simp add: service_ok_def)

lemma service_ok_sm: "service_ok p \<Longrightarrow> sm_ok sm \<Longrightarrow> service_ok (p\<lparr>sm_of := sm\<rparr>)"
  by (simp add: service_ok_def peer_ok_def)

lemma service_ok_on_roles:
  "service_ok p \<Longrightarrow> service_ok (snd (on_roles (SetPeerRoles K t ns) p))"
  "service_ok p \<Longrightarrow> service_ok (snd (on_roles (RemoveDefinition K n) p))"
  by (simp_all add: service_ok_def peer_ok_def queue_of_def rm_ok_stamp)

lemma service_ok_assignments: "service_ok p \<Longrightarrow> service_ok (fold (tell_assignment E) as p)"
  by (induction as arbitrary: p) simp_all

lemma service_ok_strip: "service_ok p \<Longrightarrow> service_ok (strip_roles_of E t p)"
  by (simp add: service_ok_def peer_ok_def queue_of_def rm_ok_stamp)

lemma service_ok_roles:
  "service_ok p \<Longrightarrow> service_ok (handleSetPeerRolesCmd E t ns s p)"
  "service_ok p \<Longrightarrow> service_ok (handleUpdateRoleCmd E d s p)"
  "service_ok p \<Longrightarrow> service_ok (handleRemoveRoleCmd E n s p)"
proof -
  assume ok: "service_ok p"
  show "service_ok (handleSetPeerRolesCmd E t ns s p)"
    unfolding handleSetPeerRolesCmd_def Let_def case_prod_beta
    using ok by (simp add: service_ok_on_roles del: on_roles_fields split: sum.split option.split)
  show "service_ok (handleUpdateRoleCmd E d s p)"
    unfolding handleUpdateRoleCmd_def Let_def case_prod_beta
    using ok by (auto simp: service_ok_rm rm_ok_stamp service_okD split: sum.split option.split)
  show "service_ok (handleRemoveRoleCmd E n s p)"
    unfolding handleRemoveRoleCmd_def Let_def case_prod_beta
    using ok by (simp add: service_ok_on_roles service_ok_assignments del: on_roles_fields split: sum.split)
qed

lemma service_ok_expel:
  "service_ok p \<Longrightarrow> service_ok (handleKickPeerCmd E c s p)"
  "service_ok p \<Longrightarrow> service_ok (handleBanPeerCmd E c s p)"
proof -
  assume ok: "service_ok p"
  have sm: "service_ok (q\<lparr>sm_of := sm\<rparr>)" if "service_ok q" "sm_ok sm" for q sm using that by (rule service_ok_sm)
  have rb: "sm_ok (snd (RemovePeerFromSession sid t (sm_of p)))" "sm_ok (snd (BanPeer sid t i e h (sm_of p)))" for sid t i e h
    using service_okD(3) [OF ok] by (simp_all add: sm_ok_ops)
  have h: "service_ok (snd (if a then now_hlc q else (z, q)))" if "service_ok q" for a z q using that by simp
  show "service_ok (handleKickPeerCmd E c s p)"
    unfolding handleKickPeerCmd_def Let_def
    using ok by (auto simp: case_prod_beta sm rb service_ok_strip intro!: h split: option.split sum.split)
  show "service_ok (handleBanPeerCmd E c s p)"
    unfolding handleBanPeerCmd_def Let_def
    using ok by (auto simp: case_prod_beta sm rb service_ok_strip intro!: h split: option.split sum.split)
qed

lemma service_ok_client:
  assumes "service_ok p" "client_step E N cs m p = Some p'"
  shows "service_ok p'"
proof -
  from assms(2) have p': "p' = client_switch E N cs m (sync_hlc (client_hlc m) p)"
    by (simp add: client_step_def split: if_splits)
  have "service_ok (client_switch E N cs m q)" if "service_ok q" for q
    using that
    by (cases m)
      (auto simp: service_ok_create service_ok_leave service_ok_join service_ok_roles service_ok_expel service_ok_playback
        handlePlaybackStateCmd_def handleChatCmd_def handleChatDeleteCmd_def Let_def case_prod_beta split: if_splits)
  with assms(1) show ?thesis by (simp add: p')
qed

section \<open>Messages of other peers\<close>

lemma service_ok_expelled:
  "service_ok p \<Longrightarrow> service_ok (expelled E x m p)"
proof -
  assume ok: "service_ok p"
  have "service_ok (SetCurrentSessionID ''default'' (snd (JoinSessionTopics E ''default'' p)))"
    using service_okD [OF ok] by (auto intro!: service_ok_same [OF ok] simp: queue_of_def Join_runs)
  then have "service_ok (leave_expelled E p)"
    unfolding leave_expelled_def Let_def case_prod_beta
    by (simp add: service_ok_on_roles del: on_roles_fields split: sum.split option.split)
  then show ?thesis using ok by (simp add: expelled_def)
qed

lemma service_ok_gossip:
  assumes "service_ok p"
  shows "service_ok (handleGossipRoleDefinitionsUpdate E u src p)" "service_ok (handleGossipPeerRoleAssignment E a src p)"
    "service_ok (handleGossipAllPeerRoleAssignments E as src p)" "service_ok (handleGossipPlaylistReset E r src p)"
    "service_ok (handleGossipPeerLeft E l src p)"
proof -
  have q: "service_ok (sync_hlc h p)" for h using assms by simp
  have rm: "service_ok (sync_hlc h p\<lparr>rm_of := snd (f (rm_of p))\<rparr>)" if "\<And>x. rm_ok x \<Longrightarrow> rm_ok (snd (f x))" for h and f :: "role_manager \<Rightarrow> 'b \<times> role_manager"
    using service_ok_rm [OF q] that service_okD(2) [OF assms] by blast
  show "service_ok (handleGossipRoleDefinitionsUpdate E u src p)"
    unfolding handleGossipRoleDefinitionsUpdate_def Let_def case_prod_beta sync_fields
    by (auto intro!: rm service_ok_queue(3) rm_ok_stamp split: sum.split)
  show "service_ok (handleGossipPeerRoleAssignment E a src p)"
    unfolding handleGossipPeerRoleAssignment_def Let_def case_prod_beta sync_fields
    using assms by (auto intro!: rm service_ok_queue(3) rm_ok_stamp split: sum.split option.split)
  show "service_ok (handleGossipAllPeerRoleAssignments E as src p)"
    unfolding handleGossipAllPeerRoleAssignments_def Let_def case_prod_beta sync_fields
    by (auto intro!: rm service_ok_queue(3) rm_ok_stamp split: sum.split)
  show "service_ok (handleGossipPlaylistReset E r src p)"
    using assms by (simp add: handleGossipPlaylistReset_def Let_def service_ok_def peer_ok_def)
  show "service_ok (handleGossipPeerLeft E l src p)"
    unfolding handleGossipPeerLeft_def Let_def case_prod_beta sync_fields
    using assms service_okD(3) [OF assms]
    by (auto intro!: rm service_ok_sm rm_ok_stamp sm_ok_ops split: option.split)
qed

lemma service_ok_control: "service_ok p \<Longrightarrow> service_ok (processControlTopicMessages E src cm p)"
proof -
  assume ok: "service_ok p"
  have "service_ok (control_payload E m src p)" for m
    using ok service_ok_gossip [OF ok]
    by (cases m)
      (auto simp: handleGossipQueueUpdate_def handleGossipPlaybackStateCmd_def handleGossipLocalPeerIdentity_def Let_def
        intro!: service_ok_ApplyUpdate service_ok_expelled service_ok_playback)
  then show ?thesis using ok by (simp add: processControlTopicMessages_def split: option.split)
qed

lemma service_ok_chat: "service_ok p \<Longrightarrow> service_ok (processChatTopicMessages E src cm p)"
  by (auto simp: processChatTopicMessages_def split: option.split server_msg.split)

lemma service_ok_traffic [simp]:
  "service_ok (AddBytesUp b p) = service_ok p" "service_ok (AddBytesDown b p) = service_ok p"
  "service_ok (p\<lparr>ring := r\<rparr>) = service_ok p" "service_ok (p\<lparr>trace := t\<rparr>) = service_ok p"
  by (simp_all add: service_ok_def peer_ok_def runs_ok_def AddBytesUp_def AddBytesDown_def queue_of_def)

lemma service_ok_segments:
  "service_ok p \<Longrightarrow> service_ok (processSegmentEvents w b p)"
  "service_ok p \<Longrightarrow> service_ok (processVideoSegmentMessages src seg n now p)"
  by (auto simp: processSegmentEvents_def processVideoSegmentMessages_def Let_def case_prod_beta split: option.split)

section \<open>Admission and the encoder\<close>

lemma service_ok_auth: "service_ok p \<Longrightarrow> service_ok (snd (handleAuthStream E j req p))"
proof -
  assume ok: "service_ok p"
  have s: "service_ok (snd (on_sessions (AddPeerToSession K sid i u rs) p))" for K sid i u rs
    using ok service_okD [OF ok]
    by (auto simp: service_ok_def peer_ok_def queue_of_def on_sessions_def case_prod_beta sm_ok_ops rm_ok_sessions)
  have t: "service_ok (snd (session_snapshot E x q)) = service_ok q" "service_ok (announce_member E i u q) = service_ok q" for x q i u
    by (simp_all add: service_ok_def peer_ok_def queue_of_def)
  show ?thesis
    unfolding handleAuthStream_def Let_def case_prod_beta
    using ok by (auto simp: t simp del: on_sessions_fields intro!: s split: option.split sum.split)
qed

lemma runner_tables [simp]:
  "rm_of (task_end E c s r p) = rm_of p" "sm_of (task_end E c s r p) = sm_of p"
  "rm_of (runner_enter E t p) = rm_of p" "sm_of (runner_enter E t p) = sm_of p"
  "rm_of (runner_leave E t r p) = rm_of p" "sm_of (runner_leave E t r p) = sm_of p"
  by (simp_all add: task_end_def runner_enter_def runner_leave_def NotifyEncoderFinished_def Let_def case_prod_beta)

lemma service_ok_encoder:
  "service_ok p \<Longrightarrow> service_ok (runner_enter E t p)" "service_ok p \<Longrightarrow> service_ok (runner_leave E t r p)"
  unfolding service_ok_def
  by (simp_all add: preserves)

lemma service_ok_stream:
  "service_ok p \<Longrightarrow> service_ok (stream_opened E cs p)" "service_ok p \<Longrightarrow> service_ok (stream_closed E p)"
  "service_ok (p\<lparr>hub_of := h\<rparr>) = service_ok p"
  by (simp_all add: stream_opened_def stream_closed_def service_ok_def peer_ok_def queue_of_def Let_def)

lemma service_ok_http:
  "service_ok p \<Longrightarrow> service_ok (snd (playlist_request p))" "service_ok p \<Longrightarrow> service_ok (broadcast_status E p)"
  "service_ok (p\<lparr>ring := r\<rparr>) = service_ok p"
  by (simp_all add: service_ok_def peer_ok_def queue_of_def playlist_request_def broadcast_status_def case_prod_beta split: option.split)

section \<open>Properties\<close>

lemma service_ok_step: "service_step p p' \<Longrightarrow> service_ok p \<Longrightarrow> service_ok p'"
  by (induction rule: service_step.induct)
    (auto intro: service_ok_client service_ok_stream service_ok_control service_ok_chat service_ok_segments service_ok_auth
      service_ok_encoder service_ok_http simp: service_ok_stream(3) service_ok_http(3))

lemma service_ok_init: "main_init E h rs nomdns c0 = Some p \<Longrightarrow> service_ok p"
proof -
  assume i: "main_init E h rs nomdns c0 = Some p"
  then obtain rb rm c where r: "NewRingBuffer 120 = Some rb" "initial_roles (codec_of E) h rs (NewRoleManager, c0) = Some (rm, c)"
    by (auto simp: main_init_def split: option.splits)
  have "rm_ok rm"
    using r(2) rm_ok_New
    by (auto simp: initial_roles_def split: sum.splits if_splits prod.splits intro: rm_ok_SetPeerRoles [OF rm_ok_New])
  then have "service_ok (wire h rm c rb nomdns)"
    by (simp add: service_ok_def peer_ok_def wire_def queue_of_def NewQueueController_def runs_ok_def NewNode_def)
  moreover have "service_ok (on_qc (ctrlTopicRef_update f) q) = service_ok q" for f q
    by (simp add: service_ok_def peer_ok_def queue_of_def)
  moreover have "service_ok (snd (JoinSessionTopics E s q)\<lparr>srv_ctrlTopic := a, srv_chatTopic := b\<rparr>)" if "service_ok q" for s q a b
    using that service_okD [OF that] by (auto intro!: service_ok_same [OF that] simp: queue_of_def Join_runs)
  ultimately show ?thesis
    using i r by (auto simp: main_init_def Let_def)
qed

interpretation service_runs: step_invariant service_step "\<lambda>p. \<exists>E h rs nomdns c0. main_init E h rs nomdns c0 = Some p" service_ok
  by unfold_locales (auto intro: service_ok_init service_ok_step)

text \<open>
  C1. The types of the service hold in every run. From the start of \<^verbatim>\<open>main\<close>, whatever clients, peers, encoders and the
  environment do and in whatever order, the queue's cursor is in range, every encoder goroutine has a context
  of its own and all but the newest have been cancelled, the role table is keyed by non-empty lower-case names
  and every stored assignment is non-empty and normalised, and every session is stored under its own identifier with
  consistent members and bans.
\<close>

theorem service_invariant:
  assumes "main_init E h rs nomdns c0 = Some p0" "service_step\<^sup>*\<^sup>* p0 p"
  shows "queue_ok (queue_of p) \<and> runs_ok (nd p) \<and> rm_ok (rm_of p) \<and> sm_ok (sm_of p)"
proof -
  have "service_ok p" using service_runs.inv_reachable [OF assms(2)] assms(1) by blast
  then show ?thesis by (simp add: service_ok_def peer_ok_def)
qed

section \<open>Bans last\<close>

text \<open>What one step can do to the sessions: nothing, or one operation of the session manager.\<close>

definition sm_next :: "session_manager \<Rightarrow> session_manager \<Rightarrow> bool" where
  "sm_next sm sm' \<longleftrightarrow> sm' = sm \<or> (\<exists>K cmd rm c. sm' = fst (session_exec K cmd (sm, rm, c)))"

lemma sm_next_same [simp]: "sm_next sm sm"
  by (simp add: sm_next_def)

lemma sm_next_ops [simp]:
  "sm_next sm (fst (snd (CreateSession K sid i u n (sm, rm, c))))" "sm_next sm (fst (snd (AddPeerToSession K sid i u rs (sm, rm, c))))"
  "sm_next sm (snd (RemovePeerFromSession sid i sm))" "sm_next sm (snd (BanPeer sid i b r t sm))"
  unfolding sm_next_def by (metis session_exec.simps fst_conv)+

lemma sm_next_banned: "sm_next sm sm' \<Longrightarrow> is_banned sm sid t \<Longrightarrow> is_banned sm' sid t"
  using banned_exec by (fastforce simp: sm_next_def)

lemma sm_next_client:
  assumes "client_step E N cs m p = Some p'" shows "sm_next (sm_of p) (sm_of p')"
proof -
  have s: "sm_of (sync_hlc h p) = sm_of p" for h by simp
  have k: "sm_next (sm_of q) (sm_of (handleKickPeerCmd E c i q))" "sm_next (sm_of q) (sm_of (handleBanPeerCmd E c i q))" for c i q
    by (cases rule: kick_cases [of E c i q]; simp) (cases rule: ban_cases [of E c i q]; simp)
  have c: "sm_next (sm_of q) (sm_of (handleCreateSession E N cs name user q))" for name user q
    by (auto simp: handleCreateSession_def session_created_def on_sessions_def case_prod_beta Let_def split: sum.split)
  have l: "sm_next (sm_of q) (sm_of (handleLeaveSession E sid q))" for sid q
    by (simp add: handleLeaveSession_def Let_def)
  have "sm_next (sm_of q) (sm_of (client_switch E N cs m q))" for q
    by (cases m) (simp_all add: k c l handleQueueCmd_def)
  from this [of "sync_hlc (client_hlc m) p"] show ?thesis
    using assms s by (simp add: client_step_def split: if_splits)
qed

lemma sm_next_control: "sm_next (sm_of p) (sm_of (processControlTopicMessages E src cm p))"
proof -
  have "sm_next (sm_of p) (sm_of (control_payload E m src p))" for m
    by (cases m)
      (auto simp: handleGossipQueueUpdate_def handleGossipRoleDefinitionsUpdate_def handleGossipPeerRoleAssignment_def
        handleGossipAllPeerRoleAssignments_def handleGossipPlaylistReset_def handleGossipPlaybackStateCmd_def handleGossipLocalPeerIdentity_def
        handleGossipPeerLeft_def expelled_def leave_expelled_def Let_def case_prod_beta split: option.split sum.split)
  then show ?thesis by (simp add: processControlTopicMessages_def split: option.split)
qed

lemma sm_next_step: "service_step p p' \<Longrightarrow> sm_next (sm_of p) (sm_of p')"
proof (induction rule: service_step.induct)
  case (client_message E N cs m p p') then show ?case by (rule sm_next_client)
next
  case (control_message p E src cm) then show ?case by (rule sm_next_control)
next
  case (auth_request p E remote request)
  then show ?case
    by (auto simp: handleAuthStream_def Let_def case_prod_beta split: option.split sum.split)
qed (simp_all add: stream_opened_def stream_closed_def processChatTopicMessages_def processSegmentEvents_def processVideoSegmentMessages_def
    playlist_request_def broadcast_status_def AddBytesUp_def AddBytesDown_def Let_def case_prod_beta split: option.split server_msg.split)

lemma banned_later: "service_step\<^sup>*\<^sup>* p p' \<Longrightarrow> is_banned (sm_of p) sid t \<Longrightarrow> is_banned (sm_of p') sid t"
  by (induction rule: rtranclp_induct) (auto intro: sm_next_banned sm_next_step)

text \<open>
  C6. Expulsion. When, in a state that is good in the sense of the invariant every run keeps, a kick or a ban takes a member out of a session, the sender holds the permission for it, the session is
  the current one of the service, and nobody else leaves any session. The administrator of the session is taken out by nobody but itself, and
  nobody takes itself out under its canonical identifier (another spelling of it gets past that check). The target has no permission left, and
  after a ban the service refuses every request of it to join, whatever the service has done since.
\<close>

theorem expulsion_is_authorised:
  assumes "codec_ok (codec_of E)" "service_ok p"
    "(perm, p') \<in> {(PermKickUser, handleKickPeerCmd E cmd sender p), (PermBanUser, handleBanPeerCmd E cmd sender p)}"
    "IsPeerInSession sid t (sm_of p)" "\<not> IsPeerInSession sid t (sm_of p')"
  shows "Has (GetPermissionsForPeer (rm_of p) sender) perm \<and> sid = GetCurrentSessionID p
    \<and> (\<forall>x j. IsPeerInSession x j (sm_of p') \<longleftrightarrow> IsPeerInSession x j (sm_of p) \<and> (x, j) \<noteq> (sid, t))
    \<and> (\<forall>s. GetSession sid (sm_of p) = Some s \<longrightarrow> AdminPeerID s = t \<longrightarrow> sender = t)
    \<and> (sender = t \<longrightarrow> tc_target cmd \<noteq> pid_string (codec_of E) t)
    \<and> GetPermissionsForPeer (rm_of p') t = 0
    \<and> (perm = PermBanUser \<longrightarrow> (\<forall>p'' E' u. service_step\<^sup>*\<^sup>* p' p'' \<longrightarrow>
        (\<exists>e. handleAuthStream E' t (Some \<lparr>ar_session_id = sid, ar_username = u\<rparr>) p'' = (Some (error_response e), p''))))"
proof -
  note x = expulsion_cases [OF assms(3-5)]
  then obtain s where s: "expel_guard E perm cmd sender t s p" by blast
  have ok: "service_ok p'" using assms(2,3) by (auto simp: service_ok_expel)
  have "\<exists>e. handleAuthStream E' t (Some \<lparr>ar_session_id = sid, ar_username = u\<rparr>) p'' = (Some (error_response e), p'')"
    if "perm = PermBanUser" "service_step\<^sup>*\<^sup>* p' p''" for p'' E' u
  proof -
    have "service_ok p''" using that(2) ok by (induction rule: rtranclp_induct) (auto intro: service_ok_step)
    moreover have b: "is_banned (sm_of p'') sid t" using banned_later [OF that(2)] x that(1) by blast
    then obtain s'' where "mget (sm_of p'') sid = Some s''" by (auto simp: is_banned_iff)
    ultimately have "GetSession sid (sm_of p'') = Some s'' \<and> sess_id s'' = sid"
      using service_okD(3) sm_okD by (fastforce simp: GetSession_def session_ok_def)
    with b show ?thesis by (intro handleAuthStream_refuses) (simp add: is_banned_def)
  qed
  with s x show ?thesis by (auto simp: expel_guard_def)
qed


text \<open>
  C9. A joiner's copy is the administrator's. When the administrator admits a peer and its answer arrives within the 4096 bytes the joiner reads, the
  joiner computes for every peer that has roles at the administrator the same permissions, and its queue holds the same items but for
  the first sequence numbers, which the joiner sets itself. The conditions are that both know the same role definitions, which the answer does not
  carry, and every assigned role is one of them; that what the joiner knew about those peers before is older; and that the administrator
  has the permission to change the queue.
\<close>

theorem join_replicates:
  assumes "codec_ok (codec_of E)" "service_ok a"
    "handleAuthStream E (ID p) (Some \<lparr>ar_session_id = sid, ar_username = from_opt u\<rparr>) a = (Some resp, a')"
    "jr_error resp = None" "jr_snapshot resp \<noteq> []"
    "find_admin N (ID p) sid = Some found" "ai_ID found = ID a" "reach_admin E N (ID p) (admin_addrs N found) = Some how"
    "talk N Authorize (ID a) \<lparr>ar_session_id = sid, ar_username = from_opt u\<rparr> =
       \<lparr>x_open = None, x_marshal = None, x_write = None, x_bytes = b, x_err = EOF\<rparr>"
    "resp_unmarshal N b = Inr resp" "b \<noteq> []" "length b \<le> 4096"
    "definitions (rm_of p) = definitions (rm_of a')"
    "\<forall>(q, st) \<in> set (assignments (rm_of a')). (\<forall>n \<in> set (role_names st). mhas (definitions (rm_of a')) n)
      \<and> (case mget (assignments (rm_of p)) q of None \<Rightarrow> True | Some st' \<Rightarrow> assign_ts st' <s assign_ts st)"
    "Has (GetPermissionsForPeer (rm_of a') (ID a)) PermQueue"
  shows "let p' = handleJoinSession E N cs sid u p in
    IsPeerInSession sid (ID p) (sm_of a')
    \<and> (\<forall>q. mhas (assignments (rm_of a')) q \<longrightarrow> GetPermissionsForPeer (rm_of p') q = GetPermissionsForPeer (rm_of a') q)
    \<and> map (\<lambda>x. x\<lparr>FirstSeq := 0\<rparr>) (Items (queue_of p')) = map (\<lambda>x. x\<lparr>FirstSeq := 0\<rparr>) (Items (queue_of a'))"
proof -
  let ?q = "maybeStartMdns p"
  have i: "ai_ID (admin_addrs N found) = ID a" using assms(7) by (simp add: admin_addrs_def)
  have "authorize E N sid (from_opt u) (ID a) = Inr resp"
    using assms(9-12) by (simp add: authorize_def read_buf_def)
  with assms(4,6,8) i have h: "handleJoinSession E N cs sid u p = snd (stream_send E cs (JoinSessionResponse resp)
      (processAdminJoinResponse E resp (ID a) ?q))"
    by (simp add: handleJoinSession_def Let_def from_opt_def)
  have r: "rm_of ?q = rm_of p" by simp
  have rm: "rm_ok (rm_of a')"
    using service_ok_auth [OF assms(2), of E "ID p" "Some \<lparr>ar_session_id = sid, ar_username = from_opt u\<rparr>"] assms(3)
    by (simp add: service_okD(2))
  have "\<forall>(q, st) \<in> set (assignments (rm_of a')). names_clean (role_names st)
      \<and> (\<forall>n \<in> set (role_names st). mhas (definitions (rm_of a')) n)
      \<and> (case mget (assignments (rm_of ?q)) q of None \<Rightarrow> True | Some st' \<Rightarrow> assign_ts st' <s assign_ts st)"
    and k: "keys_ok (assignments (rm_of a'))"
    using rm assms(14) unfolding r rm_ok_def keys_ok_def by (auto dest: map_of_is_SomeI)
  from snapshot_replicates [OF assms(1,3-5) _ k this(1) assms(15)] assms(13)
  have "let b' = processAdminJoinResponse E resp (ID a) ?q in
    (\<forall>q. mhas (assignments (rm_of a')) q \<longrightarrow> GetPermissionsForPeer (rm_of b') q = GetPermissionsForPeer (rm_of a') q)
    \<and> map (\<lambda>x. x\<lparr>FirstSeq := 0\<rparr>) (Items (queue_of b')) = map (\<lambda>x. x\<lparr>FirstSeq := 0\<rparr>) (Items (queue_of a'))"
    by simp
  moreover have "queue_of (snd (stream_send E cs m q)) = queue_of q" for m q by (simp add: stream_send_def queue_of_def)
  moreover have "IsPeerInSession sid (ID p) (sm_of a')" using handleAuthStream_admits [OF service_okD(3) [OF assms(2)] assms(3,4)] by simp
  ultimately show ?thesis by (simp add: h Let_def)
qed

lemma parse_loop_find:
  "parse_loop defs raws =
     (case List.find (\<lambda>raw. to_lower (trim_space raw) \<noteq> [] \<and> mget defs (to_lower (trim_space raw)) = None) raws of
        Some raw \<Rightarrow> Inl (RoleNotDefined raw)
      | None \<Rightarrow> Inr (List.map_filter (\<lambda>raw. if to_lower (trim_space raw) = [] then None else mget defs (to_lower (trim_space raw))) raws))"
  by (induction raws) (auto simp: Let_def List.map_filter_simps split: option.splits)

lemma default_definitions:
  "mget (definitions NewRoleManager) k = Some r \<longleftrightarrow> r \<in> set defaultRoleDefinitions \<and> k = to_lower (role_name r)"
proof -
  have "definitions NewRoleManager = map (\<lambda>r. (to_lower (role_name r), r)) defaultRoleDefinitions" by code_simp
  moreover have "distinct (map (\<lambda>r. to_lower (role_name r)) defaultRoleDefinitions)" by code_simp
  ultimately show ?thesis by (auto simp: map_of_eq_Some_iff comp_def)
qed

lemma default_names: "r \<in> set defaultRoleDefinitions \<Longrightarrow> to_lower (trim_space (role_name r)) = to_lower (role_name r) \<and> role_name r \<noteq> []"
proof -
  have "list_all (\<lambda>r. to_lower (trim_space (role_name r)) = to_lower (role_name r) \<and> role_name r \<noteq> []) defaultRoleDefinitions"
    by code_simp
  then show "r \<in> set defaultRoleDefinitions \<Longrightarrow> to_lower (trim_space (role_name r)) = to_lower (role_name r) \<and> role_name r \<noteq> []"
    by (auto simp: list_all_iff)
qed

lemma map_filter_mem: "x \<in> set (List.map_filter f xs) \<longleftrightarrow> (\<exists>y \<in> set xs. f y = Some x)"
  by (induction xs) (auto simp: List.map_filter_simps split: option.split)

definition granted :: "string \<Rightarrow> role set" where
  "granted rs = {r \<in> set defaultRoleDefinitions. \<exists>raw \<in> set (split_on (CHR '','') rs). to_lower (trim_space raw) = to_lower (role_name r)}"

lemma initial_roles_cases:
  "(case initial_roles K h rs (NewRoleManager, c0) of
      None \<Rightarrow> \<exists>raw \<in> set (split_on (CHR '','') rs). trim_space raw \<noteq> [] \<and>
        (\<forall>r \<in> set defaultRoleDefinitions. to_lower (role_name r) \<noteq> to_lower (trim_space raw))
    | Some (rm, c) \<Rightarrow> \<forall>q. Has (GetPermissionsForPeer rm h) q \<longleftrightarrow> (\<exists>r \<in> granted rs. Has (role_perms r) q))"
proof -
  let ?defs = "definitions NewRoleManager"
  let ?raws = "split_on (CHR '','') rs"
  let ?bad = "\<lambda>raw. to_lower (trim_space raw) \<noteq> [] \<and> mget ?defs (to_lower (trim_space raw)) = None"
  show ?thesis
  proof (cases "List.find ?bad ?raws")
    case (Some raw)
    then have raw: "raw \<in> set ?raws" "?bad raw" using find_mem [OF Some] by blast+
    have "to_lower (role_name r) \<noteq> to_lower (trim_space raw)" if "r \<in> set defaultRoleDefinitions" for r
      using that raw(2) default_definitions [of "to_lower (role_name r)" r] by auto
    with Some raw show ?thesis
      by (auto simp: initial_roles_def ParseRoleNames_def parse_loop_find)
  next
    case None
    define parsed where "parsed = List.map_filter
      (\<lambda>raw. if to_lower (trim_space raw) = [] then None else mget ?defs (to_lower (trim_space raw))) ?raws"
    have p: "ParseRoleNames rs NewRoleManager = Inr parsed"
      using None by (simp add: ParseRoleNames_def parse_loop_find parsed_def)
    have set: "set parsed = granted rs"
    proof (rule set_eqI)
      fix r
      show "r \<in> set parsed \<longleftrightarrow> r \<in> granted rs"
        using default_names [of r]
        by (auto simp: parsed_def map_filter_mem granted_def default_definitions split: if_splits)
          (metis to_lower_eq_Nil)
    qed
    have norm: "normalize_names ?defs (map role_name parsed) = Inr (map (\<lambda>r. to_lower (role_name r)) parsed)"
    proof -
      have r: "r \<in> set defaultRoleDefinitions" if "r \<in> set parsed" for r using that set by (simp add: granted_def)
      then have "\<forall>n \<in> set (map role_name parsed). mhas ?defs (to_lower (trim_space n))"
        using default_names default_definitions by fastforce
      moreover have "normalized (map role_name parsed) = map (\<lambda>r. to_lower (role_name r)) parsed"
        using r default_names by (induction parsed) (auto simp: normalized_def)
      ultimately show ?thesis by (simp add: normalize_names_Inr)
    qed
    have perms: "Has (GetPermissionsForPeer rm h) q \<longleftrightarrow> (\<exists>r \<in> granted rs. Has (role_perms r) q)"
      if "fst (GetAssignedRoles h rm) = map (\<lambda>r. to_lower (role_name r)) parsed" "definitions rm = ?defs" for rm q
      using that set by (auto simp: GetPermissionsForPeer_Has default_definitions granted_def)
        (metis (no_types, lifting) default_definitions option.inject)+
    show ?thesis
      using p norm
      by (auto simp: initial_roles_def SetPeerRoles_def Let_def case_prod_beta NewRoleManager_def [THEN arg_cong, of assignments]
          GetAssignedRoles_def intro!: perms split: option.split)
  qed
qed

text \<open>
  The start. \<^verbatim>\<open>main\<close> gives up exactly when the \<open>-roles\<close> flag names, between its commas, a role that is
  not one of the four default ones. Otherwise the peer starts as the host it was given, with the permissions
  of the roles named (blanks and case aside) and, when the topics can be joined, in the default session, whose
  control topic is the one the queue controller keeps.
\<close>

theorem main_init_starts:
  "case main_init E h rs nomdns c0 of
     None \<Rightarrow> (\<exists>raw \<in> set (split_on (CHR '','') rs). trim_space raw \<noteq> '''' \<and>
        (\<forall>r \<in> set defaultRoleDefinitions. to_lower (role_name r) \<noteq> to_lower (trim_space raw)))
   | Some p \<Rightarrow> ID p = h
      \<and> (\<forall>q. Has (GetPermissionsForPeer (rm_of p) h) q \<longleftrightarrow> (\<exists>r \<in> granted rs. Has (role_perms r) q))
      \<and> ((\<forall>x. join_ok E x) \<longrightarrow> in_session ''default'' p \<and> ctrlTopicRef (qc p) = Some (ctrl_name ''default''))"
proof -
  obtain rb where rb: "NewRingBuffer 120 = Some rb" by (simp add: NewRingBuffer_def)
  show ?thesis
  proof (cases "initial_roles (codec_of E) h rs (NewRoleManager, c0)")
    case None
    with initial_roles_cases [where K = "codec_of E" and h = h and rs = rs and ?c0.0 = c0] rb show ?thesis by (simp add: main_init_def)
  next
    case (Some s)
    obtain rm c where s: "s = (rm, c)" by (cases s)
    let ?w = "wire h rm c rb nomdns"
    let ?j = "snd (JoinSessionTopics E ''default'' ?w)"
    have perms: "\<forall>q. Has (GetPermissionsForPeer rm h) q \<longleftrightarrow> (\<exists>r \<in> granted rs. Has (role_perms r) q)"
      using initial_roles_cases [where K = "codec_of E" and h = h and rs = rs and ?c0.0 = c0] by (simp add: Some s)
    have n: "nd ?w = NewNode h" "rm_of ?w = rm" by (simp_all add: wire_def)
    have id: "host_ID (nd ?j) = h" using Join_runs [of ?w E "''default''"] n by (simp add: same_runs_def NewNode_def)
    have "topics_ok (?w\<lparr>nd := NewNode h\<rparr>)" by (rule topics_ok_New)
    then have "topics_ok ?w" using n(1) by (simp add: topics_ok_def GetCurrentSessionID_def)
    then have j: "(\<forall>x. join_ok E x) \<longrightarrow> in_session ''default'' ?j"
      using JoinSessionTopics_ok [of ?w "''default''" E] Join_succeeds [of E "''default''" ?w] by simp
    have m: "main_init E h rs nomdns c0 = Some (on_qc (ctrlTopicRef_update (\<lambda>_. ctrlTopic (nd ?j)))
        (?j\<lparr>srv_ctrlTopic := CtrlTopic ?j, srv_chatTopic := ChatTopic ?j\<rparr>))"
      using rb by (simp add: main_init_def Some s Let_def CtrlTopic_def)
    have "in_session sid (on_qc f q) = in_session sid q" for sid f q
      by (simp add: in_session_def GetCurrentSessionID_def)
    with m id perms j n show ?thesis
      by (auto simp: ID_def) (auto simp: in_session_def)
  qed
qed

section \<open>A queue that moves on without the others\<close>

lemma cancel_trace [simp]: "trace (cancel_runner p) = trace p"
  by (simp add: cancel_runner_def on_node_def split: option.split)

lemma Ensure_idle_trace:
  "trace (EnsureRunnerState E '''' 0 p) = trace p"
  by (simp add: EnsureRunnerState_def on_node_def Let_def case_prod_beta)

lemma React_idle_trace:
  assumes "\<not> (snd (Head (queue_of p)) \<and> StoredBy (fst (Head (queue_of p))) = ID p)"
  shows "trace (ReactToQueueUpdate E p) = trace p"
  using assms by (simp add: ReactToQueueUpdate_def case_prod_beta Let_def Ensure_idle_trace)

definition publishes_on :: "effect \<Rightarrow> string option" where
  "publishes_on e = (case e of Publish t m \<Rightarrow> Some t | PublishVideo t v \<Rightarrow> Some t | _ \<Rightarrow> None)"

lemma Stop_trace [simp]: "trace (StopCurrentEncoder p) = trace p"
  by (simp add: StopCurrentEncoder_def on_node_def)

lemma set_queue_trace [simp]: "trace (set_queue q p) = trace p" "ID (set_queue q p) = ID p"
  by (simp_all add: set_queue_def on_qc_def ID_def)

lemma Handle_NEXT_trace:
  assumes "qc_type cmd = NEXT" "sender = ID p"
    "\<not> (snd (Head (snd (AdvanceCursor (queue_of p)))) \<and> StoredBy (fst (Head (snd (AdvanceCursor (queue_of p))))) = ID p)"
  shows "\<exists>es. trace (snd (Handle E cmd sender (Some d) p)) = trace p @ es \<and> (\<forall>e \<in> set es. publishes_on e \<in> {None, Some d})"
proof -
  let ?q = "snd (AdvanceCursor (queue_of p))"
  let ?p1 = "set_queue ?q p"
  have idle: "trace (ReactToQueueUpdate E r) = trace r" if "queue_of r = ?q" "ID r = ID p" for r
    by (rule React_idle_trace) (use assms(3) that in simp)
  show ?thesis
  proof (cases "snd (fst (AdvanceCursor (queue_of p)))")
    case True
    let ?m = "fst (qc_Snapshot E ?p1)"
    let ?p3 = "publish (Some d) ?m (hub_broadcast E ?m (snd (qc_Snapshot E ?p1)))"
    have h: "snd (Handle E cmd sender (Some d) p) = ReactToQueueUpdate E ?p3"
      using assms(1,2) True by (simp add: Handle_def Let_def case_prod_beta)
    have "trace (snd (Handle E cmd sender (Some d) p)) = trace ?p3"
      unfolding h by (rule idle) (simp_all add: queue_of_def ID_def)
    moreover have "trace ?p3 = trace p @ map (\<lambda>s. Send s ?m) (fst (Broadcast (send_ok E) (hub_of (snd (qc_Snapshot E ?p1))))) @ [Publish d ?m]"
      by (simp add: publish_def hub_broadcast_def case_prod_beta qc_Snapshot_def now_hlc_def Let_def)
    ultimately show ?thesis by (auto simp: publishes_on_def)
  next
    case False
    then have "snd (Handle E cmd sender (Some d) p) = ReactToQueueUpdate E (StopCurrentEncoder ?p1)"
      using assms(1,2) by (simp add: Handle_def Let_def case_prod_beta)
    then have "trace (snd (Handle E cmd sender (Some d) p)) = trace p"
      by (simp add: idle ID_def)
    then show ?thesis by auto
  qed
qed

text \<open>
  The end of an item is announced on the wrong topic. When the encoder and the streamer's player have finished and
  the next item belongs to another peer, the queue moves on, but whatever session the peer is in, all it
  publishes about it goes to the topic the queue controller was given by \<^verbatim>\<open>main\<close>, the one of the default session.
  The peer that should stream next is not told.
\<close>

theorem advance_goes_to_first_topic:
  assumes "Head (queue_of p) = (x, True)" "FirstSeq x = s" "EncoderFinished (completion_for s p)" "ctrlTopicRef (qc p) = Some d"
    "\<not> (snd (Head (snd (AdvanceCursor (queue_of p)))) \<and> StoredBy (fst (Head (snd (AdvanceCursor (queue_of p))))) = ID p)"
  shows "let p' = NotifyPlayerStreamCompleted E s (StoredBy x) p in
      content (queue_of p') = content (snd (AdvanceCursor (queue_of p)))
      \<and> (\<exists>es. trace p' = trace p @ es \<and> (\<forall>e \<in> set es. publishes_on e \<in> {None, Some d}))"
proof -
  let ?p0 = "set_completion s (player_done (StoredBy x) (completion_for s p)) p"
  let ?p1 = "snd (now_hlc ?p0)"
  let ?cmd = "\<lparr>qc_type = NEXT, qc_file_path = '''', qc_index = 0, qc_hlc_ts = fst (now_hlc ?p0)\<rparr>"
  have n: "NotifyPlayerStreamCompleted E s (StoredBy x) p = del_completion s (snd (Handle E ?cmd (ID ?p1) (Some d) ?p1))"
    unfolding Notify_unfold using assms(1-4)
    by (simp add: checkAndAttemptQueueAdvance_def Let_def case_prod_beta)
  have t: "trace ?p1 = trace p" by (simp add: now_hlc_def case_prod_beta Let_def)
  have id: "ID ?p1 = ID p" by (simp add: ID_def)
  have "queue_of ?p1 = queue_of p" by simp
  with Handle_NEXT_trace [of ?cmd "ID ?p1" ?p1 E d] assms(5) id
  have "\<exists>es. trace (NotifyPlayerStreamCompleted E s (StoredBy x) p) = trace p @ es \<and> (\<forall>e \<in> set es. publishes_on e \<in> {None, Some d})"
    unfolding n by (simp add: t)
  then show ?thesis using Notify_completes(2) [OF assms(1,2), of E] assms(3,4) by (simp add: Let_def)
qed

section \<open>Witnesses\<close>

definition ex_start :: peer where
  "ex_start = (case main_init ex_env (PeerID ''a'') ''Admin'' False ex_hlc of Some p \<Rightarrow> p | None \<Rightarrow> ex_admin)"

lemma ex_start_init: "main_init ex_env (PeerID ''a'') ''Admin'' False ex_hlc = Some ex_start"
proof -
  have "list_all (\<lambda>raw. trim_space raw = '''' \<or> list_ex (\<lambda>r. to_lower (role_name r) = to_lower (trim_space raw)) defaultRoleDefinitions)
      (split_on (CHR '','') ''Admin'')"
    by code_simp
  then have "main_init ex_env (PeerID ''a'') ''Admin'' False ex_hlc \<noteq> None"
    using initial_roles_cases [where K = "codec_of ex_env" and h = "PeerID ''a''" and rs = "''Admin''" and ?c0.0 = ex_hlc]
    by (auto simp: main_init_def NewRingBuffer_def list_all_iff list_ex_iff Let_def split: option.splits)
  then show ?thesis by (auto simp: ex_start_def)
qed

theorem service_invariant_witness:
  "rm_ok (rm_of (processControlTopicMessages ex_env (PeerID ''b'') None (ReactToQueueUpdate ex_env ex_start)))"
proof -
  have "service_step\<^sup>*\<^sup>* ex_start (processControlTopicMessages ex_env (PeerID ''b'') None (ReactToQueueUpdate ex_env ex_start))"
    by (meson control_message initial_react r_into_rtranclp rtranclp.rtrancl_into_rtrancl)
  with service_invariant [OF ex_start_init] show ?thesis by blast
qed

theorem main_init_starts_witness:
  "ID ex_start = PeerID ''a'' \<and> in_session ''default'' ex_start"
  using main_init_starts [where E = ex_env and h = "PeerID ''a''" and rs = "''Admin''" and nomdns = False and ?c0.0 = ex_hlc] by (simp add: ex_start_init) (simp add: ex_env_def)

text \<open>Peer \<open>a\<close> in session \<open>s\<close>: its own item is over but for the player, the next one is stored by \<open>b\<close>.\<close>

definition ex_handover :: peer where
  "ex_handover = (ex_peer ''a'' ex_roles NewQueue 7)
     \<lparr>nd := (NewNode (PeerID ''a''))\<lparr>currentSessionID := ''s'', ctrlTopic := Some (ctrl_name ''s'')\<rparr>,
      qc := NewQueueController\<lparr>q_of := ex_queue 3, ctrlTopicRef := Some (ctrl_name ''default''),
        streamCompletionStates := [(3, encoder_done 1 no_completion)]\<rparr>\<rparr>"

theorem advance_goes_to_first_topic_witness:
  "\<exists>es. trace (NotifyPlayerStreamCompleted ex_env 3 (PeerID ''a'') ex_handover) = trace ex_handover @ es
     \<and> (\<forall>e \<in> set es. publishes_on e \<in> {None, Some (ctrl_name ''default'')})"
proof -
  have f: "Head (queue_of ex_handover) = (ex_item ''a'' 3, True)" "FirstSeq (ex_item ''a'' 3) = 3" "StoredBy (ex_item ''a'' 3) = PeerID ''a''"
    "EncoderFinished (completion_for 3 ex_handover)" "ctrlTopicRef (qc ex_handover) = Some (ctrl_name ''default'')"
    "\<not> (snd (Head (snd (AdvanceCursor (queue_of ex_handover)))) \<and> StoredBy (fst (Head (snd (AdvanceCursor (queue_of ex_handover))))) = ID ex_handover)"
    by (simp_all add: ex_handover_def ex_queue_def ex_item_def queue_of_def Head_def AdvanceCursor_def Len_def completion_for_def
        NewQueueController_def ID_def NewNode_def Let_def)
  from advance_goes_to_first_topic [OF f(1,2,4,5,6), of ex_env] show ?thesis unfolding f(3) by (simp add: Let_def)
qed

lemma ex_admin_rm_ok: "rm_ok (rm_of ex_admin)"
proof -
  have "rm_of ex_admin = ex_roles" by (simp add: ex_admin_def ex_peer_def)
  moreover have "names_clean [''admin'']" "names_clean [''viewer'']" unfolding names_clean_def by code_simp+
  ultimately show ?thesis
    using rm_ok_New unfolding ex_roles_def rm_ok_def by (simp add: keys_ok_def split: if_splits)
qed

lemma ex_admin_service_ok: "service_ok ex_admin"
proof -
  have "peer_ok ex_admin"
    by (simp add: peer_ok_def runs_ok_def queue_ok_def queue_of_def ex_admin_def ex_peer_def ex_queue_def NewQueueController_def NewNode_def)
  then show ?thesis using ex_admin_facts(1) ex_admin_rm_ok by (simp add: service_ok_def)
qed

theorem expulsion_is_authorised_witness:
  "\<exists>e. handleAuthStream ex_env (PeerID ''b'') (Some \<lparr>ar_session_id = ''s'', ar_username = ''bob''\<rparr>)
      (ReactToQueueUpdate ex_env (handleBanPeerCmd ex_env ex_ban (PeerID ''a'') ex_admin)) =
    (Some (error_response e), ReactToQueueUpdate ex_env (handleBanPeerCmd ex_env ex_ban (PeerID ''a'') ex_admin))"
proof -
  let ?p = "handleBanPeerCmd ex_env ex_ban (PeerID ''a'') ex_admin"
  have k: "codec_ok (codec_of ex_env)" by (simp add: ex_env_def)
  have "\<not> IsPeerInSession ''s'' (PeerID ''b'') (sm_of ?p)" by code_simp
  from expulsion_is_authorised [OF k ex_admin_service_ok _ ex_admin_facts(5) this, of PermBanUser ex_ban "PeerID ''a''"]
  show ?thesis using initial_react [of ?p ex_env] by blast
qed

text \<open>An exchange that hands the example's answer over in one byte.\<close>

definition small_net :: net_env where
  "small_net = ex_net\<lparr>talk := (\<lambda>_ _ _. \<lparr>x_open = None, x_marshal = None, x_write = None, x_bytes = [1], x_err = EOF\<rparr>),
     resp_unmarshal := (\<lambda>b. Inr (the (fst ex_answer)))\<rparr>"

theorem join_replicates_witness:
  "map (\<lambda>x. x\<lparr>FirstSeq := 0\<rparr>) (Items (queue_of (handleJoinSession ex_snap_env small_net 0 ''s'' (Some ''cy'') Admission.ex_joiner)))
     = map (\<lambda>x. x\<lparr>FirstSeq := 0\<rparr>) (Items (queue_of (snd ex_answer)))"
proof -
  have j: "ID Admission.ex_joiner = PeerID ''c''" "ID ex_admin = PeerID ''a''"
    by (simp_all add: Admission.ex_joiner_def ex_peer_def ID_def NewNode_def ex_admin_def)
  have a: "handleAuthStream ex_snap_env (ID Admission.ex_joiner) (Some \<lparr>ar_session_id = ''s'', ar_username = from_opt (Some ''cy'')\<rparr>) ex_admin
      = (Some (the (fst ex_answer)), snd ex_answer)"
    using ex_answer_facts(1) unfolding j ex_answer_def [symmetric] from_opt_def by (cases ex_answer) (auto simp: ex_answer_def)
  have n: "find_admin small_net (PeerID ''c'') ''s'' = Some \<lparr>ai_ID = PeerID ''a'', ai_Addrs = [''/tcp'']\<rparr>"
    "reach_admin ex_snap_env small_net i (admin_addrs small_net k) = Some (Direct 3)" for i k
    unfolding reach_admin_def direct_attempts_eq
    by (simp_all add: small_net_def find_admin_def dht_attempts.simps ex_net_def other_than_def)
  note f = ex_answer_facts
  show ?thesis
    using join_replicates [OF ex_snap_env_ok ex_admin_service_ok a f(2,3), of small_net, unfolded j, OF n(1) _ n(2), of "[1]"] f(4-7)
    by (auto simp: small_net_def Let_def case_prod_beta)
qed

end
