(* ===== verification/Subscriptions.thy ===== *)
theory Subscriptions
  imports Service
begin

text \<open>
  The three goroutines of \<^verbatim>\<open>main\<close> in \<^verbatim>\<open>peer_service/main.go\<close> that keep the peer subscribed to the topics of
  its node, one turn of their loops each. A turn sees the topic the node has at that moment; whether
  \<^verbatim>\<open>Subscribe\<close> succeeds is an argument. An open subscription has one goroutine that reads it; cancelling the
  subscription ends it.
\<close>

record subscription =
  sub_open :: "string option"
  currentTopicName :: string

definition no_subscription :: subscription where
  "no_subscription = \<lparr>sub_open = None, currentTopicName = ''''\<rparr>"

text \<open>Both kinds of loop share the change to a new topic.\<close>

definition resubscribe :: "string \<Rightarrow> bool \<Rightarrow> subscription \<Rightarrow> subscription" where
  "resubscribe t sub_ok s =
     (if sub_ok then \<lparr>sub_open = Some t, currentTopicName = t\<rparr> else s\<lparr>sub_open := None\<rparr>)"

definition poll_control :: "string option \<Rightarrow> bool \<Rightarrow> subscription \<Rightarrow> subscription" where
  "poll_control topic sub_ok s =
     (case topic of
        None \<Rightarrow> s
      | Some t \<Rightarrow> if sub_open s = None \<or> t \<noteq> currentTopicName s then resubscribe t sub_ok s else s)"

definition poll_chat :: "string option \<Rightarrow> bool \<Rightarrow> subscription \<Rightarrow> subscription" where
  "poll_chat topic sub_ok s =
     (case topic of
        Some t \<Rightarrow> if sub_open s = None \<or> t \<noteq> currentTopicName s then resubscribe t sub_ok s else s
      | None \<Rightarrow> if sub_open s \<noteq> None then no_subscription else s)"

definition poll_video :: "string option \<Rightarrow> bool \<Rightarrow> subscription \<Rightarrow> subscription" where
  "poll_video topic sub_ok s =
     (case topic of
        Some t \<Rightarrow> if sub_open s = None \<or> t \<noteq> currentTopicName s then resubscribe t sub_ok s else s
      | None \<Rightarrow> if sub_open s \<noteq> None then no_subscription else s)"

lemma poll_same: "poll_chat (Some t) = poll_control (Some t)" "poll_video (Some t) = poll_control (Some t)"
  by (simp_all add: fun_eq_iff poll_control_def poll_chat_def poll_video_def)

lemma poll_stays:
  assumes "sub_open s = Some t" "currentTopicName s = t"
  shows "fold (poll_control (Some t)) oks s = s"
  using assms by (induction oks) (simp_all add: poll_control_def)

lemma poll_until:
  assumes "sub_open s = None \<or> currentTopicName s \<noteq> t" "oks \<noteq> []"
  shows "sub_open (fold (poll_control (Some t)) oks s) = (if True \<in> set oks then Some t else None)"
  using assms
proof (induction oks arbitrary: s)
  case (Cons ok oks)
  let ?s = "poll_control (Some t) ok s"
  show ?case
  proof (cases ok)
    case True
    then have "sub_open ?s = Some t" "currentTopicName ?s = t"
      using Cons.prems(1) by (auto simp: poll_control_def resubscribe_def)
    then show ?thesis using True by (simp add: poll_stays)
  next
    case False
    then have "sub_open ?s = None" using Cons.prems(1) by (auto simp: poll_control_def resubscribe_def)
    then show ?thesis using False Cons.IH [of ?s] by (cases "oks = []") auto
  qed
qed simp

text \<open>
  C33. The subscriptions follow the node. When the node stays on a new topic, each of the three loops is subscribed
  to it from the first successful \<^verbatim>\<open>Subscribe\<close> on, and to nothing until then; without a topic the
  chat and the video loop give up their subscription, while the control loop keeps reading the old topic.
\<close>

theorem subscriptions_follow_topic:
  assumes "oks \<noteq> []" "currentTopicName s \<noteq> t"
  shows "sub_open (fold (poll_control (Some t)) oks s) = (if True \<in> set oks then Some t else None)
    \<and> sub_open (fold (poll_chat (Some t)) oks s) = (if True \<in> set oks then Some t else None)
    \<and> sub_open (fold (poll_video (Some t)) oks s) = (if True \<in> set oks then Some t else None)
    \<and> sub_open (poll_chat None ok s) = None \<and> sub_open (poll_video None ok s) = None
    \<and> poll_control None ok s = s"
  unfolding poll_same using poll_until [of s t oks] assms
  by (simp add: poll_control_def poll_chat_def poll_video_def no_subscription_def)

theorem subscriptions_follow_topic_witness:
  "sub_open (fold (poll_control (Some (ctrl_name ''s''))) [False, True, False] no_subscription) = Some (ctrl_name ''s'')"
  using subscriptions_follow_topic [of "[False, True, False]" no_subscription "ctrl_name ''s''" True]
  by (simp add: no_subscription_def ctrl_name_def)

end
