(* ===== verification/Encoder.thy ===== *)
theory Encoder
  imports Hls
begin

text \<open>
  The encoder: the ffmpeg command line (\<^verbatim>\<open>peer_service/internal/media/encoder.go\<close>) and the run of one
  \<^verbatim>\<open>EncoderRunner\<close> (\<^verbatim>\<open>encode_runner.go\<close>), in which several calls of \<^verbatim>\<open>Start\<close> can be active. The directory of
  temporary files, the time in nanoseconds, what ffmpeg does and which contexts are cancelled are
  arguments. ffmpeg-go only carries the arguments, so a stream is what the code hands to it.
\<close>

section \<open>The command line\<close>

record config =
  cfg_Input :: string
  RealTime :: bool
  SegmentSeconds :: int
  VideoPreset :: string
  cfg_Tune :: string
  AudioBitrate :: string
  GOPCeiling :: int
  HlsIngestURL :: string
  PlaylistPath :: string

definition DefaultConfig :: "string \<Rightarrow> string \<Rightarrow> string \<Rightarrow> config" where
  "DefaultConfig input hlsIngestURL playlistPath =
     \<lparr>cfg_Input = input, RealTime = False, SegmentSeconds = 2, VideoPreset = ''veryfast'', cfg_Tune = ''zerolatency'',
      AudioBitrate = ''128k'', GOPCeiling = 240, HlsIngestURL = hlsIngestURL, PlaylistPath = playlistPath\<rparr>"

text \<open>The directory is one without a trailing slash, which \<^verbatim>\<open>filepath.Join\<close> leaves as it is.\<close>

definition GenerateTempPlaylistPath :: "string \<Rightarrow> nat \<Rightarrow> u32 \<Rightarrow> string" where
  "GenerateTempPlaylistPath tempDir nanos seqBase =
     tempDir @ ''/p2ptogether-master-'' @ dec (unat seqBase) @ ''-'' @ dec nanos @ ''.m3u8''"

text \<open>\<^verbatim>\<open>fmt.Sprintf("%d", n)\<close> for a signed \<open>n\<close>.\<close>

definition dec_int :: "int \<Rightarrow> string" where
  "dec_int n = (if n < 0 then CHR ''-'' # dec (nat (- n)) else dec (nat n))"

record ffmpeg_stream =
  in_url :: string
  in_args :: "(string, string) gomap"
  out_url :: string
  out_args :: "(string, string) gomap"
  global_args :: "string list"

definition gop_of :: "config \<Rightarrow> int" where
  "gop_of cfg = (if GOPCeiling cfg \<le> 0 then 120 * SegmentSeconds cfg else GOPCeiling cfg)"

definition BuildHLSStreamForHTTPOutput :: "config \<Rightarrow> u32 \<Rightarrow> ffmpeg_stream" where
  "BuildHLSStreamForHTTPOutput cfg seqBase =
     (let forceExpr = ''expr:gte(t,n_forced*'' @ dec_int (SegmentSeconds cfg) @ '')'';
          gop = gop_of cfg
      in \<lparr>in_url = cfg_Input cfg, in_args = (if RealTime cfg then mput [] ''re'' '''' else []),
          out_url = PlaylistPath cfg,
          out_args =
            [(''f'', ''hls''), (''hls_time'', dec_int (SegmentSeconds cfg)), (''hls_list_size'', ''0''),
             (''hls_flags'', ''independent_segments+omit_endlist''), (''start_number'', dec (unat seqBase)),
             (''hls_segment_filename'', HlsIngestURL cfg @ ''/ingest/%06d.ts''), (''method'', ''PUT''),
             (''c:v'', ''libx264''), (''preset'', VideoPreset cfg), (''tune'', cfg_Tune cfg),
             (''force_key_frames'', forceExpr), (''g'', dec_int gop), (''keyint_min'', dec_int gop),
             (''sc_threshold'', ''0''), (''c:a'', ''aac''), (''b:a'', AudioBitrate cfg)],
          global_args = [''-hide_banner'']\<rparr>)"

text \<open>The stream one attempt of \<^verbatim>\<open>Start\<close> runs.\<close>

definition attempt_stream :: "u32 \<Rightarrow> string \<Rightarrow> nat \<Rightarrow> string \<Rightarrow> u32 \<Rightarrow> ffmpeg_stream" where
  "attempt_stream hlsPort tempDir nanos filePath seqBase =
     (let encCfg = DefaultConfig filePath (''http://127.0.0.1:'' @ dec (unat hlsPort)) ''''
      in BuildHLSStreamForHTTPOutput (encCfg\<lparr>PlaylistPath := GenerateTempPlaylistPath tempDir nanos seqBase\<rparr>) seqBase)"

section \<open>The runner\<close>

text \<open>
  A command is numbered by the attempt that made it; so is its monitor. \<open>ret\<close> is the value of \<^verbatim>\<open>Start\<close>, and \<open>pc\<close>
  the place of one call of it: before the next attempt, while its command runs, while it waits to
  retry, or returned.
\<close>

record encoder_runner =
  isRunning :: bool
  currentPath :: string
  currentSeqBase :: u32
  cmd :: "nat option"
  m3u8Monitor :: "nat option"
  attempts :: nat

datatype ret = Nil_AlreadyRunning | Nil_EndOfFile | Err_Context | Err_SupersededBefore | Err_SupersededDuring

datatype pc = AtTop | Running nat | Waiting | Returned ret

definition NewEncoderRunner :: encoder_runner where
  "NewEncoderRunner = \<lparr>isRunning = False, currentPath = '''', currentSeqBase = 0, cmd = None, m3u8Monitor = None, attempts = 0\<rparr>"

definition Start_enter :: "string \<Rightarrow> u32 \<Rightarrow> encoder_runner \<Rightarrow> pc \<times> encoder_runner" where
  "Start_enter filePath seqBase r =
     (if isRunning r \<and> currentPath r = filePath \<and> currentSeqBase r = seqBase then (Returned Nil_AlreadyRunning, r)
      else (AtTop, r\<lparr>currentPath := filePath, currentSeqBase := seqBase, isRunning := True\<rparr>))"

text \<open>A return after the entry runs the deferred clean-up.\<close>

definition leave :: "ret \<Rightarrow> encoder_runner \<Rightarrow> pc \<times> encoder_runner" where
  "leave v r = (Returned v, r\<lparr>isRunning := False, m3u8Monitor := None\<rparr>)"

text \<open>
  One attempt. A call that finds its context cancelled also kills the command the runner has at that moment; what
  becomes of a command is the choice of the environment in \<open>command_exited\<close>.
\<close>

definition attempt :: "string \<Rightarrow> u32 \<Rightarrow> bool \<Rightarrow> bool \<Rightarrow> bool \<Rightarrow> encoder_runner \<Rightarrow> pc \<times> encoder_runner" where
  "attempt filePath seqBase ctx_done compiled monitor_ok r =
     (if ctx_done then leave Err_Context r
      else if \<not> compiled then (Waiting, r)
      else if currentPath r \<noteq> filePath \<or> currentSeqBase r \<noteq> seqBase then leave Err_SupersededBefore r
      else (Running (attempts r),
            r\<lparr>cmd := Some (attempts r), m3u8Monitor := (if monitor_ok then Some (attempts r) else None),
              attempts := Suc (attempts r)\<rparr>))"

definition command_exited :: "nat \<Rightarrow> bool \<Rightarrow> bool \<Rightarrow> encoder_runner \<Rightarrow> pc \<times> encoder_runner" where
  "command_exited c ctx_done run_ok r =
     (if cmd r \<noteq> Some c then leave (if ctx_done then Err_Context else Err_SupersededDuring) r
      else if ctx_done then leave Err_Context r
      else if \<not> run_ok then (Waiting, r)
      else leave Nil_EndOfFile r)"

definition wait_over :: "bool \<Rightarrow> encoder_runner \<Rightarrow> pc \<times> encoder_runner" where
  "wait_over ctx_done r = (if ctx_done then leave Err_Context r else (AtTop, r))"

text \<open>One call of \<^verbatim>\<open>Start\<close> by itself: every turn says what the environment does next.\<close>

datatype turn = Turn bool bool bool bool

definition turn_step :: "string \<Rightarrow> u32 \<Rightarrow> turn \<Rightarrow> pc \<times> encoder_runner \<Rightarrow> pc \<times> encoder_runner" where
  "turn_step filePath seqBase t s =
     (case t of
        Turn ctx_done compiled monitor_ok run_ok \<Rightarrow>
          (case s of
             (AtTop, r) \<Rightarrow> attempt filePath seqBase ctx_done compiled monitor_ok r
           | (Running c, r) \<Rightarrow> command_exited c ctx_done run_ok r
           | (Waiting, r) \<Rightarrow> wait_over ctx_done r
           | (Returned v, r) \<Rightarrow> (Returned v, r)))"

section \<open>Queries\<close>

definition IsRunning :: "encoder_runner \<Rightarrow> bool" where "IsRunning r = isRunning r"
definition GetCurrentFile :: "encoder_runner \<Rightarrow> string" where "GetCurrentFile r = currentPath r"
definition GetCurrentSeqBase :: "encoder_runner \<Rightarrow> u32" where "GetCurrentSeqBase r = currentSeqBase r"

text \<open>The durations a caller sees: those of the monitor of the attempt, found in \<open>mons\<close>.\<close>

definition runner_GetActualSegmentDuration :: "(nat \<Rightarrow> monitor) \<Rightarrow> u32 \<Rightarrow> encoder_runner \<Rightarrow> float64 \<times> bool" where
  "runner_GetActualSegmentDuration mons seq r = GetActualSegmentDuration (map_option mons (m3u8Monitor r)) seq"

section \<open>Several calls over one runner\<close>

text \<open>
  A node has one runner and starts it in a new goroutine for every change of the playing item, so
  calls overlap. A call is its file, its sequence base and its place; a step begins a call or lets
  one go on.
\<close>

type_synonym call = "(string \<times> u32) \<times> pc"

inductive runner_step :: "encoder_runner \<times> call list \<Rightarrow> encoder_runner \<times> call list \<Rightarrow> bool" where
  begin_call: "Start_enter filePath seqBase r = (k, r') \<Longrightarrow>
    runner_step (r, calls) (r', calls @ [((filePath, seqBase), k)])"
| go_on: "i < length calls \<Longrightarrow> calls ! i = ((filePath, seqBase), k) \<Longrightarrow>
    turn_step filePath seqBase t (k, r) = (k', r') \<Longrightarrow>
    runner_step (r, calls) (r', calls[i := ((filePath, seqBase), k')])"

lemmas turn_defs = attempt_def command_exited_def wait_over_def leave_def

lemma turn_step_simps [simp]:
  "turn_step f s (Turn d co m ok) (AtTop, r) = attempt f s d co m r"
  "turn_step f s (Turn d co m ok) (Running c, r) = command_exited c d ok r"
  "turn_step f s (Turn d co m ok) (Waiting, r) = wait_over d r"
  "turn_step f s (Turn d co m ok) (Returned v, r) = (Returned v, r)"
  by (simp_all add: turn_step_def)

text \<open>What one turn does to the numbering of commands and monitors.\<close>

definition numbered :: "encoder_runner \<Rightarrow> bool" where
  "numbered r \<longleftrightarrow> (\<forall>c. cmd r = Some c \<longrightarrow> c < attempts r) \<and> (\<forall>c. m3u8Monitor r = Some c \<longrightarrow> cmd r = Some c)"

lemma turn_numbered:
  assumes "turn_step f s t (k, r) = (k', r')" "numbered r"
  shows "numbered r'" "attempts r \<le> attempts r'"
    and "k' = Running c \<Longrightarrow> (k = Running c \<and> False) \<or> (c = attempts r \<and> attempts r' = Suc c \<and> cmd r' = Some c)"
    and "k' = Returned Nil_EndOfFile \<Longrightarrow> k = Returned Nil_EndOfFile \<or> (\<exists>c. k = Running c \<and> cmd r = Some c)"
  using assms
  by (auto simp: turn_step_def turn_defs numbered_def split: turn.splits pc.splits if_splits)

lemma enter_numbered:
  assumes "Start_enter f s r = (k, r')" "numbered r"
  shows "numbered r'" "attempts r' = attempts r" "\<And>c. k \<noteq> Running c"
  using assms by (auto simp: Start_enter_def numbered_def split: if_splits)

definition commands_ok :: "encoder_runner \<times> call list \<Rightarrow> bool" where
  "commands_ok s = (case s of (r, calls) \<Rightarrow>
     numbered r
     \<and> (\<forall>i c. i < length calls \<longrightarrow> snd (calls ! i) = Running c \<longrightarrow> c < attempts r)
     \<and> (\<forall>i j c. i < length calls \<longrightarrow> j < length calls \<longrightarrow> snd (calls ! i) = Running c \<longrightarrow> snd (calls ! j) = Running c \<longrightarrow> i = j))"

lemma runner_step_ok:
  assumes "runner_step x y" "commands_ok x"
  shows "commands_ok y"
  using assms
proof (cases rule: runner_step.cases)
  case (begin_call f s r k r' calls)
  have n: "numbered r" using assms(2) begin_call by (simp add: commands_ok_def)
  note e = enter_numbered [OF begin_call(3) n]
  show ?thesis using assms(2) begin_call(1,2) e
    by (auto simp: commands_ok_def nth_append less_Suc_eq)
next
  case (go_on i calls f s k t r k' r')
  have n: "numbered r" using assms(2) go_on by (simp add: commands_ok_def)
  note t = turn_numbered [OF go_on(5) n]
  have old: "snd (calls ! j) = Running c \<Longrightarrow> j < length calls \<Longrightarrow> c < attempts r" for j c
    using assms(2) go_on by (simp add: commands_ok_def)
  have uniq: "j < length calls \<Longrightarrow> l < length calls \<Longrightarrow> snd (calls ! j) = Running c \<Longrightarrow> snd (calls ! l) = Running c \<Longrightarrow> j = l" for j l c
    using assms(2) go_on by (simp add: commands_ok_def)
  have new: "k' = Running c \<Longrightarrow> c = attempts r \<and> attempts r' = Suc c" for c using t(3) [of c] by blast
  have le: "attempts r \<le> attempts r'" by (rule t(2))
  show ?thesis
    unfolding commands_ok_def go_on(2) prod.case
  proof (intro conjI allI impI)
    show "numbered r'" by (rule t(1))
  next
    fix j c assume j: "j < length (calls[i := ((f, s), k')])" "snd (calls[i := ((f, s), k')] ! j) = Running c"
    show "c < attempts r'"
      using j new [of c] old [of j c] le by (cases "j = i") auto
  next
    fix j l c
    assume j: "j < length (calls[i := ((f, s), k')])" "l < length (calls[i := ((f, s), k')])"
      "snd (calls[i := ((f, s), k')] ! j) = Running c" "snd (calls[i := ((f, s), k')] ! l) = Running c"
    show "j = l"
      using j new [of c] old [of j c] old [of l c] uniq [of j l c]
      by (cases "j = i"; cases "l = i") auto
  qed
qed

interpretation runner_calls: step_invariant runner_step "\<lambda>s. s = (NewEncoderRunner, [])" commands_ok
proof unfold_locales
  show "s = (NewEncoderRunner, []) \<Longrightarrow> commands_ok s" for s by (simp add: commands_ok_def numbered_def NewEncoderRunner_def)
qed (rule runner_step_ok)
section \<open>One call by itself\<close>

definition never_done :: "turn \<Rightarrow> bool" where
  "never_done t = (case t of Turn ctx_done _ _ _ \<Rightarrow> \<not> ctx_done)"

definition good_turn :: turn where "good_turn = Turn False True True True"
definition cancelled_turn :: turn where "cancelled_turn = Turn True True True True"

definition alone :: "string \<Rightarrow> u32 \<Rightarrow> pc \<times> encoder_runner \<Rightarrow> bool" where
  "alone f s x = (case x of (k, r) \<Rightarrow>
     currentPath r = f \<and> currentSeqBase r = s
     \<and> (\<forall>c. k = Running c \<longrightarrow> cmd r = Some c)
     \<and> (\<forall>v. k = Returned v \<longrightarrow> v = Nil_EndOfFile \<and> \<not> isRunning r \<and> m3u8Monitor r = None))"

lemma turn_alone:
  assumes "alone f s x" "never_done t"
  shows "alone f s (turn_step f s t x)"
  using assms
  by (auto simp: alone_def never_done_def turn_step_def turn_defs split: turn.splits pc.splits prod.splits if_splits)

lemma turns_alone:
  "alone f s x \<Longrightarrow> list_all never_done ts \<Longrightarrow> alone f s (fold (turn_step f s) ts x)"
  by (induction ts arbitrary: x) (auto simp: turn_alone)

lemma enter_alone:
  assumes "\<not> (isRunning r \<and> currentPath r = f \<and> currentSeqBase r = s)"
  shows "alone f s (Start_enter f s r)"
  using assms by (auto simp: Start_enter_def alone_def)

lemma good_turns:
  assumes "alone f s x"
  shows "fst (fold (turn_step f s) (replicate 3 good_turn) x) = Returned Nil_EndOfFile"
proof -
  obtain k r where [simp]: "x = (k, r)" by fastforce
  show ?thesis using assms
    by (cases k) (auto simp: numeral_3_eq_3 alone_def turn_step_def turn_defs good_turn_def)
qed

lemma cancelled_turn_returns:
  assumes "alone f s x"
  shows "fst (turn_step f s cancelled_turn x) = (case fst x of Returned v \<Rightarrow> Returned v | _ \<Rightarrow> Returned Err_Context)"
  using assms
  by (auto simp: alone_def turn_step_def turn_defs cancelled_turn_def split: pc.splits prod.splits)

section \<open>The runner the node sees\<close>

text \<open>
  The model of a node keeps three fields of its runner and treats a run as one step that enters \<^verbatim>\<open>Start\<close> and one
  that leaves it (\<open>runner_enter\<close> and \<open>runner_leave\<close>). The detailed runner refines it: the entry is the one of the
  node's model, a turn that stays inside \<^verbatim>\<open>Start\<close> changes nothing of it, and one that returns clears the flag.
\<close>

definition abs_runner :: "encoder_runner \<Rightarrow> runner" where
  "abs_runner r = \<lparr>er_isRunning = isRunning r, er_currentPath = currentPath r, er_currentSeqBase = currentSeqBase r\<rparr>"

lemma Start_enter_refines:
  assumes "the_runner p = abs_runner r" "Start_enter (t_path t) (t_seq t) r = (k, r')"
  shows "(k = Returned Nil_AlreadyRunning \<and> r' = r \<and> runner_enter E t p = task_end E (t_ctx t) (t_seq t) RunOk p)
    \<or> (k = AtTop \<and> the_runner (runner_enter E t p) = abs_runner r')"
  using assms by (auto simp: Start_enter_def runner_enter_def abs_runner_def the_runner_def on_node_def split: if_splits)

lemma turn_refines:
  assumes "turn_step f s t (k, r) = (k', r')"
  shows "abs_runner r' = (if (\<exists>v. k' = Returned v) \<and> \<not> (\<exists>v. k = Returned v) then (abs_runner r)\<lparr>er_isRunning := False\<rparr> else abs_runner r)"
  using assms
  by (auto simp: turn_step_def turn_defs abs_runner_def split: turn.splits pc.splits if_splits)

lemma runner_leave_refines:
  assumes "the_runner p = abs_runner r" "turn_step (t_path t) (t_seq t) u (k, r) = (Returned v, r')" "\<And>w. k \<noteq> Returned w"
  shows "runner_leave E t x p = task_end E (t_ctx t) (t_seq t) x (on_node (\<lambda>n. n\<lparr>encoderRunner := Some (abs_runner r')\<rparr>) p)"
  using assms turn_refines [OF assms(2)] by (simp add: runner_leave_def)

section \<open>Properties of the runner\<close>

text \<open>
  C17. One call of \<^verbatim>\<open>Start\<close> with no other call on the same runner. If the runner already runs the same item the call returns
  nil at once and changes nothing. Otherwise, as long as its context is not cancelled, it returns nothing but nil for the end of the file,
  whatever compilation, monitor and ffmpeg do: no error of ffmpeg is ever returned, it is retried. From every place the call has come to, it
  returns nil after three turns in which ffmpeg succeeds, and the error of the context at the first turn after a cancellation; and
  once it has returned the runner is not running and has no monitor.
\<close>

theorem Start_returns:
  fixes f :: string and s :: u32 and r :: encoder_runner
  assumes "list_all never_done ts"
  defines "x \<equiv> fold (turn_step f s) ts (Start_enter f s r)"
  shows "if isRunning r \<and> currentPath r = f \<and> currentSeqBase r = s then x = (Returned Nil_AlreadyRunning, r)
    else (\<forall>v. fst x = Returned v \<longrightarrow> v = Nil_EndOfFile \<and> \<not> IsRunning (snd x) \<and> m3u8Monitor (snd x) = None)
      \<and> fst (fold (turn_step f s) (replicate 3 good_turn) x) = Returned Nil_EndOfFile
      \<and> fst (turn_step f s cancelled_turn x) = (case fst x of Returned v \<Rightarrow> Returned v | _ \<Rightarrow> Returned Err_Context)"
proof (cases "isRunning r \<and> currentPath r = f \<and> currentSeqBase r = s")
  case True
  have "turn_step f s t (Returned v, r) = (Returned v, r)" for t v by (cases t) simp
  then have "fold (turn_step f s) us (Returned v, r) = (Returned v, r)" for us v by (induction us) simp_all
  with True show ?thesis by (simp add: x_def Start_enter_def)
next
  case False
  have a: "alone f s x" unfolding x_def by (rule turns_alone [OF enter_alone [OF False] assms(1)])
  show ?thesis
    using False good_turns [OF a] cancelled_turn_returns [OF a] a by (auto simp: alone_def IsRunning_def split: prod.splits)
qed

theorem Start_returns_witness:
  "fst (turn_step ''a'' 5 cancelled_turn
     (fold (turn_step ''a'' 5) [Turn False False True True, Turn False True True True, Turn False True True True] (Start_enter ''a'' 5 NewEncoderRunner)))
   = Returned Err_Context"
  using Start_returns [of "[Turn False False True True, Turn False True True True, Turn False True True True]" NewEncoderRunner "''a''" 5]
  by (simp add: NewEncoderRunner_def never_done_def Start_enter_def turn_defs)

text \<open>
  C29. In every state that calls of \<^verbatim>\<open>Start\<close> reach from a new runner, in any interleaving and
  with any outcomes, a call that returns nil for the end of the file was the one whose command the
  runner has last installed, and no other call is running that command.
\<close>

theorem end_of_file_is_of_the_active_command:
  assumes "runner_step\<^sup>*\<^sup>* (NewEncoderRunner, []) (r, calls)"
    and "i < length calls" "calls ! i = ((f, s), k)" "\<And>v. k \<noteq> Returned v"
    and "turn_step f s t (k, r) = (Returned Nil_EndOfFile, r')"
  shows "\<exists>c. k = Running c \<and> cmd r = Some c \<and> c < attempts r
    \<and> (\<forall>j < length calls. snd (calls ! j) = Running c \<longrightarrow> j = i)"
proof -
  note ok = runner_calls.inv_reachable [OF assms(1) refl]
  then have n: "numbered r" by (simp add: commands_ok_def)
  obtain c where c: "k = Running c" "cmd r = Some c" using turn_numbered(4) [OF assms(5) n] assms(4) by blast
  then show ?thesis using ok n assms(2,3) by (auto simp: commands_ok_def numbered_def)
qed

text \<open>A run in which the second call of \<^verbatim>\<open>Start\<close> runs to the end of its file.\<close>

definition ex_runner :: encoder_runner where
  "ex_runner = \<lparr>isRunning = True, currentPath = ''b'', currentSeqBase = 7, cmd = Some 1, m3u8Monitor = Some 1, attempts = 2\<rparr>"

lemma ex_runner_reachable:
  "runner_step\<^sup>*\<^sup>* (NewEncoderRunner, []) (ex_runner, [((''a'', 5), Running 0), ((''b'', 7), Running 1)])"
proof -
  let ?r1 = "NewEncoderRunner\<lparr>currentPath := ''a'', currentSeqBase := 5, isRunning := True\<rparr>"
  let ?r2 = "?r1\<lparr>cmd := Some 0, m3u8Monitor := Some 0, attempts := 1\<rparr>"
  let ?r3 = "?r2\<lparr>currentPath := ''b'', currentSeqBase := 7\<rparr>"
  have "runner_step (NewEncoderRunner, []) (?r1, [] @ [((''a'', 5), AtTop)])"
    by (rule begin_call) (simp add: Start_enter_def NewEncoderRunner_def)
  moreover have "runner_step (?r1, [((''a'', 5), AtTop)]) (?r2, [((''a'', 5), AtTop)][0 := ((''a'', 5), Running 0)])"
    by (rule go_on [where t = good_turn], simp, simp)
      (simp add: good_turn_def turn_defs NewEncoderRunner_def)
  moreover have "runner_step (?r2, [((''a'', 5), Running 0)]) (?r3, [((''a'', 5), Running 0)] @ [((''b'', 7), AtTop)])"
    by (rule begin_call) (simp add: Start_enter_def NewEncoderRunner_def)
  moreover have "runner_step (?r3, [((''a'', 5), Running 0), ((''b'', 7), AtTop)])
      (ex_runner, [((''a'', 5), Running 0), ((''b'', 7), AtTop)][1 := ((''b'', 7), Running 1)])"
    by (rule go_on [where t = good_turn], simp, simp)
      (simp add: good_turn_def turn_defs NewEncoderRunner_def ex_runner_def)
  ultimately show ?thesis by (simp add: rtranclp.rtrancl_into_rtrancl)
qed

theorem end_of_file_is_of_the_active_command_witness:
  "\<exists>c. Running (1 :: nat) = Running c \<and> cmd ex_runner = Some c \<and> c < attempts ex_runner"
  using end_of_file_is_of_the_active_command [OF ex_runner_reachable, of 1 "''b''" 7 "Running 1" good_turn
      "ex_runner\<lparr>isRunning := False, m3u8Monitor := None\<rparr>"]
  by (simp add: turn_defs good_turn_def ex_runner_def)

text \<open>
  C39. The clean-up of an older \<^verbatim>\<open>Start\<close> hits the newer one. When an encoder is running and a
  \<^verbatim>\<open>Start\<close> for another item has entered and launched its own command, the end of the older command
  clears the running flag and stops the monitor of the newer: the newer goes on with its command still
  the active one, every segment of it finds no duration, and a further \<^verbatim>\<open>Start\<close> for the same item,
  which should be a no-op, enters again.
\<close>

theorem stale_cleanup:
  assumes "(f2, s2) \<noteq> (f1, s1)" "cmd r = Some c1" "c1 < attempts r" "currentPath r = f1" "currentSeqBase r = s1"
    and "Start_enter f2 s2 r = (k2, r2)" "turn_step f2 s2 good_turn (k2, r2) = (Running c2, r3)"
    and "turn_step f1 s1 t (Running c1, r3) = (k1, r4)"
  shows "cmd r4 = Some c2 \<and> \<not> IsRunning r4 \<and> GetCurrentFile r4 = f2
    \<and> (\<forall>mons seq. runner_GetActualSegmentDuration mons seq r3 = GetSegmentDuration seq (mons c2))
    \<and> (\<forall>mons seq. runner_GetActualSegmentDuration mons seq r4 = (0, False))
    \<and> fst (Start_enter f2 s2 r3) = Returned Nil_AlreadyRunning \<and> fst (Start_enter f2 s2 r4) = AtTop"
proof -
  let ?r2 = "r\<lparr>currentPath := f2, currentSeqBase := s2, isRunning := True\<rparr>"
  have 2: "k2 = AtTop" "r2 = ?r2" using assms(1,4-6) by (auto simp: Start_enter_def)
  have 3: "c2 = attempts r" "r3 = ?r2\<lparr>cmd := Some (attempts r), m3u8Monitor := Some (attempts r), attempts := Suc (attempts r)\<rparr>"
    using assms(7) by (auto simp: 2 good_turn_def turn_defs)
  obtain d co m ok where t: "t = Turn d co m ok" by (cases t) auto
  have 4: "r4 = r3\<lparr>isRunning := False, m3u8Monitor := None\<rparr>"
    using assms(3,8) by (auto simp: t 3 turn_defs split: if_splits)
  show ?thesis
    by (simp add: 4 3 Start_enter_def IsRunning_def GetCurrentFile_def runner_GetActualSegmentDuration_def GetActualSegmentDuration_def)
qed

theorem stale_cleanup_witness:
  "\<forall>mons seq. runner_GetActualSegmentDuration mons seq (ex_runner\<lparr>isRunning := False, m3u8Monitor := None\<rparr>) = (0, False)"
proof -
  let ?r = "NewEncoderRunner\<lparr>currentPath := ''a'', currentSeqBase := 5, isRunning := True, cmd := Some 0, m3u8Monitor := Some 0, attempts := 1\<rparr>"
  show ?thesis
    using stale_cleanup [of "''b''" 7 "''a''" 5 ?r 0 AtTop "?r\<lparr>currentPath := ''b'', currentSeqBase := 7\<rparr>" 1 ex_runner cancelled_turn]
    by (simp add: Start_enter_def turn_defs good_turn_def cancelled_turn_def NewEncoderRunner_def ex_runner_def)
qed
end
