(* ===== verification/Delivery.thy ===== *)
theory Delivery
  imports Hls Gossip Examples
begin

text \<open>
  The way of a segment through the system: put by ffmpeg at the streamer (\<^verbatim>\<open>ingest.go\<close>), announced
  by the window (\<^verbatim>\<open>ring_buffer.go\<close>), published by \<^verbatim>\<open>processSegmentEvents\<close>, stored by
  \<^verbatim>\<open>processVideoSegmentMessages\<close> of another peer (\<^verbatim>\<open>main.go\<close>) and served there to the player (\<^verbatim>\<open>hls.go\<close>).
\<close>

section \<open>Segments and events\<close>

lemma cap32_publish [simp]: "cap32 (rb\<lparr>publishEvents := b\<rparr>) = cap32 rb"
  by (simp add: cap32_def)

lemma lookup_events [simp]:
  "seg_lookup (rb\<lparr>events := es\<rparr>) k = seg_lookup rb k" "seg_lookup (rb\<lparr>publishEvents := b\<rparr>) k = seg_lookup rb k"
  by (simp_all add: seg_lookup_def idxFor_def slot_def Let_def)

lemma SetPublish_fields [simp]:
  "capacity (SetPublishEvents b rb) = capacity rb" "nextSeq (SetPublishEvents b rb) = nextSeq rb"
  "baseSeq (SetPublishEvents b rb) = baseSeq rb" "events (SetPublishEvents b rb) = events rb"
  "seg_lookup (SetPublishEvents b rb) = seg_lookup rb"
  by (simp_all add: SetPublishEvents_def fun_eq_iff)

lemma WriteAt_silent: "\<not> publishEvents rb \<Longrightarrow> events (WriteAt s d p a t rb) = events rb"
  by (simp add: WriteAt_def Let_def)

text \<open>A window accepts a segment that it would keep.\<close>

definition accepts :: "ring_buffer \<Rightarrow> u32 \<Rightarrow> bool" where
  "accepts rb n \<longleftrightarrow> rb_ok rb \<and> unat n < 2 ^ 32 - 1 \<and> baseSeq rb \<le> n \<and> unat (nextSeq rb) \<le> unat n + nat (capacity rb)"

lemma accepts_lookup:
  "accepts rb n \<Longrightarrow> data \<noteq> [] \<Longrightarrow> seg_lookup (WriteAt n data pts dur now rb) (unat n) = Some (mk_segment n data pts dur now)"
  unfolding accepts_def using written_lookup by blast

lemma accepts_event:
  assumes "accepts rb n" "publishEvents rb" "events rb = []"
  shows "events (WriteAt n data pts dur now rb) = [n]"
proof -
  have ok: "rb_ok rb" and n: "unat n < 2 ^ 32 - 1" using assms(1) by (simp_all add: accepts_def)
  let ?rb1 = "if n \<ge> nextSeq rb then rb\<lparr>nextSeq := n + 1\<rparr> else rb"
  have "hi ?rb1 = max (hi rb) (Suc (unat n))" using unat_Suc32 [OF n] by (auto simp: word_le_nat_alt)
  then have "lo (maybeAdvanceBaseLocked ?rb1) \<le> unat n"
    using maybeAdvance_lo [of ?rb1] rb_okD(1,2) [OF ok] assms(1) by (auto simp: accepts_def word_le_nat_alt max_def)
  then have "\<not> n < baseSeq (maybeAdvanceBaseLocked ?rb1)" by (simp add: word_less_nat_alt)
  then show ?thesis
    using rb_okD(1) [OF ok] assms(2,3) by (auto simp: WriteAt_def Let_def publish_event_def event_chan_cap_def)
qed

section \<open>Delivery\<close>

text \<open>The peer is to stream the current item.\<close>

definition streams :: "peer \<Rightarrow> bool" where
  "streams p \<longleftrightarrow> snd (Head (queue_of p)) \<and> StoredBy (fst (Head (queue_of p))) = ID p
     \<and> Has (GetPermissionsForPeer (rm_of p) (ID p)) PermStream"

lemma segment_published:
  assumes "streams p" "VideoTopic p = Some t" "events (ring p) = [n]" "seg_lookup (ring p) (unat n) = Some s"
  shows "trace (processSegmentEvents ws True p) =
    trace p @ [PublishVideo t \<lparr>vs_sequence = n, vs_data = Data s, vs_duration = ActualDuration s\<rparr>]"
proof -
  have l: "seg_lookup ((ring p)\<lparr>events := []\<rparr>) (unat n) = Some s" using assms(4) by simp
  have f: "queue_of (p\<lparr>ring := r\<rparr>) = queue_of p" "ID (p\<lparr>ring := r\<rparr>) = ID p" "VideoTopic (p\<lparr>ring := r\<rparr>) = VideoTopic p" for r
    by (simp_all add: queue_of_def ID_def VideoTopic_def)
  show ?thesis
    using assms(1-3) lookup_Get [OF l]
    by (simp add: processSegmentEvents_def receive_event_def streams_def Let_def case_prod_beta f AddBytesUp_def on_node_def)
qed

lemma segment_received:
  fixes sz :: u64 and now :: i64
  assumes "src \<noteq> ID q" "Has (GetPermissionsForPeer (rm_of q) (ID q)) PermView" "accepts (ring q) (vs_sequence v)" "vs_data v \<noteq> []"
  defines "q' \<equiv> processVideoSegmentMessages src (Some v) sz now q"
  shows "seg_lookup (ring q') (unat (vs_sequence v)) = Some (mk_segment (vs_sequence v) (vs_data v) 0 (vs_duration v) now)"
    "events (ring q') = events (ring q)"
proof -
  let ?rb = "WriteAt (vs_sequence v) (vs_data v) 0 (vs_duration v) now (SetPublishEvents False (ring q))"
  have r: "ring q' = SetPublishEvents True ?rb"
    using assms(1,2) by (simp add: q'_def processVideoSegmentMessages_def Let_def AddBytesDown_def on_node_def)
  have a: "accepts (SetPublishEvents False (ring q)) (vs_sequence v)"
    using assms(3) by (simp add: accepts_def rb_ok_SetPublish)
  show "seg_lookup (ring q') (unat (vs_sequence v)) = Some (mk_segment (vs_sequence v) (vs_data v) 0 (vs_duration v) now)"
    unfolding r using accepts_lookup [OF a assms(4)] by simp
  have "\<not> publishEvents (SetPublishEvents False (ring q))" by (simp add: SetPublishEvents_def)
  from WriteAt_silent [OF this] show "events (ring q') = events (ring q)" unfolding r by simp
qed

text \<open>
  C23. A segment travels. When ffmpeg puts a segment at the peer that streams the current item, the next turn of
  its segment processor publishes one message with the number, the bytes and the stored duration of the segment
  on its video topic; and every other peer that receives the message, may view and still has room for the
  number in its window serves exactly these bytes to its player, under the name its playlist uses, keeps the
  same duration, and does not announce the segment again.
\<close>

theorem segment_travels:
  fixes g :: "u32 \<Rightarrow> float64 \<times> bool" and now :: i64
  assumes "streams p" "VideoTopic p = Some t" "accepts (ring p) n" "publishEvents (ring p)" "events (ring p) = []" "data \<noteq> []"
  defines "put \<equiv> ingest_handler ''PUT'' (''/ingest/'' @ pad0 6 (dec (unat n)) @ ''.ts'') (Inr data) g now (ring p)"
  shows "\<exists>v. trace (processSegmentEvents ws True (p\<lparr>ring := snd put\<rparr>)) = trace p @ [PublishVideo t v]
    \<and> vs_sequence v = n \<and> vs_data v = data \<and> vs_duration v = ingest_duration g n
    \<and> (\<forall>q sz now'. ID q \<noteq> ID p \<longrightarrow> Has (GetPermissionsForPeer (rm_of q) (ID q)) PermView \<longrightarrow> accepts (ring q) n \<longrightarrow>
        (let q' = processVideoSegmentMessages (ID p) (Some v) sz now' q
         in root_handler (CHR ''/'' # segment_name n) (ring q') = Some \<lparr>status = 200, body = data\<rparr>
           \<and> rb_GetSegmentActualDuration n (ring q') = ingest_duration g n
           \<and> events (ring q') = events (ring q)))"
proof -
  let ?p = "p\<lparr>ring := snd put\<rparr>" and ?v = "\<lparr>vs_sequence = n, vs_data = data, vs_duration = ingest_duration g n\<rparr>"
  have r: "ring ?p = WriteAt n data 0 (ingest_duration g n) now (ring p)" unfolding put_def ingest_accepts by simp
  have s: "streams ?p" "VideoTopic ?p = Some t"
    using assms(1,2) by (simp_all add: streams_def queue_of_def ID_def VideoTopic_def)
  have e: "events (ring ?p) = [n]" unfolding r by (rule accepts_event [OF assms(3-5)])
  have l: "seg_lookup (ring ?p) (unat n) = Some (mk_segment n data 0 (ingest_duration g n) now)"
    unfolding r by (rule accepts_lookup [OF assms(3,6)])
  have "trace (processSegmentEvents ws True ?p) = trace p @ [PublishVideo t ?v]"
    using segment_published [OF s e l] by (simp add: mk_segment_def)
  moreover have "root_handler (CHR ''/'' # segment_name n) (ring q') = Some \<lparr>status = 200, body = data\<rparr>
        \<and> rb_GetSegmentActualDuration n (ring q') = ingest_duration g n \<and> events (ring q') = events (ring q)"
    if "ID q \<noteq> ID p" "Has (GetPermissionsForPeer (rm_of q) (ID q)) PermView" "accepts (ring q) n"
      "q' = processVideoSegmentMessages (ID p) (Some ?v) sz now' q" for q q' sz now'
  proof -
    have a: "accepts (ring q) (vs_sequence ?v)" "vs_data ?v \<noteq> []" using that(3) assms(6) by simp_all
    note rec = segment_received [OF that(1) [symmetric] that(2) a, of sz now', folded that(4)]
    have "seg_lookup (ring q') (unat n) = Some (mk_segment n data 0 (ingest_duration g n) now')" using rec(1) by simp
    from lookup_Get [OF this] rec(2) show ?thesis by (simp add: served mk_segment_def)
  qed
  ultimately show ?thesis by (intro exI [of _ ?v]) (simp add: Let_def)
qed

text \<open>A streamer with a video topic, and a viewer.\<close>

definition ex_live :: peer where
  "ex_live = (ex_peer ''a'' ex_roles \<lparr>items = [ex_item ''a'' 3], cursor = 0\<rparr> 7)\<lparr>nd := (NewNode (PeerID ''a''))\<lparr>videoTopic := Some ''video''\<rparr>\<rparr>"

definition ex_watcher :: peer where
  "ex_watcher = ex_peer ''b'' ex_roles NewQueue 0"

theorem segment_travels_witness:
  "\<exists>v. trace (processSegmentEvents (\<lambda>_. 1) True (ex_live\<lparr>ring := WriteAt 0 [71] 0 2 1 (ring ex_live)\<rparr>)) = [PublishVideo ''video'' v]
    \<and> root_handler ''/seg_0.ts'' (ring (processVideoSegmentMessages (PeerID ''a'') (Some v) 1 2 ex_watcher))
        = Some \<lparr>status = 200, body = [71]\<rparr>"
proof -
  have w: "rb_ok (ring ex_live)" "ring ex_watcher = ring ex_live"
    unfolding ex_live_def ex_watcher_def ex_peer_def
    by (auto intro!: rb_okI simp: zero_segment_def nth_Cons')
  have "streams ex_live" by code_simp
  moreover have "VideoTopic ex_live = Some ''video''" "publishEvents (ring ex_live)" "events (ring ex_live) = []"
    by (simp_all add: ex_live_def ex_peer_def VideoTopic_def)
  moreover have "accepts (ring ex_live) 0" using w(1) by (simp add: accepts_def ex_live_def ex_peer_def)
  ultimately have s: "streams ex_live" "VideoTopic ex_live = Some ''video''" "accepts (ring ex_live) 0" "publishEvents (ring ex_live)"
    "events (ring ex_live) = []" by blast+
  have q: "ID ex_watcher \<noteq> ID ex_live" "Has (GetPermissionsForPeer (rm_of ex_watcher) (ID ex_watcher)) PermView" "ID ex_live = PeerID ''a''"
    by code_simp+
  have n: "CHR ''/'' # segment_name 0 = ''/seg_0.ts''" by code_simp
  have r: "snd (ingest_handler ''PUT'' (''/ingest/'' @ pad0 6 (dec (unat (0 :: u32))) @ ''.ts'') (Inr [71]) (\<lambda>_. (0, False)) 1 (ring ex_live))
      = WriteAt 0 [71] 0 2 1 (ring ex_live)"
    unfolding ingest_accepts by (simp add: ingest_duration_def SegmentDuration_def)
  have t: "trace ex_live = []" by (simp add: ex_live_def ex_peer_def)
  have "accepts (ring ex_watcher) 0" using s(3) w(2) by simp
  then show ?thesis
    using segment_travels [OF s, of "[71]" "\<lambda>_. 1" "\<lambda>_. (0, False)" 1, unfolded r t n q(3)] q(1,2)
    unfolding q(3) Let_def by fastforce
qed

end
