(* ===== verification/Replication.thy ===== *)
theory Replication
  imports Service
begin

text \<open>
  What a command of a client at one peer does at the others: the command handlers of \<^verbatim>\<open>peer_service/main.go\<close> and
  \<^verbatim>\<open>queue_controller.go\<close> that publish on the control topic, composed with the handlers of received gossip.
\<close>

section \<open>What a step publishes\<close>

definition published :: "string \<Rightarrow> server_msg \<Rightarrow> peer \<Rightarrow> peer \<Rightarrow> bool" where
  "published t m p p' \<longleftrightarrow> (\<exists>es. trace p' = trace p @ es \<and> Publish t m \<in> set es)"

text \<open>The items of a queue up to the first sequence numbers the streamer fills in.\<close>

definition zeroed :: "queue_item list \<Rightarrow> queue_item list" where
  "zeroed xs = map (\<lambda>x. x\<lparr>FirstSeq := 0\<rparr>) xs"

lemma zeroed_content: "content q = content q' \<Longrightarrow> zeroed (Items q) = zeroed (Items q')"
  unfolding zeroed_def by (rule content_items)

text \<open>From \<open>p\<close> to \<open>p'\<close>, every queue update that is published carries the items \<open>xs\<close>, up to first sequence numbers.\<close>

definition announces :: "codec \<Rightarrow> queue_item list \<Rightarrow> peer \<Rightarrow> peer \<Rightarrow> bool" where
  "announces K xs p p' \<longleftrightarrow> (\<exists>es. trace p' = trace p @ es \<and>
     (\<forall>t u. Publish t (QueueUpdate u) \<in> set es \<longrightarrow> (\<exists>ys. qu_items u = map (pb_item K) ys \<and> zeroed ys = xs)))"

lemma announces_same: "trace p' = trace p \<Longrightarrow> announces K xs p p'"
  by (simp add: announces_def)

lemma announces_trans:
  assumes "announces K xs p q" "announces K xs q r"
  shows "announces K xs p r"
proof -
  obtain es where "trace q = trace p @ es"
    "\<forall>t u. Publish t (QueueUpdate u) \<in> set es \<longrightarrow> (\<exists>ys. qu_items u = map (pb_item K) ys \<and> zeroed ys = xs)"
    using assms(1) unfolding announces_def by blast
  moreover obtain fs where "trace r = trace q @ fs"
    "\<forall>t u. Publish t (QueueUpdate u) \<in> set fs \<longrightarrow> (\<exists>ys. qu_items u = map (pb_item K) ys \<and> zeroed ys = xs)"
    using assms(2) unfolding announces_def by blast
  ultimately show ?thesis unfolding announces_def by (intro exI [of _ "es @ fs"]) auto
qed

lemma announces_other:
  assumes "trace p' = trace p @ es" "\<forall>e \<in> set es. \<forall>t u. e \<noteq> Publish t (QueueUpdate u)"
  shows "announces K xs p p'"
  using assms unfolding announces_def by blast

lemma announces_hub: "announces K xs p (hub_broadcast E m p)"
  by (rule announces_other [of _ _ "map (\<lambda>s. Send s m) (fst (Broadcast (send_ok E) (hub_of p)))"])
    (auto simp: hub_broadcast_def case_prod_beta Let_def)

lemma now_hlc_trace [simp]: "trace (snd (now_hlc p)) = trace p"
  by (simp add: now_hlc_def case_prod_beta Let_def)

lemma Snapshot_trace [simp]: "trace (snd (qc_Snapshot E p)) = trace p"
  by (simp add: qc_Snapshot_def case_prod_beta Let_def)

lemma announces_snapshot:
  assumes "zeroed (Items (queue_of p)) = xs" "trace q = trace r"
  shows "announces (codec_of E) xs q (publish t (fst (qc_Snapshot E p)) r)"
  using assms by (auto simp: announces_def publish_def qc_Snapshot_def case_prod_beta Let_def split: option.split)

lemma announce_announces:
  "announces (codec_of E) (zeroed (Items (queue_of p))) p (announce_first_seq E s p)"
proof (cases "Head (queue_of p)")
  case (Pair x ok)
  let ?xs = "zeroed (Items (queue_of p))"
  let ?p1 = "set_queue (snd (SetItemAtCursor (x\<lparr>FirstSeq := s\<rparr>) (queue_of p))) p"
  let ?p3 = "hub_broadcast E (fst (qc_Snapshot E ?p1)) (snd (qc_Snapshot E ?p1))"
  show ?thesis
  proof (cases ok)
    case True
    have z: "zeroed (Items (queue_of ?p1)) = ?xs"
      using content_set_first [of "queue_of p" x s] Pair True by (intro zeroed_content) (simp add: set_queue_def on_qc_def queue_of_def)
    then have z3: "zeroed (Items (queue_of ?p3)) = ?xs" by (simp add: queue_of_def)
    have "announces (codec_of E) ?xs p (snd (qc_Snapshot E ?p1))" by (rule announces_same) simp
    with announces_hub have 3: "announces (codec_of E) ?xs p ?p3" by (rule announces_trans [rotated])
    show ?thesis
    proof (cases "ctrlTopic (nd ?p3)")
      case None
      then show ?thesis using 3 True by (simp add: announce_first_seq_def Pair Let_def case_prod_beta)
    next
      case (Some t)
      have "announces (codec_of E) ?xs ?p3 (publish (Some t) (fst (qc_Snapshot E ?p3)) (snd (qc_Snapshot E ?p3)))"
        by (rule announces_snapshot [OF z3]) simp
      from announces_trans [OF 3 this] show ?thesis
        using Some True by (simp add: announce_first_seq_def Pair Let_def case_prod_beta)
    qed
  qed (simp add: announce_first_seq_def Pair announces_same)
qed

lemma start_run_announces: "announces K xs p (start_run E f s p)"
proof -
  let ?q = "snd (now_hlc (p\<lparr>ring := Reset s (ring p), pendingDiscont := True\<rparr>))"
  let ?m = "PlaylistReset \<lparr>pr_sequence = s, pr_start_pts = 0, pr_origin_sec = of_nat (unat s) * SegmentDuration,
     pr_hlc_ts = fst (now_hlc (p\<lparr>ring := Reset s (ring p), pendingDiscont := True\<rparr>))\<rparr>"
  have 1: "announces K xs p (hub_broadcast E ?m ?q)"
    by (rule announces_trans [OF announces_same announces_hub]) simp
  have "announces K xs (hub_broadcast E ?m ?q) (publish t ?m (hub_broadcast E ?m ?q))" for t
    by (rule announces_other [of _ _ "case t of None \<Rightarrow> [] | Some t \<Rightarrow> [Publish t ?m]"]) (auto simp: publish_def split: option.split)
  from announces_trans [OF 1 this] show ?thesis
    by (auto simp: start_run_def Let_def case_prod_beta on_node_def announces_def)
qed

lemma with_runner_trace [simp]: "trace (with_runner p) = trace p" "trace (on_node f p) = trace p"
  by (simp_all add: with_runner_def on_node_def)

lemma React_announces: "announces (codec_of E) (zeroed (Items (queue_of p))) p (ReactToQueueUpdate E p)"
proof -
  let ?xs = "zeroed (Items (queue_of p))"
  have "announces (codec_of E) ?xs p (EnsureRunnerState E f s p)" for f s
  proof -
    let ?q = "announce_first_seq E s (with_runner p)"
    have "announces (codec_of E) ?xs p (with_runner p)" by (rule announces_same) simp
    moreover have "announces (codec_of E) ?xs (with_runner p) ?q" using announce_announces [of E "with_runner p" s] by simp
    ultimately have "announces (codec_of E) ?xs p ?q" by (rule announces_trans)
    moreover have "announces (codec_of E) ?xs ?q (cancel_runner ?q)" by (rule announces_same) simp
    ultimately have "announces (codec_of E) ?xs p (start_run E f s (cancel_runner ?q))"
      by (blast intro: announces_trans start_run_announces)
    then show ?thesis by (auto simp: EnsureRunnerState_unfold intro: announces_same)
  qed
  then show ?thesis by (simp add: React_unfold)
qed

section \<open>Commands on the queue\<close>

lemma carry_trace [simp]: "trace (stop_and_carry_seq p) = trace p"
  by (simp add: stop_and_carry_seq_def UpdateGlobalMediaSequence_def on_qc_def Let_def case_prod_beta)

lemma switch_trace: "queue_switch E cmd s ty p = Inr (b, p') \<Longrightarrow> trace p' = trace p"
  by (cases ty) (auto simp: Let_def case_prod_beta split: if_splits)

lemma switch_items:
  "queue_switch E cmd s ty p = Inr (b, p') \<Longrightarrow> zeroed (Items (queue_of p')) \<noteq> zeroed (Items (queue_of p)) \<Longrightarrow> b"
  by (cases ty) (auto simp: Let_def case_prod_beta zeroed_def Items_def AdvanceCursor_def RewindCursor_def Remove_def
      split: if_splits)

text \<open>The end of \<open>Handle\<close>: publication of the changed queue, and the reaction to it.\<close>

lemma Handle_shape:
  assumes "p' = snd (Handle E cmd sender topic p)"
  shows "p' = p \<or> (\<exists>b p1. queue_switch E cmd sender (qc_type cmd) p = Inr (b, p1)
    \<and> p' = ReactToQueueUpdate E (if b then publish topic (fst (qc_Snapshot E p1)) (hub_broadcast E (fst (qc_Snapshot E p1)) (snd (qc_Snapshot E p1))) else p1))"
  using assms by (auto simp: Handle_def Let_def case_prod_beta split: sum.splits)

lemma Handle_announces:
  assumes "p' = snd (Handle E cmd sender topic p)"
  shows "announces (codec_of E) (zeroed (Items (queue_of p'))) p p'"
    and "zeroed (Items (queue_of p')) \<noteq> zeroed (Items (queue_of p)) \<Longrightarrow> topic = Some t \<Longrightarrow> \<exists>u. published t (QueueUpdate u) p p'"
proof -
  let ?ann = "announces (codec_of E) (zeroed (Items (queue_of p'))) p p'"
  have "?ann \<and> (zeroed (Items (queue_of p')) \<noteq> zeroed (Items (queue_of p)) \<longrightarrow> topic = Some t \<longrightarrow> (\<exists>u. published t (QueueUpdate u) p p'))"
    using Handle_shape [OF assms]
  proof (elim disjE exE conjE)
    assume "p' = p"
    then show ?thesis by (simp add: announces_same)
  next
    fix b p1
    let ?snap = "qc_Snapshot E p1"
    let ?p2 = "if b then publish topic (fst ?snap) (hub_broadcast E (fst ?snap) (snd ?snap)) else p1"
    let ?xs = "zeroed (Items (queue_of p1))"
    assume sw: "queue_switch E cmd sender (qc_type cmd) p = Inr (b, p1)" and p': "p' = ReactToQueueUpdate E ?p2"
    have q2: "queue_of ?p2 = queue_of p1" by (simp add: queue_of_def)
    have xs: "zeroed (Items (queue_of p')) = ?xs"
      unfolding p' using content_React [of E ?p2] q2 by (intro zeroed_content) simp
    have 1: "announces (codec_of E) ?xs p p1" by (rule announces_same [OF switch_trace [OF sw]])
    have h: "announces (codec_of E) ?xs p (hub_broadcast E (fst ?snap) (snd ?snap))"
      by (rule announces_trans [OF announces_trans [OF 1 announces_same] announces_hub]) simp
    have pub: "announces (codec_of E) ?xs (hub_broadcast E (fst ?snap) (snd ?snap))
        (publish topic (fst ?snap) (hub_broadcast E (fst ?snap) (snd ?snap)))"
      by (rule announces_snapshot) simp_all
    have 2: "announces (codec_of E) ?xs p ?p2" using 1 announces_trans [OF h pub] by simp
    have react: "announces (codec_of E) ?xs ?p2 p'" unfolding p' using React_announces [of E ?p2] by (simp only: q2)
    have "?ann" unfolding xs by (rule announces_trans [OF 2 react])
    moreover have "\<exists>u. published t (QueueUpdate u) p p'" if "zeroed (Items (queue_of p')) \<noteq> zeroed (Items (queue_of p))" "topic = Some t"
    proof -
      have b using switch_items [OF sw] that(1) xs by simp
      obtain hs where hs: "trace (hub_broadcast E (fst ?snap) (snd ?snap)) = trace p @ hs"
        using h unfolding announces_def by blast
      have "trace ?p2 = trace p @ hs @ [Publish t (fst ?snap)]" using \<open>b\<close> that(2) hs by (simp add: publish_def)
      moreover obtain fs where "trace p' = trace ?p2 @ fs" using react unfolding announces_def by blast
      moreover obtain u where "fst ?snap = QueueUpdate u" by (simp add: qc_Snapshot_def Let_def case_prod_beta)
      ultimately show ?thesis unfolding published_def
        by (intro exI [of _ u] exI [of _ "hs @ [Publish t (fst ?snap)] @ fs"]) simp
    qed
    ultimately show ?thesis by blast
  qed
  then show ?ann "zeroed (Items (queue_of p')) \<noteq> zeroed (Items (queue_of p)) \<Longrightarrow> topic = Some t \<Longrightarrow> \<exists>u. published t (QueueUpdate u) p p'"
    by blast+
qed

lemma received_queue:
  assumes "codec_ok (codec_of E)" "ID q \<noteq> src" "Has (GetPermissionsForPeer (rm_of q) src) PermQueue"
    "qu_items u = map (pb_item (codec_of E)) ys"
  shows "zeroed (Items (queue_of (processControlTopicMessages E src (Some (QueueUpdate u)) q))) = zeroed ys"
proof -
  have u: "u = \<lparr>qu_items = map (pb_item (codec_of E)) ys, qu_hlc_ts = qu_hlc_ts u\<rparr>" using assms(4) by simp
  have "processControlTopicMessages E src (Some (QueueUpdate u)) q = snd (ApplyUpdate E u src (sync_hlc (qu_hlc_ts u) q))"
    using assms(2) by (auto simp: processControlTopicMessages_def handleGossipQueueUpdate_def)
  then show ?thesis
    using ApplyUpdate_items [OF assms(1), of "sync_hlc (qu_hlc_ts u) q" src ys "qu_hlc_ts u"] assms(3) u
    by (simp add: zeroed_def)
qed

text \<open>
  C18. A queue command reaches the others. When a command of the client changes the items of the queue, the queue
  is published on the control topic of the session; and whichever update the command publishes, also when it
  starts an encoder, every peer that receives it and grants the sender \<open>PermQueue\<close> holds the items the
  sender holds afterwards, in the same order, up to the first sequence numbers that the streamer fills in.
\<close>

theorem queue_command_replicates:
  assumes "codec_ok (codec_of E)" "client_step E N cs (QueueCmd c) p = Some p'"
  shows "(zeroed (Items (queue_of p')) \<noteq> zeroed (Items (queue_of p)) \<longrightarrow> CtrlTopic p = Some t \<longrightarrow> (\<exists>u. published t (QueueUpdate u) p p'))
    \<and> (\<forall>s u q. published s (QueueUpdate u) p p' \<longrightarrow> ID q \<noteq> ID p \<longrightarrow> Has (GetPermissionsForPeer (rm_of q) (ID p)) PermQueue \<longrightarrow>
        zeroed (Items (queue_of (processControlTopicMessages E (ID p) (Some (QueueUpdate u)) q))) = zeroed (Items (queue_of p')))"
proof -
  let ?p = "sync_hlc (qc_hlc_ts c) p"
  have s: "trace ?p = trace p" "queue_of ?p = queue_of p" "CtrlTopic ?p = CtrlTopic p" "ID ?p = ID p"
    by (simp_all add: sync_hlc_def update_hlc_def queue_of_def CtrlTopic_def ID_def)
  have p': "p' = handleQueueCmd E c ?p" using assms(2) by (simp add: client_step_def describe_panics_def)
  have "announces (codec_of E) (zeroed (Items (queue_of p'))) ?p p'
    \<and> (zeroed (Items (queue_of p')) \<noteq> zeroed (Items (queue_of p)) \<longrightarrow> CtrlTopic p = Some t \<longrightarrow> (\<exists>u. published t (QueueUpdate u) ?p p'))"
  proof (cases "GetCurrentSessionID ?p = ''''")
    case True
    then show ?thesis by (simp add: p' handleQueueCmd_def announces_same s)
  next
    case False
    then have h: "p' = snd (Handle E c (ID ?p) (CtrlTopic ?p) ?p)" by (simp add: p' handleQueueCmd_def)
    show ?thesis using Handle_announces [OF h] s by simp
  qed
  then have ann: "announces (codec_of E) (zeroed (Items (queue_of p'))) p p'"
    and pub: "zeroed (Items (queue_of p')) \<noteq> zeroed (Items (queue_of p)) \<longrightarrow> CtrlTopic p = Some t \<longrightarrow> (\<exists>u. published t (QueueUpdate u) p p')"
    by (simp_all add: announces_def published_def s)
  have "zeroed (Items (queue_of (processControlTopicMessages E (ID p) (Some (QueueUpdate u)) q))) = zeroed (Items (queue_of p'))"
    if "published s (QueueUpdate u) p p'" "ID q \<noteq> ID p" "Has (GetPermissionsForPeer (rm_of q) (ID p)) PermQueue" for s u q
  proof -
    obtain es where es: "trace p' = trace p @ es" "\<forall>t u. Publish t (QueueUpdate u) \<in> set es \<longrightarrow>
        (\<exists>ys. qu_items u = map (pb_item (codec_of E)) ys \<and> zeroed ys = zeroed (Items (queue_of p')))"
      using ann unfolding announces_def by blast
    have "Publish s (QueueUpdate u) \<in> set es" using that(1) es(1) unfolding published_def by auto
    with es(2) obtain ys where "qu_items u = map (pb_item (codec_of E)) ys" "zeroed ys = zeroed (Items (queue_of p'))" by blast
    with received_queue [OF assms(1) that(2,3)] show ?thesis by metis
  qed
  with pub show ?thesis by blast
qed

section \<open>Commands on roles\<close>

lemma tell_all_trace:
  "\<exists>hs. trace (tell_all E m p) = trace p @ map (\<lambda>s. Send s m) hs @ (case CtrlTopic p of None \<Rightarrow> [] | Some t \<Rightarrow> [Publish t m])"
  by (auto simp: tell_all_def publishToControlTopic_def CtrlTopic_def hub_broadcast_def publish_def case_prod_beta Let_def split: option.split)

lemma tell_all_published:
  "published s m' p (tell_all E m p) \<longleftrightarrow> CtrlTopic p = Some s \<and> m' = m"
  using tell_all_trace [of E m p] by (auto simp: published_def split: option.splits)

lemma normalize_normalized:
  assumes "\<forall>n \<in> set ns. mhas defs (to_lower (trim_space n))" "mget defs [] = None"
  shows "normalize_names defs (normalized ns) = Inr (normalized ns)"
proof -
  have "\<forall>n \<in> set (normalized ns). mhas defs (to_lower (trim_space n))"
    using assms(1) normalized_clean set_normalized [OF assms] by force
  then show ?thesis by (simp add: normalize_names_Inr)
qed

lemma received_roles:
  assumes "ID q \<noteq> src" "pid_decode (codec_of E) (pra_peer_id a) = Some tgt" "normalize_names (definitions (rm_of q)) (pra_role_names a) = Inr (pra_role_names a)"
    "case mget (assignments (rm_of q)) tgt of None \<Rightarrow> True | Some st \<Rightarrow> assign_ts st <s pra_hlc_ts a"
  shows "rm_of (processControlTopicMessages E src (Some (PeerRoleAssignment a)) q) = (rm_of q)\<lparr>assignments :=
      if pra_role_names a = [] then mdel (assignments (rm_of q)) tgt
      else mput (assignments (rm_of q)) tgt \<lparr>role_names = pra_role_names a, assign_ts = pra_hlc_ts a\<rparr>\<rparr>"
  using assms
  by (simp add: processControlTopicMessages_def handleGossipPeerRoleAssignment_def ApplyPeerAssignment_def Let_def)

text \<open>A role command changes nothing, or the assignment of one peer, and then tells everybody.\<close>

lemma set_roles_outcome:
  assumes "p' = handleSetPeerRolesCmd E target names sender p"
  shows "p' = p \<or> (\<exists>tgt ts t'. (\<forall>n \<in> set names. mhas (definitions (rm_of p)) (to_lower (trim_space n)))
      \<and> rm_of p' = (rm_of p)\<lparr>assignments := if normalized names = [] then mdel (assignments (rm_of p)) tgt
          else mput (assignments (rm_of p)) tgt \<lparr>role_names = normalized names, assign_ts = ts\<rparr>\<rparr>
      \<and> (\<forall>s m. published s m p p' \<longleftrightarrow> CtrlTopic p = Some s \<and> m = PeerRoleAssignment
          \<lparr>pra_peer_id = pid_string (codec_of E) tgt, pra_role_names = normalized names, pra_hlc_ts = t'\<rparr>))"
proof (cases "Has (GetPermissionsForPeer (rm_of p) sender) PermManageUserRoles")
  case True
  let ?K = "codec_of E"
  define tgt where "tgt = (if target \<noteq> pid_string ?K sender \<and> target \<noteq> ''defaultPeerId'' \<and> target \<noteq> ''''
    then (case pid_decode ?K target of None \<Rightarrow> sender | Some t \<Rightarrow> t) else sender)"
  obtain res rm' c' where sp: "SetPeerRoles ?K tgt names (rm_of p, clk p) = (res, rm', c')"
    by (cases "SetPeerRoles ?K tgt names (rm_of p, clk p)")
  let ?p1 = "p\<lparr>rm_of := rm', clk := c'\<rparr>"
  have c: "p' = (case res of Inl e \<Rightarrow> ?p1 | Inr None \<Rightarrow> ?p1 | Inr (Some a) \<Rightarrow>
      tell_all E (PeerRoleAssignment (a\<lparr>pra_hlc_ts := fst (now_hlc ?p1)\<rparr>)) (snd (now_hlc ?p1)))"
    unfolding assms handleSetPeerRolesCmd_def Let_def tgt_def [symmetric] using True
    by (simp add: on_roles_def sp case_prod_beta split: sum.split option.split)
  from sp show ?thesis
  proof (cases rule: SetPeerRoles_cases)
    case (changed ts)
    let ?q = "snd (now_hlc ?p1)"
    let ?m = "PeerRoleAssignment \<lparr>pra_peer_id = pid_string ?K tgt, pra_role_names = normalized names, pra_hlc_ts = fst (now_hlc ?p1)\<rparr>"
    have q: "CtrlTopic ?q = CtrlTopic p" "trace ?q = trace p" "rm_of ?q = rm'" by (simp_all add: CtrlTopic_def)
    have e: "p' = tell_all E ?m ?q" using c changed(3) by simp
    have "published s m p p' \<longleftrightarrow> CtrlTopic p = Some s \<and> m = ?m" for s m
      using tell_all_published [of s m ?q E ?m] unfolding e [symmetric] by (simp add: published_def q)
    moreover have "rm_of p' = rm'" unfolding e by (simp add: q)
    ultimately show ?thesis using changed(1,4) by blast
  qed (use c in simp_all)
qed (simp add: assms handleSetPeerRolesCmd_def)

text \<open>
  C20. A role command reaches the others. When a command of the client changes the roles of a peer, the assignment
  is published on the control topic of the session; and every other peer that has the same role definitions and
  no newer assignment for that peer computes, once it has received it, the permissions the sender computes
  for the target, and those it had before for everybody else.
\<close>

theorem role_command_replicates:
  assumes "codec_ok (codec_of E)" "rm_ok (rm_of p)" "client_step E N cs (SetPeerRolesCmd target names h) p = Some p'"
  shows "(assignments (rm_of p') \<noteq> assignments (rm_of p) \<longrightarrow> CtrlTopic p = Some t \<longrightarrow> (\<exists>a. published t (PeerRoleAssignment a) p p'))
    \<and> (\<forall>s a q. published s (PeerRoleAssignment a) p p' \<longrightarrow> ID q \<noteq> ID p \<longrightarrow> definitions (rm_of q) = definitions (rm_of p) \<longrightarrow>
        (\<exists>tgt. pid_decode (codec_of E) (pra_peer_id a) = Some tgt \<and>
          ((case mget (assignments (rm_of q)) tgt of None \<Rightarrow> True | Some st \<Rightarrow> assign_ts st <s pra_hlc_ts a) \<longrightarrow>
            (\<forall>j. GetPermissionsForPeer (rm_of (processControlTopicMessages E (ID p) (Some (PeerRoleAssignment a)) q)) j =
              GetPermissionsForPeer (if j = tgt then rm_of p' else rm_of q) j))))"
proof -
  let ?K = "codec_of E" and ?p = "sync_hlc h p"
  have s: "trace ?p = trace p" "CtrlTopic ?p = CtrlTopic p" "ID ?p = ID p" "rm_of ?p = rm_of p"
    by (simp_all add: sync_hlc_def update_hlc_def CtrlTopic_def ID_def)
  have p': "p' = handleSetPeerRolesCmd E target names (ID ?p) ?p" using assms(3) by (simp add: client_step_def describe_panics_def)
  from set_roles_outcome [OF p'] show ?thesis
  proof (elim disjE exE conjE)
    assume "p' = ?p"
    then show ?thesis using s by (auto simp: published_def)
  next
    fix tgt ts t'
    let ?a = "\<lparr>pra_peer_id = pid_string ?K tgt, pra_role_names = normalized names, pra_hlc_ts = t'\<rparr>"
    assume d: "\<forall>n \<in> set names. mhas (definitions (rm_of ?p)) (to_lower (trim_space n))"
      and rm: "rm_of p' = (rm_of ?p)\<lparr>assignments := if normalized names = [] then mdel (assignments (rm_of ?p)) tgt
          else mput (assignments (rm_of ?p)) tgt \<lparr>role_names = normalized names, assign_ts = ts\<rparr>\<rparr>"
      and "\<forall>s m. published s m ?p p' \<longleftrightarrow> CtrlTopic ?p = Some s \<and> m = PeerRoleAssignment ?a"
    then have pub: "published s m p p' \<longleftrightarrow> CtrlTopic p = Some s \<and> m = PeerRoleAssignment ?a" for s m
      using s by (simp add: published_def)
    have dec: "pid_decode ?K (pra_peer_id ?a) = Some tgt" using assms(1) by (simp add: codec_ok_decode)
    have "GetPermissionsForPeer (rm_of (processControlTopicMessages E (ID p) (Some (PeerRoleAssignment ?a)) q)) j =
        GetPermissionsForPeer (if j = tgt then rm_of p' else rm_of q) j"
      if "ID q \<noteq> ID p" "definitions (rm_of q) = definitions (rm_of p)"
        "case mget (assignments (rm_of q)) tgt of None \<Rightarrow> True | Some st \<Rightarrow> assign_ts st <s pra_hlc_ts ?a" for q j
    proof -
      have n: "normalize_names (definitions (rm_of q)) (pra_role_names ?a) = Inr (pra_role_names ?a)"
        using normalize_normalized [OF d] rm_ok_no_empty_key [OF assms(2)] that(2) s(4) by simp
      show ?thesis
        unfolding received_roles [OF that(1) dec n that(3)] rm
        using that(2) s(4) by (simp add: GetPermissionsForPeer_def GetAssignedRoles_def)
    qed
    then show ?thesis using dec pub by auto
  qed
qed

section \<open>Commands on the definitions of roles\<close>

lemma tell_assignment_trace: "\<exists>es. trace (tell_assignment E a p) = trace p @ es \<and> (\<forall>e \<in> set es. \<forall>t u. e \<noteq> Publish t (RoleDefinitionsUpdate u))"
proof -
  obtain hs where "trace (tell_assignment E a p) = trace p @ map (\<lambda>s. Send s (PeerRoleAssignment (a\<lparr>pra_hlc_ts := fst (now_hlc p)\<rparr>))) hs
      @ (case CtrlTopic (snd (now_hlc p)) of None \<Rightarrow> [] | Some t \<Rightarrow> [Publish t (PeerRoleAssignment (a\<lparr>pra_hlc_ts := fst (now_hlc p)\<rparr>))])"
    using tell_all_trace [of E "PeerRoleAssignment (a\<lparr>pra_hlc_ts := fst (now_hlc p)\<rparr>)" "snd (now_hlc p)"]
    by (auto simp: tell_assignment_def case_prod_beta)
  then show ?thesis by (auto split: option.split)
qed

lemma tell_assignments_trace:
  "\<exists>es. trace (fold (tell_assignment E) as p) = trace p @ es \<and> (\<forall>e \<in> set es. \<forall>t u. e \<noteq> Publish t (RoleDefinitionsUpdate u))"
proof (induction as arbitrary: p)
  case (Cons a as)
  obtain es where es: "trace (tell_assignment E a p) = trace p @ es" "\<forall>e \<in> set es. \<forall>t u. e \<noteq> Publish t (RoleDefinitionsUpdate u)"
    using tell_assignment_trace [of E a p] by blast
  obtain fs where "trace (fold (tell_assignment E) as (tell_assignment E a p)) = trace (tell_assignment E a p) @ fs"
    "\<forall>e \<in> set fs. \<forall>t u. e \<noteq> Publish t (RoleDefinitionsUpdate u)"
    using Cons.IH [of "tell_assignment E a p"] by blast
  with es show ?case by (intro exI [of _ "es @ fs"]) auto
qed simp

lemma tell_assignments_rm [simp]: "rm_of (fold (tell_assignment E) as p) = rm_of p"
  by (induction as arbitrary: p) (simp_all add: tell_assignment_def case_prod_beta)

text \<open>A command on the definitions changes nothing but the clock, or tells everybody the definitions it ends with.\<close>

definition tells_definitions :: "peer \<Rightarrow> peer \<Rightarrow> bool" where
  "tells_definitions p p' \<longleftrightarrow> (\<exists>u. rdu_definitions u = rdu_definitions (definitions_message (rm_of p'))
     \<and> (\<forall>s m. published s (RoleDefinitionsUpdate m) p p' \<longleftrightarrow> CtrlTopic p = Some s \<and> m = u))"

lemma told:
  assumes "trace q = trace p" "nd q = nd p" "trace p' = trace (tell_all E (RoleDefinitionsUpdate u) q) @ es"
    "\<forall>e \<in> set es. \<forall>t m. e \<noteq> Publish t (RoleDefinitionsUpdate m)" "rdu_definitions u = rdu_definitions (definitions_message (rm_of p'))"
  shows "tells_definitions p p'"
proof -
  have "published s (RoleDefinitionsUpdate m) p p' \<longleftrightarrow> CtrlTopic p = Some s \<and> m = u" for s m
  proof -
    have "Publish s (RoleDefinitionsUpdate m) \<notin> set es" using assms(4) by blast
    then show ?thesis using tell_all_trace [of E "RoleDefinitionsUpdate u" q] assms(1-3)
      by (auto simp: published_def CtrlTopic_def split: option.splits)
  qed
  then show ?thesis using assms(5) unfolding tells_definitions_def by blast
qed

lemma update_role_outcome:
  assumes "p' = handleUpdateRoleCmd E (Some d) sender p" "rm_ok (rm_of p)" "defs_canonical (rm_of p)" "trim_space (rd_name d) = rd_name d"
  shows "p' = p \<or> rm_ok (rm_of p') \<and> defs_canonical (rm_of p') \<and> tells_definitions p p'"
proof (cases "Has (GetPermissionsForPeer (rm_of p) sender) PermAddRemoveRoles \<and> to_lower (trim_space (rd_name d)) \<noteq> []")
  case False
  then show ?thesis by (auto simp: assms(1) handleUpdateRoleCmd_def UpdateDefinition_def Let_def)
next
  case True
  let ?r = "\<lparr>role_name = rd_name d, role_perms = ucast (rd_permissions d)\<rparr>"
  let ?rm = "(rm_of p)\<lparr>definitions := mput (definitions (rm_of p)) (to_lower (rd_name d)) ?r\<rparr>"
  have u: "UpdateDefinition (rd_name d) (ucast (rd_permissions d)) (rm_of p) = (Inr (definitions_message ?rm), ?rm)"
    using True assms(4) by (simp add: UpdateDefinition_def Let_def)
  have k: "keys_ok (definitions (rm_of p))" using assms(2) by (simp add: rm_ok_def defs_ok_def)
  let ?q = "snd (now_hlc (p\<lparr>rm_of := ?rm\<rparr>))"
  let ?u = "(definitions_message ?rm)\<lparr>rdu_hlc_ts := fst (now_hlc (p\<lparr>rm_of := ?rm\<rparr>))\<rparr>"
  have p': "p' = tell_all E (RoleDefinitionsUpdate ?u) ?q"
    using True by (simp add: assms(1) handleUpdateRoleCmd_def u case_prod_beta Let_def)
  have "uint (ucast (rd_permissions d) :: permission) < 2 ^ 32"
    using uint_lt2p [of "rd_permissions d"] by (simp add: unsigned_ucast_eq unsigned_take_bit_eq take_bit_int_eq_self)
  then have "defs_canonical ?rm"
    using assms(3) k by (auto simp: defs_canonical_get split: if_splits)
  moreover have "rm_ok ?rm" by (rule rm_ok_UpdateDefinition [OF assms(2) u])
  moreover have "rm_of p' = ?rm" by (simp add: p')
  moreover have "tells_definitions p p'"
    by (rule told [of ?q p p' E ?u "[]"]) (simp_all add: p')
  ultimately show ?thesis by simp
qed

lemma remove_role_outcome:
  assumes "p' = handleRemoveRoleCmd E n sender p" "rm_ok (rm_of p)" "defs_canonical (rm_of p)"
  shows "p' = p \<or> rm_ok (rm_of p') \<and> defs_canonical (rm_of p') \<and> tells_definitions p p'"
proof (cases "Has (GetPermissionsForPeer (rm_of p) sender) PermAddRemoveRoles")
  case True
  obtain res rm' c' where r: "RemoveDefinition (codec_of E) n (rm_of p, clk p) = (res, rm', c')"
    by (cases "RemoveDefinition (codec_of E) n (rm_of p, clk p)")
  show ?thesis
  proof (cases res)
    case (Inl e)
    with r have "rm' = rm_of p" "c' = clk p" by (auto simp: RemoveDefinition_def Let_def case_prod_beta split: if_splits)
    then show ?thesis using True by (simp add: assms(1) handleRemoveRoleCmd_def on_roles_def r Inl)
  next
    case (Inr ua)
    obtain u as where ua: "ua = (u, as)" by (cases ua)
    let ?q = "snd (now_hlc (p\<lparr>rm_of := rm', clk := c'\<rparr>))"
    let ?u = "u\<lparr>rdu_hlc_ts := fst (now_hlc (p\<lparr>rm_of := rm', clk := c'\<rparr>))\<rparr>"
    have p': "p' = fold (tell_assignment E) as (tell_all E (RoleDefinitionsUpdate ?u) ?q)"
      using True by (simp add: assms(1) handleRemoveRoleCmd_def on_roles_def r Inr ua case_prod_beta Let_def)
    have rm: "definitions rm' = mdel (definitions (rm_of p)) (to_lower (trim_space n)) \<and> u = definitions_message rm'"
      by (rule RemoveDefinition_InrE [OF r [unfolded Inr ua]]) simp
    have "keys_ok (definitions (rm_of p))" using assms(2) by (simp add: rm_ok_def defs_ok_def)
    then have "defs_canonical rm'" using assms(3) by (auto simp: defs_canonical_get rm split: if_splits)
    moreover have "rm_ok rm'" by (rule rm_ok_RemoveDefinition [OF assms(2) r])
    moreover have q: "rm_of p' = rm'" by (simp add: p')
    moreover obtain es where es: "trace p' = trace (tell_all E (RoleDefinitionsUpdate ?u) ?q) @ es"
      "\<forall>e \<in> set es. \<forall>t u. e \<noteq> Publish t (RoleDefinitionsUpdate u)"
      using tell_assignments_trace [of E as "tell_all E (RoleDefinitionsUpdate ?u) ?q"] by (auto simp: p')
    moreover have "tells_definitions p p'"
      by (rule told [OF _ _ es]) (simp_all add: q rm)
    ultimately show ?thesis by simp
  qed
qed (simp add: assms(1) handleRemoveRoleCmd_def)

text \<open>
  C21. A command on role definitions reaches the others. When a command of the client defines, changes or removes a role, the definitions are
  published on the control topic; and every other peer that receives the message looks up under every name the role the sender looks
  up, and computes the sender's permissions for everybody with the same assignment. The condition is that every role is stored under its
  own lower-case name, which the commands then keep; a name with spaces around it breaks it.
\<close>

theorem definition_command_replicates:
  assumes "rm_ok (rm_of p)" "defs_canonical (rm_of p)"
    "cmd = RemoveRoleCmd n h \<or> (\<exists>d. cmd = UpdateRoleCmd (Some d) h \<and> trim_space (rd_name d) = rd_name d)"
    "client_step E N cs cmd p = Some p'"
  shows "defs_canonical (rm_of p')
    \<and> (definitions (rm_of p') \<noteq> definitions (rm_of p) \<longrightarrow> CtrlTopic p = Some t \<longrightarrow> (\<exists>u. published t (RoleDefinitionsUpdate u) p p'))
    \<and> (\<forall>s u q. published s (RoleDefinitionsUpdate u) p p' \<longrightarrow> ID q \<noteq> ID p \<longrightarrow>
        (\<forall>m j. let q' = processControlTopicMessages E (ID p) (Some (RoleDefinitionsUpdate u)) q in
           GetDefinition m (rm_of q') = GetDefinition m (rm_of p')
           \<and> (mget (assignments (rm_of q)) j = mget (assignments (rm_of p')) j \<longrightarrow>
                GetPermissionsForPeer (rm_of q') j = GetPermissionsForPeer (rm_of p') j)))"
proof -
  let ?p = "sync_hlc h p"
  have s: "trace ?p = trace p" "CtrlTopic ?p = CtrlTopic p" "ID ?p = ID p" "rm_of ?p = rm_of p"
    by (simp_all add: sync_hlc_def update_hlc_def CtrlTopic_def ID_def)
  have "p' = ?p \<or> rm_ok (rm_of p') \<and> defs_canonical (rm_of p') \<and> tells_definitions ?p p'"
    using assms(3)
  proof (elim disjE exE conjE)
    assume "cmd = RemoveRoleCmd n h"
    then have "p' = handleRemoveRoleCmd E n (ID p) ?p" using assms(4) s by (simp add: client_step_def describe_panics_def)
    from remove_role_outcome [OF this] assms(1,2) s show ?thesis by simp
  next
    fix d assume d: "cmd = UpdateRoleCmd (Some d) h" "trim_space (rd_name d) = rd_name d"
    then have "p' = handleUpdateRoleCmd E (Some d) (ID p) ?p" using assms(4) s by (simp add: client_step_def describe_panics_def)
    from update_role_outcome [OF this] assms(1,2) s d(2) show ?thesis by simp
  qed
  then show ?thesis
  proof (elim disjE conjE)
    assume "p' = ?p"
    then show ?thesis using s assms(2) by (auto simp: published_def)
  next
    assume ok: "rm_ok (rm_of p')" "defs_canonical (rm_of p')" and "tells_definitions ?p p'"
    then obtain u where u: "rdu_definitions u = rdu_definitions (definitions_message (rm_of p'))"
      "\<And>s m. published s (RoleDefinitionsUpdate m) p p' \<longleftrightarrow> CtrlTopic p = Some s \<and> m = u"
      using s by (auto simp: tells_definitions_def published_def)
    note ap = definitions_message_applied [OF ok u(1)]
    have "rm_of (processControlTopicMessages E (ID p) (Some (RoleDefinitionsUpdate u)) q) = snd (ApplyDefinitionsUpdate (Some u) (rm_of q))"
      if "ID q \<noteq> ID p" for q
      using that by (simp add: processControlTopicMessages_def handleGossipRoleDefinitionsUpdate_def case_prod_beta Let_def split: sum.split)
    then show ?thesis
      using u(2) ok(2) ap(1,2) by (auto simp: Let_def GetDefinition_def GetPermissionsForPeer_def GetAssignedRoles_def)
  qed
qed

section \<open>Kicks and bans\<close>

lemma strip_roles_trace: "\<exists>es. trace (strip_roles_of E t p) = trace p @ es"
proof -
  obtain res rm' c' where s: "SetPeerRoles (codec_of E) t [] (rm_of p, clk p) = (res, rm', c')"
    by (cases "SetPeerRoles (codec_of E) t [] (rm_of p, clk p)")
  let ?q = "snd (now_hlc (p\<lparr>rm_of := rm', clk := c'\<rparr>))"
  have "\<exists>es. trace (tell_all E m ?q) = trace p @ es" for m
    using tell_all_trace [of E m ?q] by auto
  then show ?thesis
    by (auto simp: strip_roles_of_def on_roles_def s tell_assignment_def case_prod_beta Let_def split: sum.split option.split)
qed

text \<open>The last message of an expulsion, after steps that only add to the trace.\<close>

lemma expulsion_published:
  assumes "p' = tell_all E m q" "\<exists>es. trace q = trace p @ es" "nd q = nd p" "CtrlTopic p = Some s"
  shows "published s m p p'"
proof -
  obtain es hs where "trace p' = trace p @ es @ map (\<lambda>s. Send s m) hs @ [Publish s m]"
    using assms tell_all_trace [of E m q] by (auto simp: CtrlTopic_def)
  then show ?thesis by (auto simp: published_def)
qed

text \<open>The message of an expulsion: for everybody in the session, with the canonical name of the target.\<close>

definition expels :: "env \<Rightarrow> (peer_expelled \<Rightarrow> server_msg) \<Rightarrow> peer_id \<Rightarrow> peer \<Rightarrow> peer \<Rightarrow> bool" where
  "expels E mk tgt p p' \<longleftrightarrow> GetPermissionsForPeer (rm_of p') tgt = 0
     \<and> (\<forall>s. CtrlTopic p = Some s \<longrightarrow> (\<exists>x. pe_peer_id x = pid_string (codec_of E) tgt \<and> published s (mk x) p p'))"

lemma if_now_trace [simp]: "trace (snd (if b then now_hlc p else (h, p))) = trace p"
  by simp

lemma kick_outcome:
  assumes "p' = handleKickPeerCmd E cmd sender p" "sm_of p' \<noteq> sm_of p"
  shows "\<exists>t s. expel_guard E PermKickUser cmd sender t s p \<and> \<not> IsPeerInSession (GetCurrentSessionID p) t (sm_of p') \<and> expels E PeerKicked t p p'"
  using kick_cases [of E cmd sender p]
proof cases
  case (kicked t s)
  let ?sid = "GetCurrentSessionID p"
  from kicked(1) obtain m where "mget (Members s) t = Some m" "mget (sm_of p) ?sid = Some s"
    by (auto simp: expel_guard_def IsPeerInSession_def GetSession_def)
  then have r: "RemovePeerFromSession ?sid t (sm_of p) = (Inr (m, True), mput (sm_of p) ?sid (s\<lparr>Members := mdel (Members s) t\<rparr>))"
    by (simp add: RemovePeerFromSession_def)
  let ?p2 = "strip_roles_of E t (p\<lparr>sm_of := mput (sm_of p) ?sid (s\<lparr>Members := mdel (Members s) t\<rparr>)\<rparr>)"
  let ?c = "if tc_hlc_ts cmd = 0 then now_hlc ?p2 else (tc_hlc_ts cmd, ?p2)"
  let ?x = "\<lparr>pe_peer_id = pid_string (codec_of E) t, pe_issued_by = pid_string (codec_of E) sender, pe_reason = tc_reason cmd, pe_hlc_ts = fst ?c\<rparr>"
  have e: "p' = tell_all E (PeerKicked ?x) (snd ?c)"
    using kicked(1) r unfolding assms(1) by (auto simp: handleKickPeerCmd_def expel_guard_def Let_def case_prod_beta)
  have "\<exists>es. trace ?p2 = trace p @ es" using strip_roles_trace [of E t "p\<lparr>sm_of := mput (sm_of p) ?sid (s\<lparr>Members := mdel (Members s) t\<rparr>)\<rparr>"] by simp
  then have "published u (PeerKicked ?x) p p'" if "CtrlTopic p = Some u" for u
    by (intro expulsion_published [OF e _ _ that]) simp_all
  moreover have "\<not> IsPeerInSession ?sid t (sm_of p')" using kicked(2) RemovePeer_gone unfolding assms(1) by simp
  ultimately show ?thesis using kicked(1,3) unfolding expels_def assms(1) [symmetric] by (intro exI [of _ t] exI [of _ s] conjI allI impI exI [of _ ?x]) simp_all
qed (use assms in simp)

lemma ban_outcome:
  assumes "p' = handleBanPeerCmd E cmd sender p" "sm_of p' \<noteq> sm_of p"
  shows "\<exists>t s. expel_guard E PermBanUser cmd sender t s p \<and> \<not> IsPeerInSession (GetCurrentSessionID p) t (sm_of p') \<and> expels E PeerBanned t p p'"
  using ban_cases [of E cmd sender p]
proof cases
  case (banned t s h)
  let ?sid = "GetCurrentSessionID p"
  have m: "mget (sm_of p) ?sid = Some s" using banned(1) by (simp add: expel_guard_def GetSession_def)
  let ?c = "if tc_hlc_ts cmd = 0 then now_hlc p else (tc_hlc_ts cmd, p)"
  let ?x = "\<lparr>pe_peer_id = pid_string (codec_of E) t, pe_issued_by = pid_string (codec_of E) sender, pe_reason = tc_reason cmd, pe_hlc_ts = fst ?c\<rparr>"
  obtain info sm where b: "BanPeer ?sid t sender (tc_reason cmd) (fst ?c) (sm_of p) = (Inr info, sm)"
    using m by (simp add: BanPeer_def Let_def case_prod_beta)
  let ?q = "strip_roles_of E t ((snd ?c)\<lparr>sm_of := sm\<rparr>)"
  have e: "p' = tell_all E (PeerBanned ?x) ?q"
    using banned(1) b unfolding assms(1) by (auto simp: handleBanPeerCmd_def expel_guard_def Let_def case_prod_beta)
  have "\<exists>es. trace ?q = trace p @ es" using strip_roles_trace [of E t "(snd ?c)\<lparr>sm_of := sm\<rparr>"] by simp
  then have "published u (PeerBanned ?x) p p'" if "CtrlTopic p = Some u" for u
    by (intro expulsion_published [OF e _ _ that]) simp_all
  moreover have "\<not> IsPeerInSession ?sid t (sm_of p')"
    using banned(2) m unfolding assms(1) by (simp add: BanPeer_sm IsPeerInSession_def)
  ultimately show ?thesis using banned(1,3) unfolding expels_def assms(1) [symmetric] by (intro exI [of _ t] exI [of _ s] conjI allI impI exI [of _ ?x]) simp_all
qed (use assms in simp)

lemma received_expulsion:
  assumes "codec_ok (codec_of E)" "mk \<in> {PeerKicked, PeerBanned}" "ID q \<noteq> src" "pe_peer_id x = pid_string (codec_of E) tgt"
  shows "GetCurrentSessionID (processControlTopicMessages E src (Some (mk x)) q) = (if ID q = tgt then ''default'' else GetCurrentSessionID q)"
proof -
  have "pid_string (codec_of E) tgt = pid_string (codec_of E) (ID q) \<longleftrightarrow> ID q = tgt"
    using assms(1) by (metis codec_ok_decode option.inject)
  then show ?thesis using assms(2-4)
    by (auto simp: processControlTopicMessages_def expelled_def leave_expelled_fields)
qed

text \<open>
  C22. A kick or a ban reaches its target. When such a command of the client changes the sessions, the target it names, a member of the
  current session until then, is no longer in it, while every other membership of every session stays as it was; the target has no
  permission left at the sender, and everybody else has the same as before; the event is published on the control topic; and of the
  peers that receive it the target goes to the default session, and all others stay where they are.
\<close>

theorem expulsion_reaches_target:
  assumes "codec_ok (codec_of E)" "(cmd, mk) \<in> {(KickPeerCmd c, PeerKicked), (BanPeerCmd c, PeerBanned)}"
    "client_step E N cs cmd p = Some p'" "sm_of p' \<noteq> sm_of p" "CtrlTopic p = Some t"
  defines "sid \<equiv> GetCurrentSessionID p"
  shows "\<exists>tgt x. pid_decode (codec_of E) (tc_target c) = Some tgt
    \<and> IsPeerInSession sid tgt (sm_of p)
    \<and> (\<forall>s j. IsPeerInSession s j (sm_of p') \<longleftrightarrow> IsPeerInSession s j (sm_of p) \<and> (s, j) \<noteq> (sid, tgt))
    \<and> (\<forall>j. GetPermissionsForPeer (rm_of p') j = (if j = tgt then 0 else GetPermissionsForPeer (rm_of p) j))
    \<and> published t (mk x) p p'
    \<and> (\<forall>q. ID q \<noteq> ID p \<longrightarrow> GetCurrentSessionID (processControlTopicMessages E (ID p) (Some (mk x)) q)
        = (if ID q = tgt then ''default'' else GetCurrentSessionID q))"
proof -
  let ?p = "sync_hlc (tc_hlc_ts c) p"
  have s: "trace ?p = trace p" "CtrlTopic ?p = CtrlTopic p" "ID ?p = ID p" "sm_of ?p = sm_of p" "GetCurrentSessionID ?p = sid" "rm_of ?p = rm_of p"
    by (simp_all add: sync_hlc_def update_hlc_def CtrlTopic_def ID_def sid_def GetCurrentSessionID_def)
  have mk: "mk \<in> {PeerKicked, PeerBanned}" using assms(2) by auto
  have "\<exists>tgt u perm. expel_guard E perm c (ID p) tgt u ?p \<and> \<not> IsPeerInSession sid tgt (sm_of p') \<and> expels E mk tgt ?p p'
      \<and> (perm, p') \<in> {(PermKickUser, handleKickPeerCmd E c (ID p) ?p), (PermBanUser, handleBanPeerCmd E c (ID p) ?p)}"
  proof (cases "cmd = KickPeerCmd c")
    case True
    then have "p' = handleKickPeerCmd E c (ID p) ?p" "mk = PeerKicked" using assms(2,3) s by (auto simp: client_step_def describe_panics_def)
    with kick_outcome [OF this(1)] assms(4) s show ?thesis by auto
  next
    case False
    then have "p' = handleBanPeerCmd E c (ID p) ?p" "mk = PeerBanned" using assms(2,3) s by (auto simp: client_step_def describe_panics_def)
    with ban_outcome [OF this(1)] assms(4) s show ?thesis by auto
  qed
  then obtain tgt u perm where g: "expel_guard E perm c (ID p) tgt u ?p" "\<not> IsPeerInSession sid tgt (sm_of p')" "expels E mk tgt ?p p'"
    "(perm, p') \<in> {(PermKickUser, handleKickPeerCmd E c (ID p) ?p), (PermBanUser, handleBanPeerCmd E c (ID p) ?p)}" by blast
  have "IsPeerInSession sid tgt (sm_of ?p)" using g(1) s by (simp add: expel_guard_def)
  note frame = expulsion_cases [OF g(4) this g(2), unfolded s(4,6)]
  from g(3) assms(5) s obtain x where x: "pe_peer_id x = pid_string (codec_of E) tgt" "published t (mk x) p p'" "GetPermissionsForPeer (rm_of p') tgt = 0"
    by (auto simp: expels_def published_def)
  show ?thesis
    using g(1) x s frame received_expulsion [OF assms(1) mk _ x(1)]
    by (intro exI [of _ tgt] exI [of _ x]) (auto simp: expel_guard_def)
qed

section \<open>Witnesses\<close>

definition ex_follower :: peer where
  "ex_follower = ex_peer ''c'' ex_roles NewQueue 0"

definition ex_newcomer :: peer where
  "ex_newcomer = ex_peer ''c'' NewRoleManager NewQueue 0"

lemma ex_command_facts:
  "codec_ok (codec_of ex_env)" "rm_ok (rm_of ex_admin)" "CtrlTopic ex_admin = Some ''ctrl''"
  "ID ex_follower \<noteq> ID ex_admin" "ID ex_newcomer \<noteq> ID ex_admin"
  "Has (GetPermissionsForPeer (rm_of ex_follower) (ID ex_admin)) PermQueue"
  "definitions (rm_of ex_newcomer) = definitions (rm_of ex_admin)" "assignments (rm_of ex_newcomer) = []"
proof -
  have r: "rm_of ex_admin = ex_roles" "rm_of ex_newcomer = NewRoleManager" by (simp_all add: ex_admin_def ex_newcomer_def ex_peer_def)
  show "rm_ok (rm_of ex_admin)" by (rule ex_admin_rm_ok)
  show "definitions (rm_of ex_newcomer) = definitions (rm_of ex_admin)" "assignments (rm_of ex_newcomer) = []"
    unfolding r by (simp_all add: ex_roles_def NewRoleManager_def)
  show "codec_ok (codec_of ex_env)" "CtrlTopic ex_admin = Some ''ctrl''"
    by (simp_all add: ex_env_def ex_admin_def CtrlTopic_def)
  show "ID ex_follower \<noteq> ID ex_admin" "ID ex_newcomer \<noteq> ID ex_admin"
    "Has (GetPermissionsForPeer (rm_of ex_follower) (ID ex_admin)) PermQueue" by code_simp+
qed

theorem queue_command_replicates_witness:
  "\<exists>p' u. client_step ex_env ex_net 0 (QueueCmd ex_append) ex_admin = Some p' \<and> published ''ctrl'' (QueueUpdate u) ex_admin p' \<and>
    zeroed (Items (queue_of (processControlTopicMessages ex_env (ID ex_admin) (Some (QueueUpdate u)) ex_follower))) = zeroed (Items (queue_of p'))"
proof -
  obtain p' where p': "client_step ex_env ex_net 0 (QueueCmd ex_append) ex_admin = Some p'"
    by (simp add: client_step_def describe_panics_def)
  have "map FilePath (Items (queue_of (the (client_step ex_env ex_net 0 (QueueCmd ex_append) ex_admin)))) \<noteq> map FilePath (Items (queue_of ex_admin))"
    by code_simp
  then have "zeroed (Items (queue_of p')) \<noteq> zeroed (Items (queue_of ex_admin))"
    unfolding p' zeroed_def option.sel by (metis (no_types, lifting) list.map_comp comp_def queue_item.simps map_eq_conv queue_item.surjective)
  with queue_command_replicates [OF ex_command_facts(1) p', of "''ctrl''"] ex_command_facts(3,4,6) p' show ?thesis by blast
qed

theorem role_command_replicates_witness:
  "\<exists>p' a tgt. client_step ex_env ex_net 0 (SetPeerRolesCmd ''b'' [''Streamer''] 5) ex_admin = Some p' \<and>
    published ''ctrl'' (PeerRoleAssignment a) ex_admin p' \<and> pid_decode (codec_of ex_env) (pra_peer_id a) = Some tgt \<and>
    GetPermissionsForPeer (rm_of (processControlTopicMessages ex_env (ID ex_admin) (Some (PeerRoleAssignment a)) ex_newcomer)) tgt =
      GetPermissionsForPeer (rm_of p') tgt"
proof -
  obtain p' where p': "client_step ex_env ex_net 0 (SetPeerRolesCmd ''b'' [''Streamer''] 5) ex_admin = Some p'"
    by (simp add: client_step_def describe_panics_def)
  have "assignments (rm_of (the (client_step ex_env ex_net 0 (SetPeerRolesCmd ''b'' [''Streamer''] 5) ex_admin))) \<noteq> assignments (rm_of ex_admin)"
    by code_simp
  then have "assignments (rm_of p') \<noteq> assignments (rm_of ex_admin)" by (simp add: p')
  note rep = role_command_replicates [OF ex_command_facts(1,2) p', of "''ctrl''"]
  obtain a where a: "published ''ctrl'' (PeerRoleAssignment a) ex_admin p'"
    using rep \<open>assignments (rm_of p') \<noteq> assignments (rm_of ex_admin)\<close> ex_command_facts(3) by blast
  with rep ex_command_facts(5,7) obtain tgt where "pid_decode (codec_of ex_env) (pra_peer_id a) = Some tgt"
    "(case mget (assignments (rm_of ex_newcomer)) tgt of None \<Rightarrow> True | Some st \<Rightarrow> assign_ts st <s pra_hlc_ts a) \<longrightarrow>
     (\<forall>j. GetPermissionsForPeer (rm_of (processControlTopicMessages ex_env (ID ex_admin) (Some (PeerRoleAssignment a)) ex_newcomer)) j =
        GetPermissionsForPeer (if j = tgt then rm_of p' else rm_of ex_newcomer) j)"
    by blast
  with a p' ex_command_facts(8) show ?thesis by auto
qed

theorem definition_command_replicates_witness:
  "\<exists>p' u. client_step ex_env ex_net 0 (UpdateRoleCmd (Some \<lparr>rd_name = ''Guest'', rd_permissions = 3\<rparr>) 5) ex_admin = Some p'
    \<and> published ''ctrl'' (RoleDefinitionsUpdate u) ex_admin p'
    \<and> GetDefinition ''Guest'' (rm_of (processControlTopicMessages ex_env (ID ex_admin) (Some (RoleDefinitionsUpdate u)) ex_newcomer))
        = GetDefinition ''Guest'' (rm_of p')"
proof -
  let ?c = "UpdateRoleCmd (Some \<lparr>rd_name = ''Guest'', rd_permissions = 3\<rparr>) 5"
  obtain p' where p': "client_step ex_env ex_net 0 ?c ex_admin = Some p'"
    by (simp add: client_step_def describe_panics_def)
  have "mhas (definitions (rm_of (the (client_step ex_env ex_net 0 ?c ex_admin)))) ''guest''" "\<not> mhas (definitions (rm_of ex_admin)) ''guest''"
    "list_all (\<lambda>(k, r). k = to_lower (role_name r) \<and> uint (role_perms r) < 2 ^ 32) (definitions (rm_of ex_admin))"
    "trim_space ''Guest'' = ''Guest''" by code_simp+
  then have "definitions (rm_of p') \<noteq> definitions (rm_of ex_admin)" and c: "defs_canonical (rm_of ex_admin)"
    and d: "?c = RemoveRoleCmd '''' 5 \<or> (\<exists>d. ?c = UpdateRoleCmd (Some d) 5 \<and> trim_space (rd_name d) = rd_name d)"
    by (auto simp: p' defs_canonical_def list_all_iff)
  with definition_command_replicates [OF ex_command_facts(2) c d p', of "''ctrl''"] ex_command_facts(3,5) p'
  show ?thesis by (auto simp: Let_def)
qed

theorem expulsion_reaches_target_witness:
  "\<exists>p' x. client_step ex_env ex_net 0 (BanPeerCmd ex_ban) ex_admin = Some p' \<and> published ''ctrl'' (PeerBanned x) ex_admin p'
    \<and> GetCurrentSessionID (processControlTopicMessages ex_env (ID ex_admin) (Some (PeerBanned x)) (ex_peer ''b'' ex_roles NewQueue 0)) = ''default''"
proof -
  obtain p' where p': "client_step ex_env ex_net 0 (BanPeerCmd ex_ban) ex_admin = Some p'"
    by (simp add: client_step_def describe_panics_def)
  have "\<not> IsPeerInSession ''s'' (PeerID ''b'') (sm_of (the (client_step ex_env ex_net 0 (BanPeerCmd ex_ban) ex_admin)))"
    "IsPeerInSession ''s'' (PeerID ''b'') (sm_of ex_admin)" by code_simp+
  then have "sm_of p' \<noteq> sm_of ex_admin" by (auto simp: p')
  moreover have "pid_decode (codec_of ex_env) (tc_target ex_ban) = Some (PeerID ''b'')" "ID (ex_peer ''b'' ex_roles NewQueue 0) = PeerID ''b''"
    "ID ex_admin \<noteq> PeerID ''b''" by code_simp+
  ultimately show ?thesis
    using expulsion_reaches_target [OF ex_command_facts(1) _ p', of PeerBanned ex_ban "''ctrl''"] ex_command_facts(3) p' by auto
qed

end
