(* ===== verification/Network.thy ===== *)
theory Network
  imports Replication
begin

text \<open>
  Several services at once: a network is any number of peers that run \<open>main\<close> of \<^verbatim>\<open>peer_service/main.go\<close>, each on its own, and
  receive what the others publish. GossipSub may lose, delay, repeat and reorder messages and is not held to topics: whatever
  a peer of the network has published can reach any peer at any time, from the publisher itself or through any other peer of the
  network. The handlers see only this last hop, \<^verbatim>\<open>ReceivedFrom\<close>, and not the publisher. What no peer has published does not arrive.
\<close>

section \<open>What is published, and with what right\<close>

fun restricted_msg :: "server_msg \<Rightarrow> bool" where
  "restricted_msg (PeerKicked x) = True"
| "restricted_msg (PeerBanned x) = True"
| "restricted_msg (RoleDefinitionsUpdate u) = True"
| "restricted_msg (ChatDeleteMsg d) = True"
| "restricted_msg (PlaybackStateMsg s) = True"
| "restricted_msg (PeerRoleAssignment a) = True"
| "restricted_msg (AllPeerRoleAssignments a) = True"
| "restricted_msg (PeerLeft l) = True"
| "restricted_msg _ = False"

fun restricted :: "effect \<Rightarrow> bool" where
  "restricted (Publish t m) = restricted_msg m"
| "restricted (PublishVideo t v) = True"
| "restricted _ = False"

text \<open>What is followed of a peer: its identity and the restricted messages it has published.\<close>

definition face :: "peer \<Rightarrow> peer_id \<times> effect list" where
  "face p = (ID p, filter restricted (trace p))"

abbreviation acts :: "peer \<Rightarrow> effect list" where
  "acts p \<equiv> snd (face p)"

lemma face_same: "trace p' = trace p \<Longrightarrow> host_ID (nd p') = host_ID (nd p) \<Longrightarrow> face p' = face p"
  by (simp add: face_def ID_def)

lemma face_publish: "face (publish t m p) =
    (fst (face p), acts p @ (if restricted_msg m then (case t of None \<Rightarrow> [] | Some t \<Rightarrow> [Publish t m]) else []))"
  by (simp add: face_def publish_def ID_def split: option.split)

lemma face_base [simp]:
  "face (hub_broadcast E m p) = face p" "face (snd (stream_send E cs m p)) = face p" "face (snd (now_hlc p)) = face p"
  "face (close_topic c p) = face p" "face (snd (ps_join E x p)) = face p" "face (on_qc g p) = face p"
  "face (update_hlc h p) = face p" "face (sync_hlc h p) = face p" "face (snd (qc_Snapshot E p)) = face p" "face (set_queue q p) = face p"
  "face (cancel_runner p) = face p" "face (snd (on_roles r p)) = face p" "face (snd (on_sessions s p)) = face p"
  "face (SetCurrentSessionID sid p) = face p" "face (maybeStartMdns p) = face p" "face (UpdateLastKnownPlaybackState ps p) = face p"
  by (auto simp: face_def ID_def cancel_runner_def on_node_def hub_broadcast_def stream_send_def close_topic_def ps_join_def sync_hlc_def update_hlc_def on_roles_def on_sessions_def
      SetCurrentSessionID_def maybeStartMdns_def UpdateLastKnownPlaybackState_def Let_def case_prod_beta filter_empty_conv split: option.split)

lemma face_fields [simp]:
  "face (p\<lparr>rm_of := rm\<rparr>) = face p" "face (p\<lparr>sm_of := sm\<rparr>) = face p" "face (p\<lparr>ring := r\<rparr>) = face p" "face (p\<lparr>hub_of := h\<rparr>) = face p"
  "face (p\<lparr>clk := c\<rparr>) = face p" "face (p\<lparr>pendingDiscont := d\<rparr>) = face p" "face (p\<lparr>srv_ctrlTopic := a\<rparr>) = face p" "face (p\<lparr>srv_chatTopic := b\<rparr>) = face p"
  by (simp_all add: face_def ID_def)

lemma face_node [simp]: "(\<And>n. host_ID (f n) = host_ID n) \<Longrightarrow> face (on_node f p) = face p"
  by (simp add: face_def ID_def on_node_def)

lemma ID_face: "ID p = fst (face p)"
  by (simp add: face_def)

lemma Snapshot_unrestricted [simp]: "\<not> restricted_msg (fst (qc_Snapshot E p))"
  by (simp add: qc_Snapshot_def case_prod_beta Let_def)

lemma face_controlTopic: "face (snd (publishToControlTopic m p)) = face (publish (CtrlTopic p) m p)"
  by (simp add: publishToControlTopic_def publish_def split: option.split)

lemma face_chatTopic: "face (snd (publishToChatTopic m p)) = face (publish (ChatTopic p) m p)"
  by (simp add: publishToChatTopic_def publish_def split: option.split)

lemma face_tell_all: "face (tell_all E m p) = face (publish (CtrlTopic p) m p)"
  by (simp add: tell_all_def face_controlTopic face_publish CtrlTopic_def)

lemma face_unrestricted [simp]:
  "\<not> restricted_msg m \<Longrightarrow> face (publish t m p) = face p"
  "\<not> restricted_msg m \<Longrightarrow> face (snd (publishToControlTopic m p)) = face p"
  "\<not> restricted_msg m \<Longrightarrow> face (snd (publishToChatTopic m p)) = face p"
  "\<not> restricted_msg m \<Longrightarrow> face (tell_all E m p) = face p"
  by (simp_all add: face_publish face_controlTopic face_chatTopic face_tell_all prod_eq_iff)

lemma face_React [simp]: "face (ReactToQueueUpdate E p) = face p"
proof -
  have a: "face (announce_first_seq E s p) = face p" for s p
    by (simp add: announce_first_seq_def Let_def case_prod_beta split: option.split)
  have s: "face (start_run E f s p) = face p" for f s p
    by (simp add: start_run_def Let_def case_prod_beta)
  have "face (EnsureRunnerState E f s p) = face p" for f s
    by (simp add: EnsureRunnerState_def Let_def case_prod_beta a s)
  then show ?thesis by (simp add: ReactToQueueUpdate_def Let_def case_prod_beta)
qed

lemma face_stop [simp]: "face (StopCurrentEncoder p) = face p" "face (UpdateGlobalMediaSequence s p) = face p" "face (stop_and_carry_seq p) = face p"
  by (rule face_same, simp, simp)+

lemma face_switch: "queue_switch E cmd s ty p = Inr (b, p') \<Longrightarrow> face p' = face p"
  by (cases ty) (auto simp: Let_def case_prod_beta split: if_splits)

lemma face_Handle [simp]: "face (snd (Handle E cmd s t p)) = face p"
  using Handle_shape [of "snd (Handle E cmd s t p)" E cmd s t p] by (auto dest: face_switch)

lemma face_ApplyUpdate [simp]: "face (snd (ApplyUpdate E u src p)) = face p"
  by (simp add: ApplyUpdate_def Let_def case_prod_beta)

lemma face_advance [simp]: "face (NotifyPlayerStreamCompleted E s i p) = face p" "face (runner_enter E t p) = face p" "face (runner_leave E t r p) = face p"
proof -
  have c: "face (checkAndAttemptQueueAdvance E s p) = face p" for s p
    by (simp add: checkAndAttemptQueueAdvance_def del_completion_def Let_def case_prod_beta split: option.split)
  have e: "face (task_end E x s r p) = face p" for x s r p
    by (simp add: task_end_def NotifyEncoderFinished_def set_completion_def c Let_def case_prod_beta)
  show "face (NotifyPlayerStreamCompleted E s i p) = face p" by (simp add: NotifyPlayerStreamCompleted_def set_completion_def c Let_def)
  show "face (runner_enter E t p) = face p" "face (runner_leave E t r p) = face p"
    by (simp_all add: runner_enter_def runner_leave_def e Let_def)
qed

lemma face_topics [simp]: "face (snd (JoinSessionTopics E sid p)) = face p"
proof -
  have "face (snd (join_topics E sid p)) = face p" for p by (simp add: join_topics_def Let_def case_prod_beta)
  moreover have "face (leave_topics p) = face p" by (simp add: leave_topics_def)
  ultimately show ?thesis by (simp add: JoinSessionTopics_def Let_def)
qed

text \<open>From \<open>p\<close> to \<open>p'\<close> restricted messages are published that satisfy \<open>P\<close>, and nothing else of that kind.\<close>

definition grows :: "(effect \<Rightarrow> bool) \<Rightarrow> peer \<Rightarrow> peer \<Rightarrow> bool" where
  "grows P p p' \<longleftrightarrow> fst (face p') = fst (face p) \<and> (\<exists>es. acts p' = acts p @ es \<and> (\<forall>e \<in> set es. P e))"

definition says :: "(server_msg \<Rightarrow> bool) \<Rightarrow> peer \<Rightarrow> peer \<Rightarrow> bool" where
  "says P = grows (\<lambda>e. \<exists>t m. e = Publish t m \<and> P m)"

lemma grows_same: "face p' = face p \<Longrightarrow> grows P p p'"
  by (simp add: grows_def)

lemma grows_trans: "grows P p q \<Longrightarrow> grows P q r \<Longrightarrow> grows P p r"
  unfolding grows_def by (metis append.assoc set_append Un_iff)

lemma grows_mono: "grows P p q \<Longrightarrow> (\<And>e. P e \<Longrightarrow> Q e) \<Longrightarrow> grows Q p q"
  by (auto simp: grows_def)

lemma grows_face: "face q = face p \<Longrightarrow> grows P q r \<Longrightarrow> grows P p r"
  by (simp add: grows_def)

lemma fst_publish [simp]: "fst (face (publish t m q)) = fst (face q)"
  by (simp add: face_publish)

lemma grows_new: "fst (face r) = fst (face q) \<Longrightarrow> acts r = acts q @ es \<Longrightarrow> \<forall>e \<in> set es. P e \<Longrightarrow> grows P q r"
  by (auto simp: grows_def)

lemma acts_publish: "\<exists>es. acts (publish x m q) = acts q @ es \<and> set es \<subseteq> range (\<lambda>s. Publish s m)"
  by (cases x; cases "restricted_msg m") (simp_all add: face_publish)

lemma grows_publish: "(\<And>s. P (Publish s m)) \<Longrightarrow> grows P q (publish x m q)"
  using acts_publish [of x m q] by (blast intro: grows_new [OF fst_publish])

lemma grows_tell: "(\<And>t. P (Publish t m)) \<Longrightarrow> grows P q (tell_all E m q)"
  using grows_publish [of P m q "CtrlTopic q"] by (simp add: grows_def face_tell_all)

lemma grows_control: "(\<And>t. P (Publish t m)) \<Longrightarrow> grows P q (snd (publishToControlTopic m q))"
  using grows_publish [of P m q "CtrlTopic q"] by (simp add: grows_def face_controlTopic)

lemma says_same: "face p' = face p \<Longrightarrow> says P p p'"
  by (simp add: says_def grows_same)

lemma says_trans: "says P p q \<Longrightarrow> says P q r \<Longrightarrow> says P p r"
  unfolding says_def by (rule grows_trans)

lemma says_tell_all: "P m \<Longrightarrow> face q = face p \<Longrightarrow> says P p (tell_all E m q)"
  unfolding says_def by (rule grows_face, assumption, rule grows_tell) blast

lemma says_control: "P m \<Longrightarrow> face q = face p \<Longrightarrow> says P p (snd (publishToControlTopic m q))"
  unfolding says_def by (rule grows_face, assumption, rule grows_control) blast

lemma says_face: "says P p q \<Longrightarrow> face r = face q \<Longrightarrow> says P p r"
  by (simp add: says_def grows_def)

definition assigns :: "(string list \<Rightarrow> bool) \<Rightarrow> server_msg \<Rightarrow> bool" where
  "assigns Q m \<longleftrightarrow> (\<exists>a. m = PeerRoleAssignment a \<and> Q (pra_role_names a))"

lemma tell_assignment_says: "Q (pra_role_names a) \<Longrightarrow> says (assigns Q) p (tell_assignment E a p)"
  by (auto simp: tell_assignment_def case_prod_beta assigns_def intro!: says_tell_all)

lemma tell_assignments_say: "says (assigns (\<lambda>_. True)) p (fold (tell_assignment E) as p)"
  by (induction as arbitrary: p) (auto simp: says_same intro: says_trans tell_assignment_says)

lemma strip_roles_says: "says (assigns (\<lambda>ns. ns = [])) p (strip_roles_of E j p)"
proof -
  have n: "pra_role_names a = []" if "on_roles (SetPeerRoles (codec_of E) j []) p = (Inr (Some a), q)" for a q
    using that by (auto simp: on_roles_def SetPeerRoles_def Let_def case_prod_beta split: if_splits)
  have f: "face q = face p" if "on_roles (SetPeerRoles (codec_of E) j []) p = (x, q)" for x q
    using face_base(12) [of "SetPeerRoles (codec_of E) j []" p] that by simp
  show ?thesis
    by (cases "on_roles (SetPeerRoles (codec_of E) j []) p")
      (auto simp: strip_roles_of_def n intro: says_same f says_trans [OF says_same tell_assignment_says] split: sum.split option.split)
qed

lemma tell_left_says: "says (\<lambda>m. \<exists>l. m = PeerLeft l \<and> pl_peer_id l = pid_string (codec_of E) (ID p)) p (tell_left E reason p)"
  by (auto simp: tell_left_def case_prod_beta ID_face intro!: says_control)

lemma announce_member_says: "says (assigns (\<lambda>ns. ns = [''Viewer''])) p (announce_member E j user p)"
proof -
  have "says (assigns (\<lambda>ns. ns = [''Viewer''])) p
      (snd (publishToControlTopic (LocalPeerIdentity i) (snd (publishToControlTopic (PeerRoleAssignment a) q))))"
    if "face q = face p" "pra_role_names a = [''Viewer'']" for i a q
    by (rule says_face [OF says_control]) (use that in \<open>auto simp: assigns_def\<close>)
  then show ?thesis by (auto simp: announce_member_def Let_def case_prod_beta says_same)
qed

lemma face_client [simp]:
  "face (sendInitialState E cs p) = face p" "face (stream_opened E cs p) = face p" "face (session_created E cs sess p) = face p"
proof -
  show i: "face (sendInitialState E cs p) = face p" for p by (simp add: sendInitialState_def Let_def case_prod_beta)
  show "face (stream_opened E cs p) = face p" by (simp add: stream_opened_def i)
  show "face (session_created E cs sess p) = face p" by (simp add: session_created_def i Let_def case_prod_beta)
qed

lemma face_received [simp]:
  "face (processControlTopicMessages E src m p) = face p" "face (processChatTopicMessages E src m p) = face p"
  "face (processVideoSegmentMessages src seg msz now p) = face p"
proof -
  have "face (control_payload E m src p) = face p" for m
    by (cases m) (auto simp: handleGossipQueueUpdate_def handleGossipRoleDefinitionsUpdate_def handleGossipPeerRoleAssignment_def
        handleGossipAllPeerRoleAssignments_def handleGossipPlaylistReset_def handleGossipPlaybackStateCmd_def handleGossipLocalPeerIdentity_def
        handleGossipPeerLeft_def expelled_def leave_expelled_def Let_def case_prod_beta split: option.split sum.split)
  then show "face (processControlTopicMessages E src m p) = face p" by (simp add: processControlTopicMessages_def split: option.split)
  show "face (processChatTopicMessages E src m p) = face p"
    by (auto simp: processChatTopicMessages_def split: option.split server_msg.split)
  show "face (processVideoSegmentMessages src seg msz now p) = face p"
    by (auto simp: processVideoSegmentMessages_def AddBytesDown_def Let_def split: option.split)
qed

definition own_perms :: "peer \<Rightarrow> permission" where
  "own_perms p = GetPermissionsForPeer (rm_of p) (ID p)"

text \<open>The peer may take the named one out of its current session, and has it there.\<close>

definition may_expel :: "codec \<Rightarrow> permission \<Rightarrow> string \<Rightarrow> peer \<Rightarrow> bool" where
  "may_expel K perm name p \<longleftrightarrow> Has (own_perms p) perm \<and> GetCurrentSessionID p \<notin> {'''', ''default''}
     \<and> (\<exists>j. name = pid_string K j \<and> IsPeerInSession (GetCurrentSessionID p) j (sm_of p))"

text \<open>
  The peer may publish these role names for somebody: as a manager of roles, none as one who kicks or bans, and the role of a
  viewer as the administrator of a session.
\<close>

definition is_admin :: "peer \<Rightarrow> bool" where
  "is_admin p \<longleftrightarrow> (\<exists>sid s. GetSession sid (sm_of p) = Some s \<and> AdminPeerID s = ID p)"

definition may_assign :: "string list \<Rightarrow> peer \<Rightarrow> bool" where
  "may_assign ns p \<longleftrightarrow> Has (own_perms p) PermManageUserRoles \<or> Has (own_perms p) PermAddRemoveRoles
     \<or> ns = [] \<and> (Has (own_perms p) PermKickUser \<or> Has (own_perms p) PermBanUser) \<or> ns = [''Viewer''] \<and> is_admin p"

fun warranted :: "codec \<Rightarrow> effect \<Rightarrow> peer \<Rightarrow> bool" where
  "warranted K (Publish t m) p =
     (case m of
        PeerKicked x \<Rightarrow> may_expel K PermKickUser (pe_peer_id x) p
      | PeerBanned x \<Rightarrow> may_expel K PermBanUser (pe_peer_id x) p
      | RoleDefinitionsUpdate u \<Rightarrow> Has (own_perms p) PermAddRemoveRoles
      | ChatDeleteMsg d \<Rightarrow> Has (own_perms p) PermModerateChat
      | PlaybackStateMsg s \<Rightarrow> Has (own_perms p) PermPlayPause \<or> Has (own_perms p) PermSeek \<or> Has (own_perms p) PermSetSpeed
      | PeerRoleAssignment a \<Rightarrow> may_assign (pra_role_names a) p
      | AllPeerRoleAssignments s \<Rightarrow> False
      | PeerLeft l \<Rightarrow> pl_peer_id l = pid_string K (ID p)
      | _ \<Rightarrow> True)"
| "warranted K (PublishVideo t v) p \<longleftrightarrow>
     Has (own_perms p) PermStream \<and> snd (Head (queue_of p)) \<and> StoredBy (fst (Head (queue_of p))) = ID p"
| "warranted K _ p = True"

definition acts_warranted :: "codec \<Rightarrow> peer \<Rightarrow> peer \<Rightarrow> bool" where
  "acts_warranted K p = grows (\<lambda>e. warranted K e p) p"

lemma acts_warranted_same [simp]: "face p' = face p \<Longrightarrow> acts_warranted K p p'"
  by (simp add: acts_warranted_def grows_same)

lemma acts_warranted_says:
  assumes "acts_warranted K p q" "says P q r" "\<And>t m. P m \<Longrightarrow> warranted K (Publish t m) p"
  shows "acts_warranted K p r"
  using assms(1) grows_mono [OF assms(2) [unfolded says_def], of "\<lambda>e. warranted K e p"] assms(3)
  unfolding acts_warranted_def by (blast intro: grows_trans)

lemma acts_warranted_face: "acts_warranted K p q \<Longrightarrow> face r = face q \<Longrightarrow> acts_warranted K p r"
  by (simp add: acts_warranted_def grows_def)

lemma acts_warranted_tell:
  assumes "acts_warranted K p q" "\<And>t. warranted K (Publish t m) p"
  shows "acts_warranted K p (tell_all E m q)"
  using assms(1) grows_tell [of "\<lambda>e. warranted K e p" m q E] assms(2) unfolding acts_warranted_def by (blast intro: grows_trans)

text \<open>The end of an expulsion: the roles of the target are taken, then everybody is told.\<close>

lemma expulsion_warranted:
  assumes "face p1 = face p" "Has (own_perms p) PermKickUser \<or> Has (own_perms p) PermBanUser" "\<And>t. warranted K (Publish t m) p"
  shows "acts_warranted K p (tell_all E m (strip_roles_of E j p1))" "acts_warranted K p (tell_all E m (snd (now_hlc (strip_roles_of E j p1))))"
proof -
  have s: "acts_warranted K p (strip_roles_of E j p1)"
    by (rule acts_warranted_says [OF acts_warranted_same [OF assms(1)] strip_roles_says]) (use assms(2) in \<open>auto simp: assigns_def may_assign_def\<close>)
  show "acts_warranted K p (tell_all E m (strip_roles_of E j p1))" by (rule acts_warranted_tell [OF s assms(3)])
  have "acts_warranted K p (snd (now_hlc (strip_roles_of E j p1)))" by (rule acts_warranted_face [OF s]) simp
  then show "acts_warranted K p (tell_all E m (snd (now_hlc (strip_roles_of E j p1))))" by (rule acts_warranted_tell [OF _ assms(3)])
qed

lemma expelled_warranted:
  "acts_warranted (codec_of E) p (handleKickPeerCmd E c (ID p) p)" "acts_warranted (codec_of E) p (handleBanPeerCmd E c (ID p) p)"
  by (auto simp: handleKickPeerCmd_def handleBanPeerCmd_def may_expel_def own_perms_def Let_def case_prod_beta
      intro!: expulsion_warranted split: option.split sum.split)

lemma session_snapshot_face [simp]: "face (snd (session_snapshot E s p)) = face p"
  by (simp add: session_snapshot_def Let_def case_prod_beta)

lemma auth_warranted: "acts_warranted (codec_of E) p (snd (handleAuthStream E j req p))"
proof -
  have f: "face q = face p" if "on_sessions (AddPeerToSession K sid i u rs) p = (x, q)" for K sid i u rs x q
    using face_base(13) [of "AddPeerToSession K sid i u rs" p] that by simp
  have g: "face r = face q" if "session_snapshot E s q = (d, r)" for s q d r
    using session_snapshot_face [of E s q] that by simp
  have a: "acts_warranted (codec_of E) p (announce_member E i u q)" if "face q = face p" "is_admin p" for i u q
    by (rule acts_warranted_says [OF acts_warranted_same [OF that(1)] announce_member_says]) (use that(2) in \<open>auto simp: assigns_def may_assign_def\<close>)
  have adm: "is_admin p" if "GetSession s (sm_of p) = Some x" "AdminPeerID x = ID p" for s x
    using that by (auto simp: is_admin_def)
  show ?thesis
    by (auto simp: handleAuthStream_def Let_def f g intro!: a split: option.split sum.split prod.split intro: adm)
qed

lemma left_warranted: "acts_warranted (codec_of E) p (tell_left E reason q)" if "face q = face p" for q
  by (rule acts_warranted_says [OF acts_warranted_same [OF that] tell_left_says]) (use that in \<open>auto simp: ID_face\<close>)

lemma leave_warranted: "acts_warranted (codec_of E) p (handleLeaveSession E sid p)" "acts_warranted (codec_of E) p (stream_closed E p)"
proof -
  have l: "acts_warranted (codec_of E) p (SetCurrentSessionID s (snd (JoinSessionTopics E s (tell_left E reason q))))" if "face q = face p" for s reason q
    by (rule acts_warranted_face [OF left_warranted [OF that]]) simp
  have "acts_warranted (codec_of E) p ((tell_left E reason p)\<lparr>hub_of := h\<rparr>)" for reason h
    by (rule acts_warranted_face [OF left_warranted [OF refl]]) simp
  then show "acts_warranted (codec_of E) p (stream_closed E p)" by (simp add: stream_closed_def Let_def)
  show "acts_warranted (codec_of E) p (handleLeaveSession E sid p)" by (auto simp: handleLeaveSession_def Let_def intro!: l)
qed

lemma ID_playback [simp]: "ID (UpdateLastKnownPlaybackState s p) = ID p"
  by (simp add: ID_face)

lemma remove_role_warranted: "acts_warranted K p (handleRemoveRoleCmd E n (ID p) p)"
proof -
  have "acts_warranted K p (fold (tell_assignment E) as (tell_all E (RoleDefinitionsUpdate u) q))"
    if "face q = face p" "Has (own_perms p) PermAddRemoveRoles" for as u q
    by (rule acts_warranted_says [OF acts_warranted_tell [OF acts_warranted_same [OF that(1)]] tell_assignments_say])
      (use that(2) in \<open>auto simp: assigns_def may_assign_def\<close>)
  then show ?thesis
    by (auto simp: handleRemoveRoleCmd_def own_perms_def Let_def case_prod_beta split: sum.split)
qed

lemma roles_warranted:
  "acts_warranted K p (handleSetPeerRolesCmd E target names (ID p) p)"
  "acts_warranted K p (handleUpdateRoleCmd E d (ID p) p)"
  "acts_warranted K p (handleChatDeleteCmd E mid h (ID p) p)" "acts_warranted K p (handlePlaybackStateCmd s p)"
  by (auto simp: acts_warranted_def grows_def handleSetPeerRolesCmd_def handleUpdateRoleCmd_def handleChatDeleteCmd_def
      handlePlaybackStateCmd_def face_tell_all face_chatTopic face_controlTopic face_publish own_perms_def may_assign_def
      Let_def case_prod_beta split: option.splits if_splits sum.splits)

text \<open>Everything that happens at one service without a message from another one; the answers of others within a join are in \<open>N\<close>.\<close>

inductive local_step :: "codec \<Rightarrow> peer \<Rightarrow> peer \<Rightarrow> bool" for K :: codec where
  loc_opened: "codec_of E = K \<Longrightarrow> local_step K p (stream_opened E cs p)"
| loc_message: "codec_of E = K \<Longrightarrow> client_step E N cs m p = Some p' \<Longrightarrow> local_step K p p'"
| loc_closed: "codec_of E = K \<Longrightarrow> local_step K p (stream_closed E p)"
| loc_segment: "local_step K p (processSegmentEvents wire_size pub_ok p)"
| loc_auth: "codec_of E = K \<Longrightarrow> local_step K p (snd (handleAuthStream E remote request p))"
| loc_starts: "codec_of E = K \<Longrightarrow> t \<in> set (tasks (nd p)) \<Longrightarrow> \<not> t_entered t \<Longrightarrow> local_step K p (runner_enter E t p)"
| loc_returns: "codec_of E = K \<Longrightarrow> t \<in> set (tasks (nd p)) \<Longrightarrow> t_entered t \<Longrightarrow> local_step K p (runner_leave E t r p)"
| loc_react: "codec_of E = K \<Longrightarrow> local_step K p (ReactToQueueUpdate E p)"
| loc_playlist: "local_step K p (snd (playlist_request p))"
| loc_put: "local_step K p (p\<lparr>ring := snd (ingest_handler meth path sent g now (ring p))\<rparr>)"
| loc_status: "local_step K p (broadcast_status E p)"
| loc_dropped: "local_step K p (p\<lparr>hub_of := run_doomed i (hub_of p)\<rparr>)"

lemma local_service: "local_step K p p' \<Longrightarrow> service_step p p'"
  by (induction rule: local_step.induct) (auto intro: service_step.intros)

lemma own_perms_sync [simp]:
  "own_perms (sync_hlc h p) = own_perms p" "GetCurrentSessionID (sync_hlc h p) = GetCurrentSessionID p" "sm_of (sync_hlc h p) = sm_of p"
  "queue_of (sync_hlc h p) = queue_of p" "ID (sync_hlc h p) = ID p"
  by (simp_all add: own_perms_def sync_hlc_def update_hlc_def ID_def GetCurrentSessionID_def queue_of_def)

lemma warranted_sync [simp]: "warranted K e (sync_hlc h p) = warranted K e p"
  by (cases e) (auto simp: may_expel_def may_assign_def is_admin_def split: server_msg.split)

lemma face_process [simp]: "face (processAdminJoinResponse E resp admin p) = face p"
proof -
  have "face (apply_session_snapshot E admin d q) = face q" for d q
    by (simp add: apply_session_snapshot_def Let_def split: option.split)
  then show ?thesis by (simp add: processAdminJoinResponse_def Let_def case_prod_beta split: option.split)
qed

lemma face_sessions [simp]:
  "face (handleCreateSession E N cs name user p) = face p" "face (handleJoinSession E N cs sid usr p) = face p"
  "face (handleChatCmd E N txt h p) = face p" "face (handleQueueCmd E q p) = face p"
proof -
  have "face p1 = face p" if "on_sessions f p = (x, p1)" for f :: "_ \<Rightarrow> 'a \<times> _" and x p1
    using face_base(13) [of f p] that by simp
  then show "face (handleCreateSession E N cs name user p) = face p"
    by (auto simp: handleCreateSession_def split: prod.split sum.split)
  show "face (handleJoinSession E N cs sid usr p) = face p"
    by (auto simp: handleJoinSession_def join_error_def Let_def split: option.split sum.split)
  show "face (handleChatCmd E N txt h p) = face p" by (simp add: handleChatCmd_def Let_def)
  show "face (handleQueueCmd E q p) = face p" by (simp add: handleQueueCmd_def)
qed

lemma client_warranted:
  assumes "client_step E N cs m p = Some p'"
  shows "acts_warranted (codec_of E) p p'"
proof -
  have "acts_warranted (codec_of E) q (client_switch E N cs m q)" for q
    by (cases m) (auto simp: expelled_warranted roles_warranted remove_role_warranted leave_warranted)
  from this [of "sync_hlc (client_hlc m) p"] show ?thesis
    using assms by (simp add: client_step_def acts_warranted_def grows_def split: if_splits)
qed

lemma segment_warranted: "acts_warranted K p (processSegmentEvents wire_size pub_ok p)"
  by (auto simp: processSegmentEvents_def acts_warranted_def grows_def face_def AddBytesUp_def on_node_def own_perms_def ID_def queue_of_def Let_def case_prod_beta
      split: option.splits if_splits)

lemma local_warranted: "local_step K p p' \<Longrightarrow> acts_warranted K p p'"
  by (induction rule: local_step.induct)
    (auto simp: client_warranted segment_warranted auth_warranted leave_warranted playlist_request_def broadcast_status_def Let_def case_prod_beta split: option.split)

section \<open>The network\<close>

type_synonym network = "(peer_id, peer) gomap"

inductive net_step :: "codec \<Rightarrow> network \<Rightarrow> network \<Rightarrow> bool" for K :: codec where
  net_start: "codec_of E = K \<Longrightarrow> mget net i = None \<Longrightarrow> main_init E i rs nomdns c0 = Some p \<Longrightarrow> net_step K net (mput net i p)"
| net_local: "mget net i = Some p \<Longrightarrow> local_step K p p' \<Longrightarrow> net_step K net (mput net i p')"
| net_control: "codec_of E = K \<Longrightarrow> mget net i = Some p \<Longrightarrow> mget net src = Some q \<Longrightarrow> Publish t m \<in> set (trace q) \<Longrightarrow>
    mget net via = Some r \<Longrightarrow> net_step K net (mput net i (processControlTopicMessages E via (Some m) p))"
| net_chat: "codec_of E = K \<Longrightarrow> mget net i = Some p \<Longrightarrow> mget net src = Some q \<Longrightarrow> Publish t m \<in> set (trace q) \<Longrightarrow>
    mget net via = Some r \<Longrightarrow> net_step K net (mput net i (processChatTopicMessages E via (Some m) p))"
| net_video: "mget net i = Some p \<Longrightarrow> mget net src = Some q \<Longrightarrow> PublishVideo t v \<in> set (trace q) \<Longrightarrow> mget net via = Some r \<Longrightarrow>
    net_step K net (mput net i (processVideoSegmentMessages via (Some v) msz now p))"

lemma local_face: "local_step K p p' \<Longrightarrow> ID p' = ID p"
  using local_warranted [of K p p'] by (simp add: acts_warranted_def grows_def ID_face)

lemma start_face:
  assumes "main_init E i rs nomdns c0 = Some p" shows "ID p = i" "acts p = []"
proof -
  have w: "face (wire i rm c rb b) = (i, [])" for rm c rb b by (simp add: wire_def face_def ID_def NewNode_def)
  have "face p = (i, [])" using assms
    by (auto simp: main_init_def Let_def w case_prod_beta split: option.splits)
  then show "ID p = i" "acts p = []" by (simp_all add: ID_face)
qed

definition net_ok :: "network \<Rightarrow> bool" where
  "net_ok net \<longleftrightarrow> (\<forall>i p. mget net i = Some p \<longrightarrow> ID p = i \<and> service_ok p)"

lemma net_ok_put: "net_ok net \<Longrightarrow> ID p = i \<Longrightarrow> service_ok p \<Longrightarrow> net_ok (mput net i p)"
  by (simp add: net_ok_def)

lemma net_okD: "net_ok net \<Longrightarrow> mget net i = Some p \<Longrightarrow> ID p = i \<and> service_ok p"
  by (simp add: net_ok_def)

lemma net_ok_change:
  assumes "net_ok net" "mget net i = Some p" "service_step p p'" "ID p' = ID p"
  shows "net_ok (mput net i p')"
proof (rule net_ok_put [OF assms(1)])
  show "ID p' = i" "service_ok p'" using net_okD [OF assms(1,2)] assms(3,4) service_ok_step by simp_all
qed

lemma ID_received:
  "ID (processControlTopicMessages E src m p) = ID p" "ID (processChatTopicMessages E src m p) = ID p"
  "ID (processVideoSegmentMessages src seg msz now p) = ID p"
  by (simp_all add: ID_face)

lemma net_ok_step: "net_step K net net' \<Longrightarrow> net_ok net \<Longrightarrow> net_ok net'"
proof (induction rule: net_step.induct)
  case (net_start E net i rs nomdns c0 p)
  show ?case by (rule net_ok_put [OF net_start(4) start_face(1) [OF net_start(3)] service_ok_init [OF net_start(3)]])
next
  case (net_local net i p p')
  show ?case by (rule net_ok_change [OF net_local(3,1) local_service [OF net_local(2)] local_face [OF net_local(2)]])
next
  case (net_control E net i p src q t m via r)
  show ?case by (rule net_ok_change [OF net_control(6,2) control_message ID_received(1)])
next
  case (net_chat E net i p src q t m via r)
  show ?case by (rule net_ok_change [OF net_chat(6,2) chat_message ID_received(2)])
next
  case (net_video net i p src q t v via r msz now)
  show ?case by (rule net_ok_change [OF net_video(5,1) video_message ID_received(3)])
qed

interpretation network_runs: step_invariant "net_step K" "\<lambda>net. net = []" net_ok
  by unfold_locales (simp add: net_ok_def, rule net_ok_step)

text \<open>One step publishes restricted messages at one peer at most, and only with the right to.\<close>

lemma net_step_acts:
  assumes "net_step K net net'" "mget net' i = Some p'"
  shows "(mget net i = None \<and> acts p' = []) \<or> (\<exists>p. mget net i = Some p \<and> acts_warranted K p p')"
  using assms
proof (induction rule: net_step.induct)
  case (net_start E net j rs nomdns c0 p)
  then show ?case using start_face(2) by (auto split: if_splits)
next
  case (net_local net j p q)
  then show ?case using local_warranted [of K p q] by (auto split: if_splits)
qed (auto split: if_splits)

text \<open>The step from \<open>net\<close> to \<open>net'\<close> publishes \<open>e\<close> at \<open>i\<close>, which is \<open>p\<close> before it.\<close>

definition publishes :: "codec \<Rightarrow> peer_id \<Rightarrow> effect \<Rightarrow> network \<Rightarrow> network \<Rightarrow> peer \<Rightarrow> bool" where
  "publishes K i e net net' p \<longleftrightarrow> net_step K net net' \<and> mget net i = Some p
     \<and> (\<exists>p'. mget net' i = Some p' \<and> count_list (trace p) e < count_list (trace p') e)"

text \<open>
  Before \<open>net\<close> the effect \<open>e\<close> has been published at \<open>i\<close>, and each time it was, \<open>i\<close> was in a state that satisfies \<open>R\<close>.
\<close>

definition had_right :: "codec \<Rightarrow> peer_id \<Rightarrow> effect \<Rightarrow> (peer \<Rightarrow> bool) \<Rightarrow> network \<Rightarrow> bool" where
  "had_right K i e R net \<longleftrightarrow>
     (\<exists>net0 net1 p0. (net_step K)\<^sup>*\<^sup>* [] net0 \<and> publishes K i e net0 net1 p0 \<and> (net_step K)\<^sup>*\<^sup>* net1 net)
     \<and> (\<forall>net0 net1 p0. (net_step K)\<^sup>*\<^sup>* [] net0 \<longrightarrow> publishes K i e net0 net1 p0 \<longrightarrow> (net_step K)\<^sup>*\<^sup>* net1 net \<longrightarrow> R p0)"

lemma had_right_mono: "had_right K i e R net \<Longrightarrow> (\<And>p. R p \<Longrightarrow> S p) \<Longrightarrow> had_right K i e S net"
  unfolding had_right_def by blast

lemma count_restricted: "restricted e \<Longrightarrow> count_list (trace p) e = count_list (acts p) e"
proof -
  have "count_list xs e = count_list (filter restricted xs) e" if "restricted e" for xs
    using that by (induction xs) auto
  then show "restricted e \<Longrightarrow> count_list (trace p) e = count_list (acts p) e" by (simp add: face_def)
qed

lemma publishes_warranted:
  assumes "publishes K i e net net' p" "restricted e" shows "warranted K e p"
proof -
  obtain p' where p': "net_step K net net'" "mget net i = Some p" "mget net' i = Some p'" "count_list (acts p) e < count_list (acts p') e"
    using assms by (auto simp: publishes_def count_restricted)
  then obtain es where "acts p' = acts p @ es" "\<forall>e \<in> set es. warranted K e p"
    using net_step_acts [OF p'(1,3)] by (auto simp: acts_warranted_def grows_def)
  with p'(4) show ?thesis by (auto intro: ccontr simp: count_notin)
qed

text \<open>What a peer has published, some step has published.\<close>

lemma was_published:
  assumes "(net_step K)\<^sup>*\<^sup>* [] net" "mget net i = Some p" "restricted e" "e \<in> set (trace p)"
  shows "\<exists>net0 net1 p0. (net_step K)\<^sup>*\<^sup>* [] net0 \<and> publishes K i e net0 net1 p0 \<and> (net_step K)\<^sup>*\<^sup>* net1 net"
  using assms(1,2,4)
proof (induction arbitrary: p rule: rtranclp_induct)
  case (step net net')
  have "e \<in> set (acts p)" using step.prems assms(3) by (simp add: face_def)
  with net_step_acts [OF step.hyps(2) step.prems(1)] obtain q where q: "mget net i = Some q" by auto
  show ?case
  proof (cases "e \<in> set (trace q)")
    case True
    with step.IH [OF q] step.hyps(2) show ?thesis by (meson rtranclp.rtrancl_into_rtrancl)
  next
    case False
    with q step.hyps(2) step.prems have "publishes K i e net net' q"
      by (auto simp: publishes_def count_notin) (metis count_list_0_iff gr0I)
    with step.hyps(1) show ?thesis by blast
  qed
qed simp

lemma net_identity:
  assumes "(net_step K)\<^sup>*\<^sup>* [] net" "mget net i = Some p" shows "ID p = i"
  using network_runs.inv_reachable [OF assms(1)] net_okD [OF _ assms(2)] by simp

text \<open>Whatever restricted message a peer of the network has published, it had the right to when it published it.\<close>

lemma net_right:
  assumes "(net_step K)\<^sup>*\<^sup>* [] net" "mget net src = Some q" "restricted e" "e \<in> set (trace q)"
  shows "had_right K src e (\<lambda>q0. ID q0 = src \<and> warranted K e q0) net"
  unfolding had_right_def
proof (intro conjI allI impI)
  show "\<exists>net0 net1 p0. (net_step K)\<^sup>*\<^sup>* [] net0 \<and> publishes K src e net0 net1 p0 \<and> (net_step K)\<^sup>*\<^sup>* net1 net"
    by (rule was_published [OF assms])
next
  fix net0 net1 p0
  assume r: "(net_step K)\<^sup>*\<^sup>* [] net0" and p: "publishes K src e net0 net1 p0"
  show "ID p0 = src" using net_identity [OF r] p by (simp add: publishes_def)
  show "warranted K e p0" by (rule publishes_warranted [OF p assms(3)])
qed

section \<open>Properties\<close>

text \<open>
  A network of services. In every run of any number of services, however their messages are delayed, lost, repeated and
  reordered, each keeps its identity and all its invariants.
\<close>

theorem network_invariant:
  assumes "(net_step K)\<^sup>*\<^sup>* [] net" "mget net i = Some p"
  shows "ID p = i \<and> queue_ok (queue_of p) \<and> runs_ok (nd p) \<and> rm_ok (rm_of p) \<and> sm_ok (sm_of p)"
  using network_runs.inv_reachable [OF assms(1)] assms(2) by (auto simp: net_ok_def service_ok_def peer_ok_def)

text \<open>
  C7. Authority in a network of services. Gossip is not checked by its receivers, but as long as every peer runs this program the
  check at the publisher is enough, whichever peer hands the message on. When a control message takes a peer out of its session, its
  publisher had, each time it published that message, the permission to kick or to ban in its own role table and the peer as a member of its
  own current session; when it changes the role definitions, the publisher had the permission to change them; when it changes the queue, the
  receiver grants \<open>PermQueue\<close> to the peer that handed the message on, who need not be its publisher; and a segment that is taken into
  the window comes from a publisher that stored the current item of its queue and had the permission to stream when it published it. Every
  peer is the administrator of its own table when it starts, unless its \<open>-roles\<close> flag says otherwise.
\<close>

theorem network_authority:
  fixes E :: env
  assumes "codec_ok (codec_of E)" "(net_step (codec_of E))\<^sup>*\<^sup>* [] net" "mget net i = Some p" "mget net src = Some q"
  shows "(\<forall>t m. Publish t m \<in> set (trace q) \<longrightarrow>
      (let p' = processControlTopicMessages E via (Some m) p in
        (GetCurrentSessionID p' \<noteq> GetCurrentSessionID p \<longrightarrow> had_right (codec_of E) src (Publish t m) (\<lambda>q0.
          (Has (GetPermissionsForPeer (rm_of q0) src) PermKickUser \<or> Has (GetPermissionsForPeer (rm_of q0) src) PermBanUser)
          \<and> IsPeerInSession (GetCurrentSessionID q0) i (sm_of q0)) net)
      \<and> (definitions (rm_of p') \<noteq> definitions (rm_of p) \<longrightarrow> had_right (codec_of E) src (Publish t m) (\<lambda>q0.
          Has (GetPermissionsForPeer (rm_of q0) src) PermAddRemoveRoles) net)
      \<and> (content (queue_of p') \<noteq> content (queue_of p) \<longrightarrow> Has (GetPermissionsForPeer (rm_of p) via) PermQueue)))
    \<and> (\<forall>t v msz now. PublishVideo t v \<in> set (trace q) \<longrightarrow> ring (processVideoSegmentMessages via (Some v) msz now p) \<noteq> ring p \<longrightarrow>
        had_right (codec_of E) src (PublishVideo t v) (\<lambda>q0. Has (GetPermissionsForPeer (rm_of q0) src) PermStream
          \<and> (\<exists>x. Head (queue_of q0) = (x, True) \<and> StoredBy x = src)) net)"
proof -
  let ?K = "codec_of E"
  note right = net_right [OF assms(2,4)]
  have id: "ID p = i" using net_identity [OF assms(2,3)] .
  have inj: "j = i" if "pid_string ?K j = pid_string ?K i" for j using that assms(1) by (metis codec_ok_decode option.inject)
  have expel: "had_right ?K src (Publish t m) (\<lambda>q0. (Has (GetPermissionsForPeer (rm_of q0) src) PermKickUser
        \<or> Has (GetPermissionsForPeer (rm_of q0) src) PermBanUser) \<and> IsPeerInSession (GetCurrentSessionID q0) i (sm_of q0)) net"
    if pub: "Publish t m \<in> set (trace q)" and x: "m = PeerKicked x \<or> m = PeerBanned x" "pe_peer_id x = pid_string ?K i" for t m x
  proof -
    have "restricted (Publish t m)" using x by auto
    from right [OF this pub] show ?thesis by (rule had_right_mono) (use x inj in \<open>auto simp: may_expel_def own_perms_def\<close>)
  qed
  have control: "(GetCurrentSessionID p' \<noteq> GetCurrentSessionID p \<longrightarrow> had_right ?K src (Publish t m) (\<lambda>q0.
          (Has (GetPermissionsForPeer (rm_of q0) src) PermKickUser \<or> Has (GetPermissionsForPeer (rm_of q0) src) PermBanUser)
          \<and> IsPeerInSession (GetCurrentSessionID q0) i (sm_of q0)) net)
      \<and> (definitions (rm_of p') \<noteq> definitions (rm_of p) \<longrightarrow> had_right ?K src (Publish t m) (\<lambda>q0.
          Has (GetPermissionsForPeer (rm_of q0) src) PermAddRemoveRoles) net)
      \<and> (content (queue_of p') \<noteq> content (queue_of p) \<longrightarrow> Has (GetPermissionsForPeer (rm_of p) via) PermQueue)"
    if pub: "Publish t m \<in> set (trace q)" and p': "p' = processControlTopicMessages E via (Some m) p" for t m p'
  proof (intro conjI impI)
    note frame = control_message_frame [OF p']
    assume neq: "GetCurrentSessionID p' \<noteq> GetCurrentSessionID p"
    obtain x where x: "m = PeerKicked x \<or> m = PeerBanned x" "pe_peer_id x = pid_string ?K i"
      using frame [THEN conjunct2, THEN conjunct2, THEN conjunct1] neq id by auto
    from expel [OF pub x] show "had_right ?K src (Publish t m) (\<lambda>q0. (Has (GetPermissionsForPeer (rm_of q0) src) PermKickUser
        \<or> Has (GetPermissionsForPeer (rm_of q0) src) PermBanUser) \<and> IsPeerInSession (GetCurrentSessionID q0) i (sm_of q0)) net" .
  next
    assume neq: "definitions (rm_of p') \<noteq> definitions (rm_of p)"
    then obtain u where u: "m = RoleDefinitionsUpdate u"
      using control_message_frame [OF p', THEN conjunct2, THEN conjunct2, THEN conjunct2] by auto
    then have "restricted (Publish t m)" by simp
    from right [OF this pub] show "had_right ?K src (Publish t m) (\<lambda>q0. Has (GetPermissionsForPeer (rm_of q0) src) PermAddRemoveRoles) net"
      by (rule had_right_mono) (use u in \<open>auto simp: own_perms_def\<close>)
  qed (use control_message_frame [OF p'] in blast)
  have video: "had_right ?K src (PublishVideo t v) (\<lambda>q0. Has (GetPermissionsForPeer (rm_of q0) src) PermStream
      \<and> (\<exists>x. Head (queue_of q0) = (x, True) \<and> StoredBy x = src)) net" if "PublishVideo t v \<in> set (trace q)" for t v
    using right [OF _ that] by (rule had_right_mono) (auto simp: own_perms_def prod_eq_iff)
  from control video show ?thesis by (simp add: Let_def)
qed

section \<open>The order of queue updates\<close>

text \<open>The control messages a peer receives, in the order in which they arrive.\<close>

definition deliver :: "env \<Rightarrow> (peer_id \<times> server_msg) list \<Rightarrow> peer \<Rightarrow> peer" where
  "deliver E ms q = fold (\<lambda>(src, m). processControlTopicMessages E src (Some m)) ms q"

lemma deliver_simps [simp]:
  "deliver E [] q = q" "deliver E ((src, m) # ms) q = deliver E ms (processControlTopicMessages E src (Some m) q)"
  "deliver E (ms @ ns) q = deliver E ns (deliver E ms q)"
  by (simp_all add: deliver_def)

lemma ID_deliver [simp]: "ID (deliver E ms q) = ID q"
  by (induction ms arbitrary: q) (auto simp: ID_received)

lemma deliver_content:
  assumes "\<forall>(src, m) \<in> set ms. \<forall>u. m \<noteq> QueueUpdate u"
  shows "content (queue_of (deliver E ms q)) = content (queue_of q)"
  using assms
proof (induction ms arbitrary: q)
  case (Cons x ms)
  obtain src m where x: "x = (src, m)" by (cases x)
  have "content (queue_of (processControlTopicMessages E src (Some m) q)) = content (queue_of q)"
    using control_message_frame [OF refl, of E src "Some m" q] Cons.prems x by auto
  then show ?case using Cons by (simp add: x)
qed simp

text \<open>
  C19. The last delivery decides. Whatever messages a peer has received before and whatever it receives afterwards except other
  queue updates, its items are those of the last update that arrived from a sender it grants \<open>PermQueue\<close>. So peers that received the
  same update last agree, and peers that received two updates in different orders do not: the time stamps of the
  updates, unlike those of role assignments, are not compared.
\<close>

theorem queue_last_delivery_wins:
  assumes "codec_ok (codec_of E)" "ID q \<noteq> src" "Has (GetPermissionsForPeer (rm_of (deliver E before q)) src) PermQueue"
    "qu_items u = map (pb_item (codec_of E)) ys" "\<forall>(s, m) \<in> set after. \<forall>u. m \<noteq> QueueUpdate u"
  shows "zeroed (Items (queue_of (deliver E (before @ [(src, QueueUpdate u)] @ after) q))) = zeroed ys"
proof -
  have "zeroed (Items (queue_of (processControlTopicMessages E src (Some (QueueUpdate u)) (deliver E before q)))) = zeroed ys"
    using received_queue [OF assms(1) _ assms(3,4)] assms(2) by simp
  then show ?thesis using zeroed_content [OF deliver_content [OF assms(5)]] by simp
qed

text \<open>The role assignments in a control message, in the order in which they are applied; \<open>steady\<close> messages are those that change the role table in no other way.\<close>

definition assignment_update :: "codec \<Rightarrow> peer_role_assignment \<Rightarrow> role_update option" where
  "assignment_update K a =
     map_option (\<lambda>i. \<lparr>ru_peer = i, ru_names = pra_role_names a, ru_ts = pra_hlc_ts a\<rparr>) (pid_decode K (pra_peer_id a))"

fun role_updates :: "codec \<Rightarrow> server_msg \<Rightarrow> role_update list" where
  "role_updates K (PeerRoleAssignment a) = List.map_filter (assignment_update K) [a]"
| "role_updates K (AllPeerRoleAssignments s) = List.map_filter (assignment_update K) (List.map_filter (\<lambda>a. a) (apra_assignments s))"
| "role_updates K _ = []"

fun steady :: "codec \<Rightarrow> peer_id \<Rightarrow> server_msg \<Rightarrow> bool" where
  "steady K i (RoleDefinitionsUpdate u) = False"
| "steady K i (PeerLeft l) = (pid_decode K (pl_peer_id l) = None)"
| "steady K i (PeerKicked x) = (pe_peer_id x \<noteq> pid_string K i)"
| "steady K i (PeerBanned x) = (pe_peer_id x \<noteq> pid_string K i)"
| "steady K i _ = True"

lemma apply_assignments_updates:
  "apply_assignments K as rm = fold deliver_update (List.map_filter (assignment_update K) (List.map_filter (\<lambda>a. a) as)) rm"
  by (induction K as rm rule: apply_assignments.induct)
    (simp_all add: List.map_filter_simps assignment_update_def deliver_update_def split: option.split)

lemma received_assignments:
  assumes "steady (codec_of E) (ID q) m" "ID q \<noteq> src"
  shows "rm_of (processControlTopicMessages E src (Some m) q) = fold deliver_update (role_updates (codec_of E) m) (rm_of q)"
  using assms
  by (cases m)
    (auto simp: processControlTopicMessages_def handleGossipQueueUpdate_def handleGossipPeerRoleAssignment_def
      handleGossipAllPeerRoleAssignments_def handleGossipPlaylistReset_def handleGossipPlaybackStateCmd_def
      handleGossipLocalPeerIdentity_def handleGossipPeerLeft_def expelled_def ApplyAllAssignmentsSnapshot_def
      apply_assignments_updates deliver_update_def assignment_update_def List.map_filter_simps Let_def
      split: option.split sum.split prod.split)

lemma delivered_assignments:
  assumes "\<forall>(src, m) \<in> set ms. steady (codec_of E) (ID q) m \<and> src \<noteq> ID q"
  shows "rm_of (deliver E ms q) = fold deliver_update (concat (map (role_updates (codec_of E) \<circ> snd) ms)) (rm_of q)"
  using assms
proof (induction ms arbitrary: q)
  case (Cons x ms)
  obtain src m where x: "x = (src, m)" by (cases x)
  with Cons.prems received_assignments [of E q m src] Cons.IH [of "processControlTopicMessages E src (Some m) q"]
  show ?case by (auto simp: ID_received)
qed simp

text \<open>
  C15. Strong convergence of role grants. Two peers start with the same role table and receive control messages none of which changes the role
  definitions, announces a departure or expels the receiver itself. If among these messages are the same role assignments, one by one
  or in snapshots, in any order and any number of times, both peers give everybody the same roles and permissions. The assignments
  name at least one role each, all of them defined, and different assignments for one peer carry different time stamps: assignments of no role,
  departures and definitions do not converge in this way.
\<close>

theorem roles_converge:
  assumes "\<forall>(src, m) \<in> set ms. steady (codec_of E) (ID q) m \<and> src \<noteq> ID q"
    and "\<forall>(src, m) \<in> set ms'. steady (codec_of E) (ID q') m \<and> src \<noteq> ID q'"
    and "(\<Union>(src, m) \<in> set ms. set (role_updates (codec_of E) m)) = (\<Union>(src, m) \<in> set ms'. set (role_updates (codec_of E) m))"
    and "\<forall>(src, m) \<in> set ms. \<forall>u \<in> set (role_updates (codec_of E) m). update_valid (rm_of q) u"
    and "\<forall>(src, m) \<in> set ms. \<forall>(src', m') \<in> set ms. \<forall>u \<in> set (role_updates (codec_of E) m). \<forall>u' \<in> set (role_updates (codec_of E) m').
      ru_peer u = ru_peer u' \<longrightarrow> ru_ts u = ru_ts u' \<longrightarrow> u = u'"
    and "rm_of q' = rm_of q"
  shows "GetPermissionsForPeer (rm_of (deliver E ms q)) i = GetPermissionsForPeer (rm_of (deliver E ms' q')) i
    \<and> fst (GetAssignedRoles i (rm_of (deliver E ms q))) = fst (GetAssignedRoles i (rm_of (deliver E ms' q')))"
proof -
  let ?us = "concat (map (role_updates (codec_of E) \<circ> snd) ms)" and ?us' = "concat (map (role_updates (codec_of E) \<circ> snd) ms')"
  have "role_entry (fold deliver_update ?us (rm_of q)) = role_entry (fold deliver_update ?us' (rm_of q))"
    by (rule role_lww.same_set) (use assms(3-5) in \<open>auto simp: case_prod_beta signed_word_eqI\<close>)
  then show ?thesis
    unfolding delivered_assignments [OF assms(1)] delivered_assignments [OF assms(2)] assms(6) by (rule role_entry_perms) simp
qed

section \<open>Where permissions come from\<close>

lemma applied_names:
  assumes "rm' = snd (ApplyPeerAssignment j ns ts rm)"
  shows "definitions rm' = definitions rm"
    "fst (GetAssignedRoles k rm') = fst (GetAssignedRoles k rm) \<or> k = j \<and> fst (GetAssignedRoles k rm') = normalized ns"
  using assms by (auto simp: ApplyPeerAssignment_def GetAssignedRoles_def normalize_names_Inr split: sum.split option.split)

lemma applied_gain:
  assumes "Has (GetPermissionsForPeer (snd (ApplyPeerAssignment j ns ts rm)) k) x" "\<not> Has (GetPermissionsForPeer rm k) x"
  shows "ns \<noteq> [] \<and> k = j \<and> fst (GetAssignedRoles k (snd (ApplyPeerAssignment j ns ts rm))) = normalized ns"
  using assms applied_names(1) [OF refl, where j = j and ns = ns and ts = ts and rm = rm] applied_names(2) [OF refl, where j = j and ns = ns and ts = ts and rm = rm and k = k]
  by (auto simp: GetPermissionsForPeer_Has normalized_def)

lemma expelled_gain:
  assumes "Has (GetPermissionsForPeer (rm_of (expelled E x m p)) k) y" "\<not> Has (GetPermissionsForPeer (rm_of p) k) y"
  shows "k = ID p \<and> pe_peer_id x = pid_string (codec_of E) (ID p)"
proof -
  let ?q = "SetCurrentSessionID ''default'' (snd (JoinSessionTopics E ''default'' p))"
  have q: "rm_of ?q = rm_of p" "ID ?q = ID p" by (simp, simp add: ID_face)
  have "rm_of (leave_expelled E p) = fst (snd (SetPeerRoles (codec_of E) (ID p) [''Admin''] (rm_of p, clk ?q)))"
    using q by (auto simp: leave_expelled_def on_roles_def Let_def case_prod_beta split: sum.split option.split)
  moreover have other: "GetPermissionsForPeer (fst (snd (SetPeerRoles K j ns (rm, c)))) k = GetPermissionsForPeer rm k" if "k \<noteq> j" for K j ns rm c
    using that by (auto simp: SetPeerRoles_def Let_def case_prod_beta GetAssignedRoles_def intro!: GetPermissionsForPeer_cong split: sum.split)
  ultimately show ?thesis using assms by (cases "k = ID p") (auto simp: expelled_def other split: if_splits)
qed

text \<open>What the right to assign roles, and the right to expel, mean for permissions.\<close>

definition may_grant :: "peer_id \<Rightarrow> peer \<Rightarrow> bool" where
  "may_grant i p \<longleftrightarrow> Has (GetPermissionsForPeer (rm_of p) i) PermManageUserRoles \<or> Has (GetPermissionsForPeer (rm_of p) i) PermAddRemoveRoles"

definition may_remove :: "peer_id \<Rightarrow> peer_id \<Rightarrow> peer \<Rightarrow> bool" where
  "may_remove i j p \<longleftrightarrow> (Has (GetPermissionsForPeer (rm_of p) i) PermKickUser \<or> Has (GetPermissionsForPeer (rm_of p) i) PermBanUser)
     \<and> IsPeerInSession (GetCurrentSessionID p) j (sm_of p)"

lemma assignment_right:
  assumes "ID q0 = src" "may_assign ns q0" "ns \<noteq> []"
  shows "may_grant src q0 \<or> is_admin q0 \<and> normalized ns = [''viewer'']"
  using assms normalized_Viewer by (auto simp: may_assign_def may_grant_def own_perms_def)

lemma expulsion_right:
  assumes "codec_ok K" "ID q0 = src" "may_expel K PermKickUser (pid_string K i) q0 \<or> may_expel K PermBanUser (pid_string K i) q0"
  shows "may_remove src i q0"
proof -
  have inj: "j = i" if "pid_string K j = pid_string K i" for j using that assms(1) by (metis codec_ok_decode option.inject)
  show ?thesis using assms(2,3) by (auto simp: may_expel_def may_remove_def own_perms_def dest: inj [OF sym])
qed

text \<open>
  C8. Permissions are granted with authority. As long as every peer runs this program, and whichever peer hands it on, a control message
  that gives a peer a permission it did not have at the receiver comes from a publisher that, each time it published the message, had the
  permission to manage roles or to define them in its own role table; or was the administrator of a session, and then all the message gives
  is the role of a viewer; or the message expels the receiver itself from its session, which the publisher had the permission to do, and
  the receiver becomes its own administrator. The receivers check none of this.
\<close>

theorem role_authority:
  fixes E :: env
  assumes "codec_ok (codec_of E)" "(net_step (codec_of E))\<^sup>*\<^sup>* [] net" "mget net i = Some p" "mget net src = Some q"
    "Publish t m \<in> set (trace q)" "p' = processControlTopicMessages E via (Some m) p"
    "Has (GetPermissionsForPeer (rm_of p') j) x" "\<not> Has (GetPermissionsForPeer (rm_of p) j) x"
  shows "had_right (codec_of E) src (Publish t m) (\<lambda>q0. may_grant src q0
    \<or> is_admin q0 \<and> fst (GetAssignedRoles j (rm_of p')) = [''viewer'']
    \<or> j = i \<and> may_remove src i q0) net"
proof -
  let ?K = "codec_of E"
  have id: "ID p = i" using net_identity [OF assms(2,3)] .
  have "via \<noteq> ID p" using assms(6-8) by (auto simp: processControlTopicMessages_def)
  then have p': "p' = control_payload E m via p" using assms(6) by (simp add: processControlTopicMessages_def)
  have right: "had_right ?K src (Publish t m) R net" if "restricted_msg m" "\<And>q0. ID q0 = src \<Longrightarrow> warranted ?K (Publish t m) q0 \<Longrightarrow> R q0" for R
    by (rule had_right_mono [OF net_right [OF assms(2,4) _ assms(5)]]) (use that in auto)
  have roles: "rm_of p' = fold deliver_update (role_updates ?K m) (rm_of p)" if "steady ?K (ID p) m"
    using received_assignments [OF that] \<open>via \<noteq> ID p\<close> assms(6) by auto
  have left: "m \<noteq> PeerLeft l" for l
    using applied_gain [of _ "[]" "pl_hlc_ts l" "rm_of p" j x] assms(7,8) by (auto simp: p' handleGossipPeerLeft_def Let_def split: option.splits if_splits)
  have expel: ?thesis if m: "m = PeerKicked y \<or> m = PeerBanned y" for y
  proof -
    have y: "j = i" "pe_peer_id y = pid_string ?K i" using expelled_gain [of E y m p j x] assms(7,8) m id by (auto simp: p')
    show ?thesis by (rule right) (use m y expulsion_right [OF assms(1)] in auto)
  qed
  show ?thesis
  proof (cases m)
    case (PeerRoleAssignment a)
    obtain k where "rm_of p' = snd (ApplyPeerAssignment k (pra_role_names a) (pra_hlc_ts a) (rm_of p))"
      using assms(7,8) PeerRoleAssignment roles by (auto simp: assignment_update_def List.map_filter_simps deliver_update_def split: option.splits)
    with applied_gain [of k "pra_role_names a" "pra_hlc_ts a" "rm_of p" j x] assms(7,8)
    have a: "pra_role_names a \<noteq> []" "fst (GetAssignedRoles j (rm_of p')) = normalized (pra_role_names a)" by auto
    show ?thesis by (rule right) (use PeerRoleAssignment assignment_right [OF _ _ a(1)] a(2) in auto)
  next
    case (AllPeerRoleAssignments s)
    show ?thesis by (rule right) (use AllPeerRoleAssignments in auto)
  next
    case (RoleDefinitionsUpdate u)
    show ?thesis by (rule right) (use RoleDefinitionsUpdate in \<open>auto simp: own_perms_def may_grant_def\<close>)
  qed (use roles left expel assms(7,8) in auto)
qed

section \<open>Witnesses\<close>

text \<open>Two services; the first one handles one message of its client.\<close>

definition ex_guest :: role_definition_pb where
  "ex_guest = \<lparr>rd_name = ''Guest'', rd_permissions = 3\<rparr>"

definition ex_boot :: "string \<Rightarrow> peer" where
  "ex_boot h = the (main_init ex_env (PeerID h) ''Admin'' False ex_hlc)"

definition ex_after :: "client_msg \<Rightarrow> peer" where
  "ex_after m = the (client_step ex_env ex_net 0 m (ex_boot ''a''))"

definition ex_network :: "client_msg \<Rightarrow> network" where
  "ex_network m = mput (mput (mput [] (PeerID ''a'') (ex_boot ''a'')) (PeerID ''b'') (ex_boot ''b'')) (PeerID ''a'') (ex_after m)"

lemma ex_boot_init: "main_init ex_env (PeerID ''a'') ''Admin'' False ex_hlc = Some (ex_boot ''a'')"
  "main_init ex_env (PeerID ''b'') ''Admin'' False ex_hlc = Some (ex_boot ''b'')"
proof -
  have "map_option ID (main_init ex_env (PeerID ''a'') ''Admin'' False ex_hlc) = Some (PeerID ''a'')"
    "map_option ID (main_init ex_env (PeerID ''b'') ''Admin'' False ex_hlc) = Some (PeerID ''b'')" by code_simp+
  then show "main_init ex_env (PeerID ''a'') ''Admin'' False ex_hlc = Some (ex_boot ''a'')"
    "main_init ex_env (PeerID ''b'') ''Admin'' False ex_hlc = Some (ex_boot ''b'')" by (auto simp: ex_boot_def)
qed

lemma ex_network_reached:
  assumes "\<not> describe_panics m" shows "(net_step (codec_of ex_env))\<^sup>*\<^sup>* [] (ex_network m)"
proof -
  let ?n1 = "mput [] (PeerID ''a'') (ex_boot ''a'')" and ?n2 = "mput (mput [] (PeerID ''a'') (ex_boot ''a'')) (PeerID ''b'') (ex_boot ''b'')"
  have "net_step (codec_of ex_env) [] ?n1" by (rule net_start [OF refl _ ex_boot_init(1)]) simp
  moreover have "net_step (codec_of ex_env) ?n1 ?n2" by (rule net_start [OF refl _ ex_boot_init(2)]) simp
  moreover have "net_step (codec_of ex_env) ?n2 (ex_network m)" unfolding ex_network_def
  proof (rule net_local)
    show "mget ?n2 (PeerID ''a'') = Some (ex_boot ''a'')" by simp
    show "local_step (codec_of ex_env) (ex_boot ''a'') (ex_after m)"
      by (rule loc_message [OF refl, of _ ex_net 0 m]) (use assms in \<open>simp add: ex_after_def client_step_def\<close>)
  qed
  ultimately show ?thesis by (meson converse_rtranclp_into_rtranclp rtranclp.rtrancl_refl)
qed

abbreviation ex_define :: client_msg where
  "ex_define \<equiv> UpdateRoleCmd (Some ex_guest) 5"

lemma ex_define_reached: "(net_step (codec_of ex_env))\<^sup>*\<^sup>* [] (ex_network ex_define)"
  by (rule ex_network_reached) (simp add: describe_panics_def)

theorem network_invariant_witness:
  "ID (the (mget (ex_network ex_define) (PeerID ''b''))) = PeerID ''b'' \<and> rm_ok (rm_of (the (mget (ex_network ex_define) (PeerID ''b''))))"
  using network_invariant [OF ex_define_reached, of "PeerID ''b''" "ex_boot ''b''"] by (simp add: ex_network_def)

theorem role_authority_witness:
  "\<exists>t a. Publish t (PeerRoleAssignment a) \<in> set (trace (ex_after (SetPeerRolesCmd ''c'' [''Streamer''] 5)))
    \<and> Has (GetPermissionsForPeer (rm_of (processControlTopicMessages ex_env (PeerID ''a'') (Some (PeerRoleAssignment a)) (ex_boot ''b''))) (PeerID ''c'')) PermStream
    \<and> had_right (codec_of ex_env) (PeerID ''a'') (Publish t (PeerRoleAssignment a)) (may_grant (PeerID ''a'')) (ex_network (SetPeerRolesCmd ''c'' [''Streamer''] 5))"
proof -
  let ?m = "SetPeerRolesCmd ''c'' [''Streamer''] 5"
  let ?r = "\<lambda>a. rm_of (processControlTopicMessages ex_env (PeerID ''a'') (Some (PeerRoleAssignment a)) (ex_boot ''b''))"
  let ?P = "\<lambda>e. case e of Publish t (PeerRoleAssignment a) \<Rightarrow> Has (GetPermissionsForPeer (?r a) (PeerID ''c'')) PermStream
      \<and> fst (GetAssignedRoles (PeerID ''c'') (?r a)) \<noteq> [''viewer''] | _ \<Rightarrow> False"
  have "list_ex ?P (trace (ex_after ?m)) \<and> \<not> Has (GetPermissionsForPeer (rm_of (ex_boot ''b'')) (PeerID ''c'')) PermStream" by code_simp
  then obtain x where x: "x \<in> set (trace (ex_after ?m))" "?P x"
    and b: "\<not> Has (GetPermissionsForPeer (rm_of (ex_boot ''b'')) (PeerID ''c'')) PermStream"
    unfolding list_ex_iff by blast
  from x(2) obtain t a where a: "x = Publish t (PeerRoleAssignment a)" "Has (GetPermissionsForPeer (?r a) (PeerID ''c'')) PermStream"
      "fst (GetAssignedRoles (PeerID ''c'') (?r a)) \<noteq> [''viewer'']"
    by (cases x; cases "case x of Publish t m \<Rightarrow> m | _ \<Rightarrow> undefined") simp_all
  have "codec_ok (codec_of ex_env)" "\<not> describe_panics ?m" by (simp_all add: ex_env_def describe_panics_def)
  from role_authority [OF this(1) ex_network_reached [OF this(2)], of "PeerID ''b''" "ex_boot ''b''" "PeerID ''a''" "ex_after ?m" t
      "PeerRoleAssignment a" _ "PeerID ''a''" "PeerID ''c''" PermStream, OF _ _ _ refl a(2) b] x(1) a
  show ?thesis by (auto simp: ex_network_def elim!: had_right_mono)
qed

theorem network_authority_witness:
  "\<exists>t u. Publish t (RoleDefinitionsUpdate u) \<in> set (trace (ex_after ex_define))
    \<and> definitions (rm_of (processControlTopicMessages ex_env (PeerID ''a'') (Some (RoleDefinitionsUpdate u)) (ex_boot ''b''))) \<noteq> definitions (rm_of (ex_boot ''b''))
    \<and> had_right (codec_of ex_env) (PeerID ''a'') (Publish t (RoleDefinitionsUpdate u)) (\<lambda>q0. Has (GetPermissionsForPeer (rm_of q0) (PeerID ''a'')) PermAddRemoveRoles) (ex_network ex_define)"
proof -
  let ?r = "\<lambda>u. processControlTopicMessages ex_env (PeerID ''a'') (Some (RoleDefinitionsUpdate u)) (ex_boot ''b'')"
  let ?P = "\<lambda>e. case e of Publish t (RoleDefinitionsUpdate u) \<Rightarrow> mhas (definitions (rm_of (?r u))) ''guest'' | _ \<Rightarrow> False"
  have "list_ex ?P (trace (ex_after ex_define)) \<and> \<not> mhas (definitions (rm_of (ex_boot ''b''))) ''guest''" by code_simp
  then obtain x where x: "x \<in> set (trace (ex_after ex_define))" "?P x" and b: "\<not> mhas (definitions (rm_of (ex_boot ''b''))) ''guest''"
    unfolding list_ex_iff by blast
  from x(2) obtain t u where "x = Publish t (RoleDefinitionsUpdate u)" "mhas (definitions (rm_of (?r u))) ''guest''"
    by (cases x; cases "case x of Publish t m \<Rightarrow> m | _ \<Rightarrow> undefined") simp_all
  with x(1) b have e: "Publish t (RoleDefinitionsUpdate u) \<in> set (trace (ex_after ex_define))" "definitions (rm_of (?r u)) \<noteq> definitions (rm_of (ex_boot ''b''))"
    by auto
  have "codec_ok (codec_of ex_env)" by (simp add: ex_env_def)
  from network_authority [OF this ex_define_reached, of "PeerID ''b''" "ex_boot ''b''" "PeerID ''a''" "ex_after ex_define" "PeerID ''a''"] e
  show ?thesis by (auto simp: ex_network_def Let_def)
qed

text \<open>An older update that arrives after a newer one.\<close>

theorem queue_last_delivery_wins_witness:
  "zeroed (Items (queue_of (deliver ex_env [(PeerID ''a'', QueueUpdate \<lparr>qu_items = [], qu_hlc_ts = 9\<rparr>),
      (PeerID ''a'', QueueUpdate \<lparr>qu_items = map (pb_item plain_codec) [ex_item ''a'' 0], qu_hlc_ts = 5\<rparr>)] ex_follower))) = [ex_item ''a'' 0]"
proof -
  let ?old = "[(PeerID ''a'', QueueUpdate \<lparr>qu_items = [], qu_hlc_ts = 9\<rparr>)]"
  have f: "ID ex_follower \<noteq> PeerID ''a''" "Has (GetPermissionsForPeer (rm_of (deliver ex_env ?old ex_follower)) (PeerID ''a'')) PermQueue"
    by code_simp+
  show ?thesis
    using queue_last_delivery_wins [OF ex_command_facts(1) f, where u = "\<lparr>qu_items = map (pb_item plain_codec) [ex_item ''a'' 0], qu_hlc_ts = 5\<rparr>"
        and ys = "[ex_item ''a'' 0]" and after = "[]"]
    by (simp add: ex_env_def zeroed_def ex_item_def)
qed

text \<open>Two assignments one by one, and the same two in a snapshot between other messages.\<close>

definition ex_assignments :: "peer_role_assignment list" where
  "ex_assignments = [\<lparr>pra_peer_id = ''d'', pra_role_names = [''Viewer''], pra_hlc_ts = 4\<rparr>,
     \<lparr>pra_peer_id = ''d'', pra_role_names = [''admin'', ''viewer''], pra_hlc_ts = 6\<rparr>]"

theorem roles_converge_witness:
  "GetPermissionsForPeer (rm_of (deliver ex_env (map (\<lambda>a. (PeerID ''a'', PeerRoleAssignment a)) ex_assignments) ex_follower)) (PeerID ''d'')
    = GetPermissionsForPeer (rm_of (deliver ex_env [(PeerID ''a'', QueueUpdate \<lparr>qu_items = [], qu_hlc_ts = 9\<rparr>),
        (PeerID ''b'', AllPeerRoleAssignments \<lparr>apra_assignments = map Some (rev ex_assignments), apra_hlc_ts = 7\<rparr>)] ex_follower)) (PeerID ''d'')"
proof -
  have "ID ex_follower = PeerID ''c''" by code_simp
  moreover have "update_valid (rm_of ex_follower) \<lparr>ru_peer = PeerID ''d'', ru_names = [''Viewer''], ru_ts = 4\<rparr>"
    "update_valid (rm_of ex_follower) \<lparr>ru_peer = PeerID ''d'', ru_names = [''admin'', ''viewer''], ru_ts = 6\<rparr>" by code_simp+
  ultimately show ?thesis
    by (intro roles_converge [THEN conjunct1]) (auto simp: ex_assignments_def List.map_filter_simps assignment_update_def ex_env_def)
qed

end
