(* ===== verification/Json.thy ===== *)
theory Json
  imports GoFloat "HOL-Library.List_Lexorder" "HOL-Library.Char_ord"
begin

text \<open>
  The part of Go's \<^verbatim>\<open>encoding/json\<close> the tools use: \<^verbatim>\<open>Marshal\<close> of strings, maps and structures, and the reader behind
  \<^verbatim>\<open>Unmarshal\<close>, with its nesting limit. Objects keep their members in document order. A text is a sequence of bytes, and
  both directions replace each byte that does not belong to UTF-8 by U+FFFD: what is read back is the text in this form, and the text itself if it is UTF-8.
\<close>

section \<open>Values\<close>

datatype json =
    JNull
  | JBool bool
  | JNum string
  | JStr string
  | JArr "json list"
  | JObj "(string \<times> json) list"

text \<open>Members that are repeated: the last one counts.\<close>

definition obj_get :: "string \<Rightarrow> (string \<times> json) list \<Rightarrow> json option" where
  "obj_get k ms = map_of (rev ms) k"

section \<open>Printing\<close>

definition quote_char :: char where
  "quote_char = CHR 0x22"

definition backslash :: char where
  "backslash = CHR 0x5C"

definition hex_digit :: "nat \<Rightarrow> char" where
  "hex_digit n = (if n < 10 then digit n else char_of (87 + n))"

definition enc_char :: "char \<Rightarrow> string" where
  "enc_char c =
     (let n = ascii_code c
      in if c = quote_char \<or> c = backslash then [backslash, c]
         else if n = 8 then [backslash, CHR ''b'']
         else if n = 12 then [backslash, CHR ''f'']
         else if n = 10 then [backslash, CHR ''n'']
         else if n = 13 then [backslash, CHR ''r'']
         else if n = 9 then [backslash, CHR ''t'']
         else if n < 32 \<or> c \<in> {CHR ''<'', CHR ''>'', CHR ''&''}
         then [backslash, CHR ''u'', CHR ''0'', CHR ''0'', hex_digit (n div 16), hex_digit (n mod 16)]
         else [c])"

text \<open>
  \<^verbatim>\<open>utf8.DecodeRune\<close>: the ranges of the bytes that follow a first byte in a code point, \<open>None\<close> when it cannot be a first byte; and the length of the code
  point a text begins with, 0 when it begins with none.
\<close>

definition tails :: "nat \<Rightarrow> (nat \<times> nat) list option" where
  "tails n =
     (if n < 128 then Some []
      else if 194 \<le> n \<and> n \<le> 223 then Some [(128, 191)]
      else if n = 224 then Some [(160, 191), (128, 191)]
      else if n = 237 then Some [(128, 159), (128, 191)]
      else if 225 \<le> n \<and> n \<le> 239 then Some [(128, 191), (128, 191)]
      else if n = 240 then Some [(144, 191), (128, 191), (128, 191)]
      else if 241 \<le> n \<and> n \<le> 243 then Some [(128, 191), (128, 191), (128, 191)]
      else if n = 244 then Some [(128, 143), (128, 191), (128, 191)]
      else None)"

fun follows :: "(nat \<times> nat) list \<Rightarrow> string \<Rightarrow> bool" where
  "follows [] s = True"
| "follows (r # rs) [] = False"
| "follows (r # rs) (c # s) \<longleftrightarrow> fst r \<le> ascii_code c \<and> ascii_code c \<le> snd r \<and> follows rs s"

fun rune_len :: "string \<Rightarrow> nat" where
  "rune_len [] = 0"
| "rune_len (c # s) = (case tails (ascii_code c) of None \<Rightarrow> 0 | Some rs \<Rightarrow> if follows rs s then Suc (length rs) else 0)"

text \<open>The code points of a text, with \<open>[]\<close> for a byte that belongs to none.\<close>

function runes :: "string \<Rightarrow> string list" where
  "runes [] = []"
| "runes (c # s) = take (rune_len (c # s)) (c # s) # runes (drop (rune_len (c # s) - 1) s)"
  by pat_completeness auto
termination
  by (relation "measure length") (simp_all add: less_Suc_eq_le)

text \<open>The bytes of a code point.\<close>

definition utf8 :: "nat \<Rightarrow> string" where
  "utf8 n =
     (if n < 128 then [char_of n]
      else if n < 2048 then [char_of (192 + n div 64), char_of (128 + n mod 64)]
      else if n < 65536 then [char_of (224 + n div 4096), char_of (128 + n div 64 mod 64), char_of (128 + n mod 64)]
      else [char_of (240 + n div 262144), char_of (128 + n div 4096 mod 64), char_of (128 + n div 64 mod 64), char_of (128 + n mod 64)])"

definition rune_text :: "string \<Rightarrow> string" where
  "rune_text r = (if r = [] then utf8 65533 else r)"

definition to_valid :: "string \<Rightarrow> string" where
  "to_valid s = concat (map rune_text (runes s))"

definition utf8_ok :: "string \<Rightarrow> bool" where
  "utf8_ok s \<longleftrightarrow> [] \<notin> set (runes s)"

definition enc_rune :: "string \<Rightarrow> string" where
  "enc_rune r =
     (case r of
        [] \<Rightarrow> backslash # ''ufffd''
      | [c] \<Rightarrow> enc_char c
      | _ \<Rightarrow> if r = utf8 8232 then backslash # ''u2028'' else if r = utf8 8233 then backslash # ''u2029'' else r)"

definition enc_string :: "string \<Rightarrow> string" where
  "enc_string s = quote_char # concat (map enc_rune (runes s)) @ [quote_char]"

fun commas :: "string list \<Rightarrow> string" where
  "commas [] = ''''"
| "commas [s] = s"
| "commas (s # ss) = s @ '','' @ commas ss"

fun enc :: "json \<Rightarrow> string" where
  "enc JNull = ''null''"
| "enc (JBool b) = (if b then ''true'' else ''false'')"
| "enc (JNum t) = t"
| "enc (JStr s) = enc_string s"
| "enc (JArr vs) = ''['' @ commas (map enc vs) @ '']''"
| "enc (JObj ms) = ''{'' @ commas (map (\<lambda>m. enc_string (fst m) @ '':'' @ enc (snd m)) ms) @ ''}''"

section \<open>Reading\<close>

definition json_space :: "char \<Rightarrow> bool" where
  "json_space c \<longleftrightarrow> ascii_code c \<in> {9, 10, 13, 32}"

definition skip :: "string \<Rightarrow> string" where
  "skip s = dropWhile json_space s"

definition hex_val :: "char \<Rightarrow> nat option" where
  "hex_val c =
     (let n = ascii_code c
      in if 48 \<le> n \<and> n \<le> 57 then Some (n - 48)
         else if 97 \<le> n \<and> n \<le> 102 then Some (n - 87)
         else if 65 \<le> n \<and> n \<le> 70 then Some (n - 55) else None)"

text \<open>The four hexadecimal digits of an escape.\<close>

fun read_u4 :: "string \<Rightarrow> (nat \<times> string) option" where
  "read_u4 (a # b # c # d # r) =
     (case (hex_val a, hex_val b, hex_val c, hex_val d) of
        (Some w, Some x, Some y, Some z) \<Rightarrow> Some (((w * 16 + x) * 16 + y) * 16 + z, r)
      | _ \<Rightarrow> None)"
| "read_u4 _ = None"

text \<open>A surrogate that is not the first half of a pair reads as U+FFFD.\<close>

definition read_unicode :: "string \<Rightarrow> (string \<times> string) option" where
  "read_unicode s =
     (case read_u4 s of
        None \<Rightarrow> None
      | Some (x, r) \<Rightarrow>
          (if x < 55296 \<or> 57344 \<le> x then Some (utf8 x, r)
           else
             (case r of
                a # b # r1 \<Rightarrow>
                  (if a = backslash \<and> b = CHR ''u'' then
                     (case read_u4 r1 of
                        None \<Rightarrow> Some (utf8 65533, r)
                      | Some (y, r2) \<Rightarrow>
                          (if x < 56320 \<and> 56320 \<le> y \<and> y < 57344
                           then Some (utf8 (65536 + (x - 55296) * 1024 + (y - 56320)), r2)
                           else Some (utf8 65533, r)))
                   else Some (utf8 65533, r))
              | _ \<Rightarrow> Some (utf8 65533, r))))"

definition read_escape :: "string \<Rightarrow> (string \<times> string) option" where
  "read_escape s =
     (case s of
        [] \<Rightarrow> None
      | c # r \<Rightarrow>
          (if c = quote_char \<or> c = backslash \<or> c = CHR ''/'' then Some ([c], r)
           else if c = CHR ''b'' then Some ([char_of (8 :: nat)], r)
           else if c = CHR ''f'' then Some ([char_of (12 :: nat)], r)
           else if c = CHR ''n'' then Some ([char_of (10 :: nat)], r)
           else if c = CHR ''r'' then Some ([char_of (13 :: nat)], r)
           else if c = CHR ''t'' then Some ([char_of (9 :: nat)], r)
           else if c = CHR ''u'' then read_unicode r
           else None))"

lemma read_u4_length: "read_u4 s = Some (x, r) \<Longrightarrow> length r < length s"
  by (induction s rule: read_u4.induct) (auto split: option.splits)

lemma read_unicode_length: "read_unicode s = Some (w, r) \<Longrightarrow> length r < length s"
  by (auto simp: read_unicode_def dest!: read_u4_length split: option.splits list.splits if_splits)

lemma read_escape_length: "read_escape s = Some (w, r) \<Longrightarrow> length r < length s"
  by (auto simp: read_escape_def dest: read_unicode_length split: list.splits if_splits)

text \<open>The text of a string after its opening quote, and what follows its closing quote.\<close>

function read_string :: "string \<Rightarrow> (string \<times> string) option" where
  "read_string [] = None"
| "read_string (c # s) =
     (if c = quote_char then Some ([], s)
      else if c = backslash then
        (case read_escape s of
           None \<Rightarrow> None
         | Some (w, r) \<Rightarrow> (case read_string r of None \<Rightarrow> None | Some (t, r') \<Rightarrow> Some (w @ t, r')))
      else if ascii_code c < 32 then None
      else (let n = rune_len (c # s)
            in (case read_string (drop (n - 1) s) of
                  None \<Rightarrow> None
                | Some (t, r) \<Rightarrow> Some (rune_text (take n (c # s)) @ t, r))))"
  by pat_completeness auto
termination
  by (relation "measure length") (auto dest: read_escape_length simp: less_Suc_eq_le)

text \<open>The longest prefix that is a number.\<close>

definition digits_of :: "string \<Rightarrow> string" where
  "digits_of s = takeWhile is_digit s"

definition fraction_of :: "string \<Rightarrow> string" where
  "fraction_of s =
     (case s of
        c # r \<Rightarrow> if c = CHR ''.'' \<and> digits_of r \<noteq> [] then c # digits_of r else ''''
      | [] \<Rightarrow> '''')"

definition exponent_of :: "string \<Rightarrow> string" where
  "exponent_of s =
     (case s of
        c # r \<Rightarrow>
          (if c = CHR ''e'' \<or> c = CHR ''E'' then
             (case r of
                d # r' \<Rightarrow>
                  (if d = CHR ''+'' \<or> d = CHR ''-'' then (if digits_of r' \<noteq> [] then c # d # digits_of r' else '''')
                   else if digits_of r \<noteq> [] then c # digits_of r else '''')
              | [] \<Rightarrow> '''')
           else '''')
      | [] \<Rightarrow> '''')"

definition read_number :: "string \<Rightarrow> (string \<times> string) option" where
  "read_number s =
     (let sign = (if has_prefix s ''-'' then ''-'' else '''');
          s1 = drop (length sign) s;
          int_part = (if has_prefix s1 ''0'' then ''0'' else digits_of s1);
          s2 = drop (length int_part) s1;
          frac = fraction_of s2;
          s3 = drop (length frac) s2;
          ex = exponent_of s3
      in if int_part = '''' then None else Some (sign @ int_part @ frac @ ex, drop (length ex) s3))"

definition read_scalar :: "string \<Rightarrow> (json \<times> string) option" where
  "read_scalar s =
     (if has_prefix s ''null'' then Some (JNull, drop 4 s)
      else if has_prefix s ''true'' then Some (JBool True, drop 4 s)
      else if has_prefix s ''false'' then Some (JBool False, drop 5 s)
      else if has_prefix s [quote_char] then map_option (\<lambda>(t, r). (JStr t, r)) (read_string (drop 1 s))
      else map_option (\<lambda>(t, r). (JNum t, r)) (read_number s))"

text \<open>
  The elements of an array and the members of an object, given the reader \<open>p\<close> of a value; every element takes at least one
  character, so that the length of the text bounds their number.
\<close>

fun read_elems :: "(string \<Rightarrow> (json \<times> string) option) \<Rightarrow> nat \<Rightarrow> string \<Rightarrow> (json list \<times> string) option" where
  "read_elems p 0 s = None"
| "read_elems p (Suc n) s =
     (case p (skip s) of
        None \<Rightarrow> None
      | Some (v, r) \<Rightarrow>
          (case skip r of
             [] \<Rightarrow> None
           | c # r' \<Rightarrow>
               (if c = CHR '','' then map_option (\<lambda>(vs, t). (v # vs, t)) (read_elems p n r')
                else if c = CHR '']'' then Some ([v], r') else None)))"

definition read_key :: "string \<Rightarrow> (string \<times> string) option" where
  "read_key s =
     (case skip s of
        [] \<Rightarrow> None
      | c # r \<Rightarrow>
          (if c \<noteq> quote_char then None
           else
             (case read_string r of
                None \<Rightarrow> None
              | Some (k, r1) \<Rightarrow> (case skip r1 of [] \<Rightarrow> None | d # r2 \<Rightarrow> if d = CHR '':'' then Some (k, skip r2) else None))))"

fun read_members :: "(string \<Rightarrow> (json \<times> string) option) \<Rightarrow> nat \<Rightarrow> string \<Rightarrow> ((string \<times> json) list \<times> string) option" where
  "read_members p 0 s = None"
| "read_members p (Suc n) s =
     (case read_key s of
        None \<Rightarrow> None
      | Some (k, r0) \<Rightarrow>
          (case p r0 of
             None \<Rightarrow> None
           | Some (v, r) \<Rightarrow>
               (case skip r of
                  [] \<Rightarrow> None
                | c # r' \<Rightarrow>
                    (if c = CHR '','' then map_option (\<lambda>(ms, t). ((k, v) # ms, t)) (read_members p n r')
                     else if c = CHR ''}'' then Some ([(k, v)], r') else None))))"

definition read_array :: "(string \<Rightarrow> (json \<times> string) option) \<Rightarrow> string \<Rightarrow> (json \<times> string) option" where
  "read_array p s =
     (if has_prefix (skip s) '']'' then Some (JArr [], drop 1 (skip s))
      else map_option (\<lambda>(vs, t). (JArr vs, t)) (read_elems p (length s) s))"

definition read_object :: "(string \<Rightarrow> (json \<times> string) option) \<Rightarrow> string \<Rightarrow> (json \<times> string) option" where
  "read_object p s =
     (if has_prefix (skip s) ''}'' then Some (JObj [], drop 1 (skip s))
      else map_option (\<lambda>(ms, t). (JObj ms, t)) (read_members p (length s) s))"

text \<open>A value in which containers are nested at most \<open>d\<close> deep; the scanner of Go allows 10000.\<close>

fun read_value :: "nat \<Rightarrow> string \<Rightarrow> (json \<times> string) option" where
  "read_value 0 s = read_scalar s"
| "read_value (Suc d) s =
     (if has_prefix s ''['' then read_array (read_value d) (drop 1 s)
      else if has_prefix s ''{'' then read_object (read_value d) (drop 1 s)
      else read_scalar s)"

definition max_nesting :: nat where
  "max_nesting = 10000"

definition parse_json :: "string \<Rightarrow> json option" where
  "parse_json s =
     (case read_value max_nesting (skip s) of
        None \<Rightarrow> None
      | Some (v, r) \<Rightarrow> if skip r = [] then Some v else None)"

section \<open>Reading what was printed\<close>

text \<open>A value without numbers whose containers are nested at most \<open>d\<close> deep.\<close>

fun printable :: "nat \<Rightarrow> json \<Rightarrow> bool" where
  "printable d JNull = True"
| "printable d (JBool b) = True"
| "printable d (JNum t) = False"
| "printable d (JStr s) = True"
| "printable 0 (JArr vs) = False"
| "printable (Suc d) (JArr vs) = list_all (printable d) vs"
| "printable 0 (JObj ms) = False"
| "printable (Suc d) (JObj ms) = list_all (\<lambda>m. printable d (snd m)) ms"

lemma quote_not_space [simp]: "\<not> json_space quote_char"
  by (simp add: json_space_def quote_char_def ascii_code_def)

lemma hex_val_digit: "n < 16 \<Longrightarrow> hex_val (hex_digit n) = Some n"
  by (auto simp: hex_val_def hex_digit_def digit_def)

lemma read_u4_code:
  "ascii_code c < 128 \<Longrightarrow> read_u4 (CHR ''0'' # CHR ''0'' # hex_digit (ascii_code c div 16) # hex_digit (ascii_code c mod 16) # s) = Some (ascii_code c, s)"
  by (simp add: hex_val_digit) (simp add: hex_val_def ascii_code_def)

lemma char_code [simp]: "char_of (ascii_code c) = c"
  by (simp add: ascii_code_def)

lemma code_eq: "ascii_code c = n \<Longrightarrow> n < 256 \<Longrightarrow> c = char_of n"
  by (metis char_code)

declare read_string.simps(2) [simp del]

lemma read_string_quote [simp]: "read_string (quote_char # s) = Some ([], s)"
  by (simp add: read_string.simps)

lemma read_string_escape:
  "read_escape (e @ s) = Some (w, s) \<Longrightarrow>
    read_string (backslash # e @ s) = (case read_string s of None \<Rightarrow> None | Some (t, r) \<Rightarrow> Some (w @ t, r))"
  by (simp add: read_string.simps backslash_def quote_char_def)

lemma read_string_plain:
  "c \<noteq> quote_char \<Longrightarrow> c \<noteq> backslash \<Longrightarrow> \<not> ascii_code c < 32 \<Longrightarrow> rune_len (c # u @ s) = Suc (length u) \<Longrightarrow>
    read_string (c # u @ s) = (case read_string s of None \<Rightarrow> None | Some (t, r) \<Rightarrow> Some (c # u @ t, r))"
  by (simp add: read_string.simps rune_text_def del: rune_len.simps split: option.split)

lemma rune_len_ascii: "ascii_code c < 128 \<Longrightarrow> rune_len (c # s) = 1"
  by (simp add: tails_def)

lemma read_enc_char:
  assumes "ascii_code c < 128"
  shows "read_string (enc_char c @ s) = (case read_string s of None \<Rightarrow> None | Some (t, r) \<Rightarrow> Some (c # t, r))"
proof -
  let ?n = "ascii_code c"
  have step: "read_string ([backslash, x] @ s) = (case read_string s of None \<Rightarrow> None | Some (t, r) \<Rightarrow> Some (w @ t, r))"
    if "read_escape (x # s) = Some (w, s)" for x w
    using read_string_escape [of "[x]" s w] that by simp
  consider "c = quote_char \<or> c = backslash" | "?n \<in> {8, 9, 10, 12, 13}"
    | "c \<noteq> quote_char" "c \<noteq> backslash" "?n \<notin> {8, 9, 10, 12, 13}" "?n < 32 \<or> c \<in> {CHR ''<'', CHR ''>'', CHR ''&''}"
    | "c \<noteq> quote_char" "c \<noteq> backslash" "\<not> ?n < 32" "c \<notin> {CHR ''<'', CHR ''>'', CHR ''&''}"
    by blast
  then show ?thesis
  proof cases
    case 1
    then have "enc_char c = [backslash, c]" "read_escape (c # s) = Some ([c], s)" by (auto simp: enc_char_def read_escape_def Let_def)
    then show ?thesis using step [of c "[c]"] by (simp split: option.split)
  next
    case 2
    then have "c \<in> {char_of (8 :: nat), char_of (9 :: nat), char_of (10 :: nat), char_of (12 :: nat), char_of (13 :: nat)}"
      using image_eqI [of c char_of ?n "{8, 9, 10, 12, 13}"] by simp
    then have "\<exists>e. enc_char c = [backslash, e] \<and> read_escape (e # s) = Some ([c], s)"
      by (elim insertE emptyE) (simp_all add: enc_char_def read_escape_def quote_char_def backslash_def)
    then obtain e where "enc_char c = [backslash, e]" "read_escape (e # s) = Some ([c], s)" by blast
    then show ?thesis using step [of e "[c]"] by (simp split: option.split)
  next
    case 3
    then have lt: "?n < 128" by (auto simp: ascii_code_def)
    have u: "CHR ''u'' \<noteq> quote_char" "CHR ''u'' \<noteq> backslash" by (simp_all add: quote_char_def backslash_def)
    have "read_escape (CHR ''u'' # CHR ''0'' # CHR ''0'' # hex_digit (?n div 16) # hex_digit (?n mod 16) # s) = Some ([c], s)"
      using u lt read_u4_code [OF lt, of s] by (simp add: read_escape_def read_unicode_def utf8_def)
    then show ?thesis using 3 read_string_escape [of "[CHR ''u'', CHR ''0'', CHR ''0'', hex_digit (?n div 16), hex_digit (?n mod 16)]" s "[c]"]
      by (simp add: enc_char_def Let_def split: option.split)
  next
    case 4
    then have "enc_char c = [c]" by (simp add: enc_char_def Let_def)
    then show ?thesis using 4 read_string_plain [of c "[]" s, unfolded append_Nil] rune_len_ascii [OF assms, of s]
      by (simp del: rune_len.simps split: option.split)
  qed
qed

text \<open>What \<open>runes\<close> takes from a text: a code point, recognised whatever follows, or nothing.\<close>

lemma follows_take: "follows rs s \<Longrightarrow> length rs \<le> length s \<and> follows rs (take (length rs) s @ r)"
  by (induction rs s rule: follows.induct) auto

lemma tails_high: "tails n = Some rs \<Longrightarrow> n \<ge> 128 \<Longrightarrow> \<forall>x \<in> set rs. 128 \<le> fst x"
  by (auto simp: tails_def split: if_splits)

lemma follows_high: "follows rs s \<Longrightarrow> \<forall>x \<in> set rs. 128 \<le> fst x \<Longrightarrow> \<forall>c \<in> set (take (length rs) s). 128 \<le> ascii_code c"
  by (induction rs s rule: follows.induct) auto

definition rune_ok :: "string \<Rightarrow> bool" where
  "rune_ok r \<longleftrightarrow> r = [] \<or> (\<forall>s. rune_len (r @ s) = length r) \<and> (length r = 1 \<and> ascii_code (hd r) < 128 \<or> (\<forall>c \<in> set r. 128 \<le> ascii_code c))"

lemma rune_ok_take: "rune_ok (take (rune_len (c # s)) (c # s))"
proof (cases "tails (ascii_code c)")
  case (Some rs)
  show ?thesis
  proof (cases "follows rs s")
    case True
    have n: "rune_len (c # take (length rs) s @ u) = Suc (length rs)" for u using Some follows_take [OF True, of u] by simp
    have "length (take (length rs) s) = length rs" using follows_take [OF True] by simp
    moreover have "length (take (length rs) s) = 0" if "ascii_code c < 128" using that Some by (simp add: tails_def)
    moreover have "\<forall>x \<in> set (c # take (length rs) s). 128 \<le> ascii_code x" if "128 \<le> ascii_code c"
      using follows_high [OF True tails_high [OF Some that]] that by simp
    ultimately show ?thesis using Some True n by (cases "ascii_code c < 128") (simp_all add: rune_ok_def)
  qed (simp add: Some rune_ok_def)
qed (simp add: rune_ok_def)

lemma runes_ok: "\<forall>r \<in> set (runes s). rune_ok r"
  by (induction s rule: runes.induct) (simp_all add: rune_ok_take del: rune_len.simps)

lemma utf8_ok_valid:
  assumes "utf8_ok s" shows "to_valid s = s"
proof -
  have "concat (runes s) = s" if "[] \<notin> set (runes s)" for s
    using that
  proof (induction s rule: runes.induct)
    case (2 c s)
    then have n: "rune_len (c # s) \<noteq> 0" by auto
    from 2 have "concat (runes (drop (rune_len (c # s) - 1) s)) = drop (rune_len (c # s) - 1) s" by (simp del: rune_len.simps)
    then show ?case using n by (cases "rune_len (c # s)") (simp_all del: rune_len.simps)
  qed simp
  moreover have "map rune_text rs = rs" if "[] \<notin> set rs" for rs using that by (induction rs) (auto simp: rune_text_def)
  ultimately show ?thesis using assms by (simp add: to_valid_def utf8_ok_def)
qed

lemma utf8_ok_ascii: "list_all (\<lambda>c. ascii_code c < 128) s \<Longrightarrow> utf8_ok s"
proof (induction s)
  case (Cons c s)
  then show ?case using rune_len_ascii [of c s] by (simp add: utf8_ok_def del: rune_len.simps)
qed (simp add: utf8_ok_def)

lemma to_valid_Nil [simp]: "to_valid s = [] \<longleftrightarrow> s = []"
  by (cases s) (auto simp: to_valid_def rune_text_def utf8_def)

lemma read_u4_digits:
  "read_u4 (CHR ''f'' # CHR ''f'' # CHR ''f'' # CHR ''d'' # s) = Some (65533, s)"
  "read_u4 (CHR ''2'' # CHR ''0'' # CHR ''2'' # CHR ''8'' # s) = Some (8232, s)"
  "read_u4 (CHR ''2'' # CHR ''0'' # CHR ''2'' # CHR ''9'' # s) = Some (8233, s)"
  by (simp_all add: hex_val_def ascii_code_def)

lemma read_escaped:
  assumes "read_u4 (e @ s) = Some (x, s)" "x < 55296 \<or> 57344 \<le> x"
  shows "read_string (backslash # CHR ''u'' # e @ s) = (case read_string s of None \<Rightarrow> None | Some (t, r) \<Rightarrow> Some (utf8 x @ t, r))"
proof -
  have "read_escape ((CHR ''u'' # e) @ s) = Some (utf8 x, s)"
    using assms by (auto simp: read_escape_def read_unicode_def) (simp_all add: quote_char_def backslash_def)
  from read_string_escape [OF this] show ?thesis by simp
qed

lemma read_enc_rune:
  assumes "rune_ok r"
  shows "read_string (enc_rune r @ s) = (case read_string s of None \<Rightarrow> None | Some (t, u) \<Rightarrow> Some (rune_text r @ t, u))"
proof -
  consider "r = []" | c where "r = [c]" | c d u where "r = c # d # u" by (cases r rule: list.exhaust; metis list.exhaust)
  then show ?thesis
  proof cases
    case 1
    from read_escaped [of "''fffd''" s 65533] read_u4_digits(1) [of s] show ?thesis
      by (simp add: 1 enc_rune_def rune_text_def del: read_u4.simps split: option.split)
  next
    case (2 c)
    have "tails (ascii_code c) = Some [] \<Longrightarrow> ascii_code c < 128" by (auto simp: tails_def split: if_splits)
    moreover have "rune_len [c] = 1" using assms 2 by (auto simp: rune_ok_def dest: spec [of _ "[]"] simp del: rune_len.simps)
    ultimately have "ascii_code c < 128" by (auto split: option.splits if_splits)
    from read_enc_char [OF this, of s] show ?thesis by (simp add: 2 enc_rune_def rune_text_def split: option.split)
  next
    case (3 c d u)
    from assms have n: "rune_len (c # (d # u) @ s) = Suc (length (d # u))" and h: "128 \<le> ascii_code c" by (auto simp: 3 rune_ok_def simp del: rune_len.simps)
    have "c \<noteq> quote_char" "c \<noteq> backslash" using h by (auto simp: quote_char_def backslash_def ascii_code_def)
    with read_string_plain [OF _ _ _ n] h have plain: "read_string (r @ s) = (case read_string s of None \<Rightarrow> None | Some (t, v) \<Rightarrow> Some (r @ t, v))"
      by (simp add: 3 del: rune_len.simps split: option.split)
    show ?thesis
      using plain read_escaped [of "''2028''" s 8232] read_escaped [of "''2029''" s 8233] read_u4_digits(2,3) [of s]
      by (simp add: enc_rune_def 3 rune_text_def del: read_u4.simps split: option.split)
  qed
qed

lemma read_enc_runes: "\<forall>x \<in> set rs. rune_ok x \<Longrightarrow> read_string (concat (map enc_rune rs) @ quote_char # r) = Some (concat (map rune_text rs), r)"
  by (induction rs) (simp_all add: read_enc_rune)

lemma read_enc_string: "read_string (concat (map enc_rune (runes s)) @ quote_char # r) = Some (to_valid s, r)"
  using read_enc_runes [OF runes_ok] by (simp add: to_valid_def)

text \<open>A value with its texts made valid.\<close>

fun coerce :: "json \<Rightarrow> json" where
  "coerce (JStr s) = JStr (to_valid s)"
| "coerce (JArr vs) = JArr (map coerce vs)"
| "coerce (JObj ms) = JObj (map (\<lambda>m. (to_valid (fst m), coerce (snd m))) ms)"
| "coerce v = v"

lemma skip_Cons: "skip (c # s) = (if json_space c then skip s else c # s)"
  by (simp add: skip_def)

lemma skip_punct [simp]:
  "skip (CHR '','' # s) = CHR '','' # s" "skip (CHR '']'' # s) = CHR '']'' # s" "skip (CHR ''}'' # s) = CHR ''}'' # s"
  "skip (CHR '':'' # s) = CHR '':'' # s" "skip (quote_char # s) = quote_char # s" "skip (CHR ''{'' # s) = CHR ''{'' # s"
  "skip (CHR ''['' # s) = CHR ''['' # s" "skip [] = []"
  by (simp_all add: skip_Cons) (simp_all add: json_space_def ascii_code_def skip_def)

lemma enc_head:
  "printable d v \<Longrightarrow> \<exists>c t. enc v = c # t \<and> \<not> json_space c \<and> c \<noteq> CHR '']''"
  by (cases v) (auto simp: enc_string_def json_space_def ascii_code_def quote_char_def)

lemma skip_enc [simp]: "printable d v \<Longrightarrow> skip (enc v @ r) = enc v @ r"
  using enc_head [of d v] by (auto simp: skip_Cons)

lemma commas_length: "length ss \<le> Suc (length (commas ss))"
  by (induction ss rule: commas.induct) auto

lemma commas_Cons: "ss \<noteq> [] \<Longrightarrow> commas (s # ss) = s @ '','' @ commas ss"
  by (cases ss) simp_all

lemma read_elems_enc:
  assumes "\<forall>v \<in> set vs. \<forall>r. p (enc v @ r) = Some (coerce v, r) \<and> skip (enc v @ r) = enc v @ r" "vs \<noteq> []" "length vs \<le> n"
  shows "read_elems p n (commas (map enc vs) @ '']'' @ r) = Some (map coerce vs, r)"
  using assms
proof (induction vs arbitrary: n)
  case (Cons v vs)
  then obtain m where n: "n = Suc m" by (cases n) simp_all
  from Cons.prems(1) have v: "p (enc v @ r) = Some (coerce v, r)" "skip (enc v @ r) = enc v @ r" for r by simp_all
  show ?case
  proof (cases "vs = []")
    case False
    with Cons have "read_elems p m (commas (map enc vs) @ '']'' @ r) = Some (map coerce vs, r)" by (simp add: n)
    with False show ?thesis by (simp add: n commas_Cons v)
  qed (simp add: n v)
qed simp

lemma read_key_enc: "skip s = s \<Longrightarrow> read_key (enc_string k @ '':'' @ s) = Some (to_valid k, s)"
  by (simp add: read_key_def enc_string_def read_enc_string)

lemma read_members_enc:
  assumes "\<forall>m \<in> set ms. \<forall>r. p (enc (snd m) @ r) = Some (coerce (snd m), r) \<and> skip (enc (snd m) @ r) = enc (snd m) @ r"
    "ms \<noteq> []" "length ms \<le> n"
  shows "read_members p n (commas (map (\<lambda>m. enc_string (fst m) @ '':'' @ enc (snd m)) ms) @ ''}'' @ r) = Some (map (\<lambda>m. (to_valid (fst m), coerce (snd m))) ms, r)"
  using assms
proof (induction ms arbitrary: n)
  case (Cons m ms)
  then obtain j where n: "n = Suc j" by (cases n) simp_all
  obtain k v where m: "m = (k, v)" by (cases m)
  from Cons.prems(1) have v: "p (enc v @ r) = Some (coerce v, r)" "skip (enc v @ r) = enc v @ r" for r by (simp_all add: m)
  have key: "read_key (enc_string k @ CHR '':'' # enc v @ r) = Some (to_valid k, enc v @ r)" for r
    using read_key_enc [OF v(2)] by simp
  show ?case
  proof (cases "ms = []")
    case False
    with Cons have "read_members p j (commas (map (\<lambda>m. enc_string (fst m) @ '':'' @ enc (snd m)) ms) @ ''}'' @ r)
        = Some (map (\<lambda>m. (to_valid (fst m), coerce (snd m))) ms, r)"
      by (simp add: n)
    with False show ?thesis by (simp add: n m commas_Cons v key)
  qed (simp add: n m v key)
qed simp

lemma read_scalar_enc:
  "read_scalar (''null'' @ r) = Some (JNull, r)" "read_scalar (''true'' @ r) = Some (JBool True, r)"
  "read_scalar (''false'' @ r) = Some (JBool False, r)" "read_scalar (enc_string s @ r) = Some (JStr (to_valid s), r)"
  by (simp_all add: read_scalar_def has_prefix_def enc_string_def read_enc_string) (simp_all add: quote_char_def)

lemma read_value_scalar:
  assumes "s \<noteq> []" "hd s \<notin> {CHR ''['', CHR ''{''}"
  shows "read_value d s = read_scalar s"
  using assms by (cases d; cases s) (auto simp: has_prefix_def)

lemma has_prefix_Cons [simp]: "has_prefix (c # s) [d] \<longleftrightarrow> c = d"
  by (simp add: has_prefix_def)

lemma read_value_enc: "printable d v \<Longrightarrow> read_value d (enc v @ r) = Some (coerce v, r)"
proof (induction d v arbitrary: r rule: printable.induct)
  case (1 d) then show ?case using read_scalar_enc(1) by (subst read_value_scalar) simp_all
next
  case (2 d b) then show ?case using read_scalar_enc(2,3) by (subst read_value_scalar) simp_all
next
  case (4 d s) then show ?case using read_scalar_enc(4) by (subst read_value_scalar) (simp_all add: enc_string_def quote_char_def)
next
  case (6 d vs)
  let ?s = "commas (map enc vs) @ '']'' @ r"
  show ?case
  proof (cases "vs = []")
    case False
    have p: "\<forall>v \<in> set vs. \<forall>r. read_value d (enc v @ r) = Some (coerce v, r) \<and> skip (enc v @ r) = enc v @ r"
      using 6 skip_enc unfolding printable.simps list_all_iff by blast
    have "length vs \<le> length ?s" using commas_length [of "map enc vs"] by simp
    with read_elems_enc [OF p False] have "read_elems (read_value d) (length ?s) ?s = Some (map coerce vs, r)" by blast
    moreover obtain c t where "?s = c # t" "\<not> json_space c" "c \<noteq> CHR '']''"
      using False 6(2) enc_head [of d "hd vs"] commas_Cons [of "map enc (tl vs)" "enc (hd vs)"] by (cases vs; cases "tl vs") auto
    ultimately have "read_array (read_value d) ?s = Some (JArr (map coerce vs), r)"
      unfolding read_array_def by (simp only: skip_Cons has_prefix_Cons) simp
    then show ?thesis by simp
  qed (simp add: read_array_def)
next
  case (8 d ms)
  let ?ms = "map (\<lambda>m. enc_string (fst m) @ '':'' @ enc (snd m)) ms"
  let ?s = "commas ?ms @ ''}'' @ r"
  show ?case
  proof (cases "ms = []")
    case False
    have p: "\<forall>m \<in> set ms. \<forall>r. read_value d (enc (snd m) @ r) = Some (coerce (snd m), r) \<and> skip (enc (snd m) @ r) = enc (snd m) @ r"
      using 8 skip_enc unfolding printable.simps list_all_iff by blast
    have "length ms \<le> length ?s" using commas_length [of ?ms] by simp
    with read_members_enc [OF p False] have "read_members (read_value d) (length ?s) ?s = Some (map (\<lambda>m. (to_valid (fst m), coerce (snd m))) ms, r)" by blast
    moreover obtain t where "?s = quote_char # t"
      using False commas_Cons [of "tl ?ms" "hd ?ms"] by (cases ms; cases "tl ms") (auto simp: enc_string_def)
    ultimately have "read_object (read_value d) ?s = Some (coerce (JObj ms), r)"
      unfolding read_object_def by (simp only: skip_punct has_prefix_Cons) (simp add: quote_char_def)
    then show ?thesis by simp
  qed (simp add: read_object_def)
qed simp_all

lemma printable_mono: "printable d v \<Longrightarrow> d \<le> e \<Longrightarrow> printable e v"
proof (induction d v arbitrary: e rule: printable.induct)
  case (6 d vs)
  then show ?case by (cases e) (auto simp: list_all_iff)
next
  case (8 d ms)
  then show ?case by (cases e) (auto simp: list_all_iff)
qed simp_all

text \<open>
  What is printed is read back with its texts made valid, whatever white space follows, as long as its containers are not nested deeper than the
  reader allows.
\<close>

lemma parse_enc: "printable max_nesting v \<Longrightarrow> list_all json_space w \<Longrightarrow> parse_json (enc v @ w) = Some (coerce v)"
  by (simp add: parse_json_def read_value_enc) (simp add: skip_def list_all_iff)

section \<open>Decoding into Go values\<close>

definition num_value :: "string \<Rightarrow> rat" where
  "num_value s =
     (let mant = takeWhile (\<lambda>c. is_digit c \<or> c = CHR ''.'') s;
          digits = filter is_digit mant;
          scale = length (drop 1 (dropWhile is_digit mant));
          ex = drop (Suc (length mant)) s;
          e = (if has_prefix ex ''-'' then - int (dec_val (drop 1 ex))
               else if has_prefix ex ''+'' then int (dec_val (drop 1 ex)) else int (dec_val ex));
          m = of_nat (dec_val digits) / 10 ^ scale
      in if 0 \<le> e then m * 10 ^ nat e else m / 10 ^ nat (- e))"

text \<open>A number as a \<^verbatim>\<open>float64\<close> and as an \<^verbatim>\<open>int64\<close>; \<open>None\<close> is an \<^verbatim>\<open>UnmarshalTypeError\<close>.\<close>

definition num_float :: "string \<Rightarrow> float64 option" where
  "num_float s =
     (let x = round64 (num_value (if has_prefix s ''-'' then drop 1 s else s))
      in if x < 2 ^ 1024 then Some (if has_prefix s ''-'' then - x else x) else None)"

definition num_int :: "string \<Rightarrow> int option" where
  "num_int s =
     (let d = (if has_prefix s ''-'' then drop 1 s else s);
          i = (if has_prefix s ''-'' then - int (dec_val d) else int (dec_val d))
      in if d \<noteq> [] \<and> list_all is_digit d \<and> - (2 ^ 63) \<le> i \<and> i < 2 ^ 63 then Some i else None)"

fun any_ok :: "json \<Rightarrow> bool" where
  "any_ok (JNum t) = (num_float t \<noteq> None)"
| "any_ok (JArr vs) = list_all any_ok vs"
| "any_ok (JObj ms) = list_all (\<lambda>m. any_ok (snd m)) ms"
| "any_ok _ = True"

text \<open>\<^verbatim>\<open>Unmarshal\<close> into a \<^verbatim>\<open>map[string]interface{}\<close>: the members, or \<open>None\<close> for an error.\<close>

definition unmarshal_object :: "string \<Rightarrow> (string \<times> json) list option" where
  "unmarshal_object s =
     (case parse_json s of
        Some (JObj ms) \<Rightarrow> if any_ok (JObj ms) then Some ms else None
      | Some JNull \<Rightarrow> Some []
      | _ \<Rightarrow> None)"

definition get_string :: "string \<Rightarrow> (string \<times> json) list \<Rightarrow> string option" where
  "get_string k ms = (case obj_get k ms of Some (JStr s) \<Rightarrow> Some s | _ \<Rightarrow> None)"

text \<open>A map of strings is printed in the order of its keys.\<close>

definition json_of_map :: "(string, string) gomap \<Rightarrow> json" where
  "json_of_map m = JObj (map (\<lambda>(k, v). (k, JStr v)) (sort_key fst m))"

lemma any_ok_printable: "printable d v \<Longrightarrow> any_ok (coerce v)"
  by (induction d v rule: printable.induct) (auto simp: list_all_iff)

lemma unmarshal_enc:
  "printable max_nesting (JObj ms) \<Longrightarrow> list_all json_space w \<Longrightarrow> unmarshal_object (enc (JObj ms) @ w) = Some (map (\<lambda>m. (to_valid (fst m), coerce (snd m))) ms)"
  using any_ok_printable [of max_nesting "JObj ms"]
  by (simp add: unmarshal_object_def parse_enc del: enc.simps any_ok.simps)

lemma max_nesting_Suc: "max_nesting = Suc (Suc 9998)"
  by (simp add: max_nesting_def)

lemma printable_max: "printable 2 v \<Longrightarrow> printable max_nesting v"
  unfolding max_nesting_def by (erule printable_mono) simp

lemma json_of_map_printable [simp]: "printable (Suc d) (json_of_map m)"
  by (auto simp: json_of_map_def list_all_iff)

lemma json_of_map_get:
  assumes "keys_ok m"
  shows "mget (map (\<lambda>(k, v). (k, f v)) (sort_key fst m)) k = map_option f (mget m k)"
proof -
  have "mget (sort_key fst m) = mget m"
    using assms unfolding keys_ok_def by (intro map_of_eqI) (auto simp: map_of_eq_Some_iff distinct_map)
  then show ?thesis by (simp add: map_of_map)
qed

section \<open>Lines\<close>

definition line_feed :: char where
  "line_feed = CHR 0x0A"

text \<open>The lines that are complete; what follows the last line feed is not one.\<close>

definition full_lines :: "string \<Rightarrow> string list" where
  "full_lines s = butlast (split_on line_feed s)"

lemma full_lines_Nil [simp]: "full_lines [] = []"
  by (simp add: full_lines_def)

lemma full_lines_Cons: "line_feed \<notin> set l \<Longrightarrow> full_lines (l @ line_feed # s) = l # full_lines s"
  by (simp add: full_lines_def split_on_append)

lemma full_lines_concat:
  "\<forall>l \<in> set ls. line_feed \<notin> set l \<Longrightarrow> full_lines (concat (map (\<lambda>l. l @ [line_feed]) ls)) = ls"
  by (induction ls) (simp_all add: full_lines_Cons)

lemma digit_code [simp]: "n < 10 \<Longrightarrow> ascii_code (digit n) = 48 + n"
  by (simp add: digit_def)

lemma enc_char_visible: "x \<in> set (enc_char c) \<Longrightarrow> 32 \<le> ascii_code x"
proof -
  have h: "32 \<le> ascii_code (hex_digit n)" if "n < 16" for n using that by (auto simp: hex_digit_def)
  have "ascii_code c < 256" unfolding ascii_code_def by (metis of_char_mod_256 mod_less_divisor zero_less_numeral)
  assume "x \<in> set (enc_char c)"
  then show ?thesis
    using h [of "ascii_code c div 16"] h [of "ascii_code c mod 16"]
    by (auto simp: enc_char_def Let_def quote_char_def backslash_def ascii_code_def split: if_splits)
qed

lemma enc_rune_visible: "rune_ok r \<Longrightarrow> x \<in> set (enc_rune r) \<Longrightarrow> 32 \<le> ascii_code x"
  by (auto simp: enc_rune_def rune_ok_def backslash_def ascii_code_def split: list.splits if_splits dest: enc_char_visible [unfolded ascii_code_def])

lemma enc_string_visible: "x \<in> set (enc_string s) \<Longrightarrow> 32 \<le> ascii_code x"
  using runes_ok [of s] by (auto simp: enc_string_def dest: enc_rune_visible) (simp add: quote_char_def ascii_code_def)

lemma commas_visible:
  "x \<in> set (commas ss) \<Longrightarrow> \<forall>s \<in> set ss. \<forall>x \<in> set s. 32 \<le> ascii_code x \<Longrightarrow> 32 \<le> ascii_code x"
  by (induction ss rule: commas.induct) (auto simp: ascii_code_def)

text \<open>Nothing that is printed holds a control character; so a line feed ends exactly one value.\<close>

lemma enc_visible: "printable d v \<Longrightarrow> x \<in> set (enc v) \<Longrightarrow> 32 \<le> ascii_code x"
proof (induction d v arbitrary: x rule: printable.induct)
  case (6 d vs)
  from 6 have "\<forall>s \<in> set (map enc vs). \<forall>x \<in> set s. 32 \<le> ascii_code x" by (auto simp: list_all_iff)
  with 6(3) commas_visible [of x "map enc vs"] show ?case by (auto simp: ascii_code_def)
next
  case (8 d ms)
  let ?ms = "map (\<lambda>m. enc_string (fst m) @ '':'' @ enc (snd m)) ms"
  from 8 have "\<forall>s \<in> set ?ms. \<forall>x \<in> set s. 32 \<le> ascii_code x"
    by (auto simp: list_all_iff dest: enc_string_visible) (auto simp: ascii_code_def)
  with 8(3) commas_visible [of x ?ms] show ?case by (auto simp: ascii_code_def)
qed (auto simp: ascii_code_def split: if_splits dest: enc_string_visible [unfolded ascii_code_def])

lemma enc_one_line: "printable d v \<Longrightarrow> line_feed \<notin> set (enc v)"
  using enc_visible [of d v line_feed] by (auto simp: line_feed_def ascii_code_def)

section \<open>Evaluation\<close>

lemma read_elems_mono:
  "(\<And>s x. p s = Some x \<Longrightarrow> q s = Some x) \<Longrightarrow> read_elems p n s = Some y \<Longrightarrow> read_elems q n s = Some y"
  by (induction p n s arbitrary: y rule: read_elems.induct) (fastforce split: option.splits prod.splits list.splits if_splits)+

lemma read_members_mono:
  "(\<And>s x. p s = Some x \<Longrightarrow> q s = Some x) \<Longrightarrow> read_members p n s = Some y \<Longrightarrow> read_members q n s = Some y"
  by (induction p n s arbitrary: y rule: read_members.induct) (fastforce split: option.splits prod.splits list.splits if_splits)+

lemma read_array_mono:
  "(\<And>s x. p s = Some x \<Longrightarrow> q s = Some x) \<Longrightarrow> read_array p s = Some y \<Longrightarrow> read_array q s = Some y"
  using read_elems_mono [of p q] by (auto simp: read_array_def split: if_splits)

lemma read_object_mono:
  "(\<And>s x. p s = Some x \<Longrightarrow> q s = Some x) \<Longrightarrow> read_object p s = Some y \<Longrightarrow> read_object q s = Some y"
  using read_members_mono [of p q] by (auto simp: read_object_def split: if_splits)

lemma read_value_Suc: "read_value d s = Some y \<Longrightarrow> read_value (Suc d) s = Some y"
proof (induction d arbitrary: s y)
  case 0
  then have "\<not> has_prefix s ''[''" "\<not> has_prefix s ''{''"
    by (auto simp: read_scalar_def read_number_def has_prefix_def digits_of_def quote_char_def is_digit_def ascii_code_def
        split: if_splits) (cases s; auto simp: is_digit_def ascii_code_def)+
  with 0 show ?case by simp
next
  case (Suc d)
  have a: "read_array (read_value d) t = Some y \<Longrightarrow> read_array (read_value (Suc d)) t = Some y"
    and o: "read_object (read_value d) t = Some y \<Longrightarrow> read_object (read_value (Suc d)) t = Some y" for t
    by (erule read_array_mono [rotated] read_object_mono [rotated], erule Suc.IH)+
  from Suc.prems show ?case
    using a [of "drop 1 s"] o [of "drop 1 s"]
    unfolding read_value.simps(2) [of "Suc d" s] read_value.simps(2) [of d s] by presburger
qed

text \<open>A small nesting is enough to evaluate a small text.\<close>

lemma parse_json_eval:
  assumes "(case read_value d (skip s) of None \<Rightarrow> None | Some (v, r) \<Rightarrow> if skip r = [] then Some v else None) = Some v" "d \<le> max_nesting"
  shows "parse_json s = Some v"
proof -
  have "read_value d t = Some y \<Longrightarrow> read_value (d + k) t = Some y" for t y k by (induction k) (auto simp del: read_value.simps intro: read_value_Suc)
  from this [of "skip s" _ "max_nesting - d"] assms show ?thesis unfolding parse_json_def by (auto split: option.splits if_splits)
qed

end
