(* ===== verification/Agent.thy ===== *)
theory Agent
  imports Json
begin

text \<open>
  The test agent, \<^verbatim>\<open>peer_service/tools/test_agent/main.go\<close>: it runs one GUI process and forwards to it what the test
  orchestrator sends, one JSON object per line. The file system, the processes and the test port of the GUI are the parameter
  \<open>gui_env\<close>, one value for every command. Errors are their texts, \<^verbatim>\<open>nil\<close> is \<open>None\<close>; durations are nanoseconds.
\<close>

section \<open>State\<close>

record agent =
  GUIProcess :: "string option"
  GUIPort :: nat
  DefaultBinPath :: string

datatype stat_result = Exists | NotExist | StatFailed

text \<open>
  \<open>gui_output\<close> is what the GUI prints on both of its outputs in the 30 seconds after its start, in the order in which the lines
  arrive. \<open>gui_reply\<close> is the line with which it answers a payload, and after how long; \<open>None\<close> if it closes the connection or
  never answers.
\<close>

record gui_env =
  stat_of :: "string \<Rightarrow> stat_result"
  abs_of :: "string \<Rightarrow> string option"
  stdout_err :: "string option"
  stderr_err :: "string option"
  start_err :: "string \<Rightarrow> string option"
  gui_output :: "string list"
  dial :: "nat \<Rightarrow> nat \<Rightarrow> string option"
  gui_write :: "string option"
  gui_reply :: "string \<Rightarrow> (nat \<times> string) option"

section \<open>The GUI process\<close>

definition DefaultGuiTestPort :: nat where
  "DefaultGuiTestPort = 19999"

definition port_text :: string where
  "port_text = ''Test server listening on port ''"

text \<open>The first group of the leftmost match of \<^verbatim>\<open>Test server listening on port (\d+)\<close>, and \<^verbatim>\<open>strconv.Atoi\<close> of it.\<close>

fun port_match :: "string \<Rightarrow> string option" where
  "port_match [] = None"
| "port_match (c # s) =
     (let d = takeWhile is_digit (drop (length port_text) (c # s))
      in if has_prefix (c # s) port_text \<and> d \<noteq> [] then Some d else port_match s)"

definition scan_line :: "string \<Rightarrow> nat option" where
  "scan_line line =
     (case port_match line of None \<Rightarrow> None | Some d \<Rightarrow> if dec_val d < 2 ^ 63 then Some (dec_val d) else None)"

definition discovered_port :: "string list \<Rightarrow> nat" where
  "discovered_port ls = (case List.map_filter scan_line ls of [] \<Rightarrow> DefaultGuiTestPort | p # ps \<Rightarrow> p)"

definition candidates :: "string list" where
  "candidates = [''build/bin/P2PTogether'', ''build/P2PTogether'', ''bin/P2PTogether'']"

definition resolve_binary :: "gui_env \<Rightarrow> string \<Rightarrow> string" where
  "resolve_binary G binPath =
     (let found =
        (if stat_of G binPath = NotExist \<and> binPath = ''./P2PTogether'' then
           (case List.find (\<lambda>c. stat_of G c = Exists) candidates of None \<Rightarrow> binPath | Some c \<Rightarrow> c)
         else binPath)
      in (case abs_of G found of None \<Rightarrow> found | Some p \<Rightarrow> p))"

definition StartGUI :: "gui_env \<Rightarrow> string \<Rightarrow> agent \<Rightarrow> string option \<times> agent" where
  "StartGUI G binPath a =
     (if GUIProcess a \<noteq> None then (Some ''GUI already running'', a)
      else
        (let bin = resolve_binary G (if binPath = '''' then DefaultBinPath a else binPath)
         in (case stdout_err G of
               Some e \<Rightarrow> (Some (''failed to create stdout pipe: '' @ e), a)
             | None \<Rightarrow>
                 (case stderr_err G of
                    Some e \<Rightarrow> (Some (''failed to create stderr pipe: '' @ e), a)
                  | None \<Rightarrow>
                      (case start_err G bin of
                         Some e \<Rightarrow> (Some e, a)
                       | None \<Rightarrow> (None, a\<lparr>GUIProcess := Some bin, GUIPort := discovered_port (gui_output G)\<rparr>))))))"

definition StopGUI :: "agent \<Rightarrow> string option \<times> agent" where
  "StopGUI a = (if GUIProcess a = None then (None, a) else (None, a\<lparr>GUIProcess := None\<rparr>))"

section \<open>A command for the GUI\<close>

text \<open>Attempts \<open>i\<close>, \<open>i + 1\<close>, ... of at most \<open>n\<close>; \<open>err\<close> is the error of the last one.\<close>

fun dial_loop :: "gui_env \<Rightarrow> nat \<Rightarrow> nat \<Rightarrow> nat \<Rightarrow> string option \<Rightarrow> string option" where
  "dial_loop G port i 0 err = err"
| "dial_loop G port i (Suc n) err = (case dial G i port of None \<Rightarrow> None | Some e \<Rightarrow> dial_loop G port (Suc i) n (Some e))"

definition millisecond :: i64 where
  "millisecond = 1000000"

text \<open>The conversion of a \<^verbatim>\<open>float64\<close> that is not negative to an \<^verbatim>\<open>int64\<close>; beyond its range the amd64 instruction gives \<open>-(2 ^ 63)\<close>.\<close>

definition trunc64 :: "float64 \<Rightarrow> i64" where
  "trunc64 x = (if x < 2 ^ 63 then word_of_int \<lfloor>x\<rfloor> else word_of_int (- (2 ^ 63)))"

definition read_timeout :: "string \<Rightarrow> i64" where
  "read_timeout payload =
     (case unmarshal_object payload of
        None \<Rightarrow> 2000 * millisecond
      | Some ms \<Rightarrow>
          (if get_string ''action'' ms = Some ''wait_for_event'' then
             (case obj_get ''args'' ms of
                Some (JObj args) \<Rightarrow>
                  (case obj_get ''timeout_ms'' args of
                     Some (JNum t) \<Rightarrow>
                       (case num_float t of
                          Some x \<Rightarrow> if x > 0 then trunc64 (round64 (x + 5000)) * millisecond else 125000 * millisecond
                        | None \<Rightarrow> 125000 * millisecond)
                   | _ \<Rightarrow> 125000 * millisecond)
              | _ \<Rightarrow> 125000 * millisecond)
           else 2000 * millisecond))"

definition SendGUICommand :: "gui_env \<Rightarrow> string \<Rightarrow> agent \<Rightarrow> string + string" where
  "SendGUICommand G payload a =
     (case dial_loop G (GUIPort a) 0 10 None of
        Some e \<Rightarrow> Inl (''failed to connect to GUI test server after retries: '' @ e)
      | None \<Rightarrow>
          (case gui_write G of
             Some e \<Rightarrow> Inl e
           | None \<Rightarrow>
               (case gui_reply G payload of
                  None \<Rightarrow> Inr ''''
                | Some (t, respLine) \<Rightarrow>
                    Inr (if int t < sint (read_timeout payload) then trim_space respLine else ''''))))"

section \<open>Commands of the orchestrator\<close>

record command =
  Action :: string
  Args :: "(string, string) gomap"

text \<open>
  \<^verbatim>\<open>Unmarshal\<close> into a \<^verbatim>\<open>Command\<close>: members are matched without regard to case, other members are ignored, and a value of the
  wrong type is remembered as an error (the flag).
\<close>

fun decode_args :: "(string \<times> json) list \<Rightarrow> bool \<times> (string, string) gomap \<Rightarrow> bool \<times> (string, string) gomap" where
  "decode_args [] acc = acc"
| "decode_args ((k, v) # ms) (ok, m) =
     decode_args ms
       (case v of
          JStr s \<Rightarrow> (ok, mput m k s)
        | JNull \<Rightarrow> (ok, mput m k '''')
        | _ \<Rightarrow> (False, mput m k ''''))"

fun decode_command_members :: "(string \<times> json) list \<Rightarrow> bool \<times> command \<Rightarrow> bool \<times> command" where
  "decode_command_members [] acc = acc"
| "decode_command_members ((k, v) # ms) (ok, c) =
     decode_command_members ms
       (if to_lower k = ''action'' then
          (case v of JStr s \<Rightarrow> (ok, c\<lparr>Action := s\<rparr>) | JNull \<Rightarrow> (ok, c) | _ \<Rightarrow> (False, c))
        else if to_lower k = ''args'' then
          (case v of
             JObj as \<Rightarrow> (let (ok', m) = decode_args as (ok, Args c) in (ok', c\<lparr>Args := m\<rparr>))
           | JNull \<Rightarrow> (ok, c\<lparr>Args := []\<rparr>)
           | _ \<Rightarrow> (False, c))
        else (ok, c))"

definition decode_command :: "string \<Rightarrow> command option" where
  "decode_command s =
     (case parse_json s of
        Some (JObj ms) \<Rightarrow>
          (case decode_command_members ms (True, \<lparr>Action = '''', Args = []\<rparr>) of (ok, c) \<Rightarrow> if ok then Some c else None)
      | Some JNull \<Rightarrow> Some \<lparr>Action = '''', Args = []\<rparr>
      | _ \<Rightarrow> None)"

text \<open>\<^verbatim>\<open>Marshal\<close> of a \<^verbatim>\<open>Response\<close>: the error and the data are left out when they are empty.\<close>

definition response_json :: "string \<Rightarrow> string \<Rightarrow> string \<Rightarrow> json" where
  "response_json st err data =
     JObj ([(''status'', JStr st)]
       @ (if err = '''' then [] else [(''error'', JStr err)])
       @ (if data = '''' then [] else [(''data'', JStr data)]))"

definition successResponse :: "string \<Rightarrow> string" where
  "successResponse data = enc (response_json ''ok'' '''' data)"

definition successResponseWithData :: "string \<Rightarrow> string" where
  "successResponseWithData data = enc (response_json ''ok'' '''' data)"

definition errorResponse :: "string \<Rightarrow> string" where
  "errorResponse msg = enc (response_json ''error'' msg '''')"

definition arg :: "command \<Rightarrow> string \<Rightarrow> string" where
  "arg c k = (case mget (Args c) k of None \<Rightarrow> '''' | Some v \<Rightarrow> v)"

definition forward_reply :: "string \<Rightarrow> string" where
  "forward_reply guiResponse =
     (case unmarshal_object guiResponse of
        None \<Rightarrow> successResponse ''OK''
      | Some ms \<Rightarrow> (case get_string ''data'' ms of Some data \<Rightarrow> successResponseWithData data | None \<Rightarrow> successResponse ''OK''))"

definition result_response :: "string option \<times> agent \<Rightarrow> string \<times> agent" where
  "result_response r = (case r of (Some e, a) \<Rightarrow> (errorResponse e, a) | (None, a) \<Rightarrow> (successResponse ''OK'', a))"

definition run_command :: "gui_env \<Rightarrow> command \<Rightarrow> agent \<Rightarrow> string \<times> agent" where
  "run_command G c a =
     (if Action c = ''start_gui'' then result_response (StartGUI G (arg c ''bin_path'') a)
      else if Action c = ''stop_gui'' then result_response (StopGUI a)
      else if Action c = ''gui_command'' then
        (case SendGUICommand G (arg c ''payload'') a of
           Inl e \<Rightarrow> (errorResponse e, a)
         | Inr guiResponse \<Rightarrow> (forward_reply guiResponse, a))
      else if Action c = ''ping'' then (successResponse ''pong'', a)
      else (errorResponse (''Unknown action: '' @ Action c), a))"

definition processCommand :: "gui_env \<Rightarrow> string \<Rightarrow> agent \<Rightarrow> string \<times> agent" where
  "processCommand G jsonCmd a =
     (case decode_command jsonCmd of None \<Rightarrow> (errorResponse ''Invalid JSON'', a) | Some c \<Rightarrow> run_command G c a)"

text \<open>The loop of a stream: \<open>n\<close> commands have been served. Every line is passed with its line feed.\<close>

fun serve_lines :: "(nat \<Rightarrow> gui_env) \<Rightarrow> nat \<Rightarrow> string list \<Rightarrow> agent \<Rightarrow> string \<times> agent" where
  "serve_lines G n [] a = ('''', a)"
| "serve_lines G n (l # ls) a =
     (let (r, a1) = processCommand (G n) (l @ [line_feed]) a;
          (out, a2) = serve_lines G (Suc n) ls a1
      in (r @ [line_feed] @ out, a2))"

definition handleStream :: "(nat \<Rightarrow> gui_env) \<Rightarrow> string \<Rightarrow> agent \<Rightarrow> string \<times> agent" where
  "handleStream G input a = serve_lines G 0 (full_lines input) a"

text \<open>The addresses of a peer, private ones first.\<close>

fun split_local :: "(string \<Rightarrow> bool) \<Rightarrow> string list \<Rightarrow> string list \<times> string list \<Rightarrow> string list \<times> string list" where
  "split_local priv [] acc = acc"
| "split_local priv (a # as) (local, public) =
     split_local priv as (if priv a then (local @ [a], public) else (local, public @ [a]))"

definition tool_sortAddresses :: "(string \<Rightarrow> bool) \<Rightarrow> string list \<Rightarrow> string list" where
  "tool_sortAddresses priv addrs = (case split_local priv addrs ([], []) of (local, public) \<Rightarrow> local @ public)"

section \<open>Lemmas\<close>

lemma response_json_printable [simp]: "printable (Suc d) (response_json st err data)"
  by (simp add: response_json_def)

text \<open>A response is one line, and reading it gives back its parts, with the bytes that are not UTF-8 replaced.\<close>

definition response_of :: "string \<Rightarrow> string \<Rightarrow> string \<Rightarrow> (string \<times> json) list" where
  "response_of st err data = (case response_json st err data of JObj ms \<Rightarrow> ms | _ \<Rightarrow> [])"

lemma response_json_eq: "response_json st err data = JObj (response_of st err data)"
  by (simp add: response_of_def response_json_def)

lemma response_valid:
  "map (\<lambda>m. (to_valid (fst m), coerce (snd m))) (response_of st err data) = response_of (to_valid st) (to_valid err) (to_valid data)"
proof -
  have "to_valid ''status'' = ''status''" "to_valid ''error'' = ''error''" "to_valid ''data'' = ''data''" by code_simp+
  then show ?thesis by (simp add: response_of_def response_json_def)
qed

lemma unmarshal_response:
  assumes "list_all json_space w"
  shows "unmarshal_object (enc (response_json st err data) @ w) = Some (response_of (to_valid st) (to_valid err) (to_valid data))"
proof -
  have "printable max_nesting (JObj (response_of st err data))"
    unfolding response_json_eq [symmetric] max_nesting_Suc by (rule response_json_printable)
  from unmarshal_enc [OF this assms] show ?thesis unfolding response_json_eq response_valid .
qed

lemma status_valid: "st \<in> {''ok'', ''error''} \<Longrightarrow> to_valid st = st"
  by (elim insertE emptyE; hypsubst; code_simp)

lemma response_get:
  "get_string ''status'' (response_of st err data) = Some st"
  "get_string ''data'' (response_of st err data) = (if data = '''' then None else Some data)"
  "get_string ''error'' (response_of st err data) = (if err = '''' then None else Some err)"
  by (simp_all add: response_of_def response_json_def get_string_def obj_get_def)

definition is_response :: "string \<Rightarrow> bool" where
  "is_response r \<longleftrightarrow> (\<exists>st err data. st \<in> {''ok'', ''error''} \<and> r = enc (response_json st err data))"

lemma is_response_simps [simp]:
  "is_response (successResponse d)" "is_response (successResponseWithData d)" "is_response (errorResponse e)"
  unfolding is_response_def successResponse_def successResponseWithData_def errorResponse_def by blast+

lemma processCommand_response: "is_response (fst (processCommand G l a))"
  by (auto simp: processCommand_def run_command_def result_response_def forward_reply_def split: option.split sum.split prod.split)

lemma is_response_line:
  assumes "is_response r"
  shows "line_feed \<notin> set r \<and> (\<exists>ms. unmarshal_object (r @ [line_feed]) = Some ms \<and> get_string ''status'' ms \<in> {Some ''ok'', Some ''error''})"
proof -
  obtain st err data where r: "st \<in> {''ok'', ''error''}" "r = enc (response_json st err data)"
    using assms unfolding is_response_def by blast
  have "line_feed \<notin> set r" unfolding r(2) by (rule enc_one_line [OF response_json_printable])
  moreover have "unmarshal_object (r @ [line_feed]) = Some (response_of (to_valid st) (to_valid err) (to_valid data))"
    unfolding r(2) by (rule unmarshal_response) (simp add: json_space_def line_feed_def ascii_code_def)
  ultimately show ?thesis using r(1) response_get(1) status_valid [OF r(1)] by auto
qed

lemma serve_lines_responses:
  "\<exists>rs. length rs = length ls \<and> fst (serve_lines G n ls a) = concat (map (\<lambda>r. r @ [line_feed]) rs) \<and> list_all is_response rs"
proof (induction ls arbitrary: n a)
  case (Cons l ls)
  obtain r a1 where p: "processCommand (G n) (l @ [line_feed]) a = (r, a1)" by (cases "processCommand (G n) (l @ [line_feed]) a")
  obtain rs where "length rs = length ls" "fst (serve_lines G (Suc n) ls a1) = concat (map (\<lambda>r. r @ [line_feed]) rs)" "list_all is_response rs"
    using Cons.IH [of "Suc n" a1] by blast
  then show ?case using processCommand_response [of "G n" "l @ [line_feed]" a] p
    by (intro exI [of _ "r # rs"]) (simp add: case_prod_beta)
qed simp

text \<open>Commands the orchestrator prints.\<close>

definition command_json :: "string \<Rightarrow> (string, string) gomap \<Rightarrow> json" where
  "command_json action args = JObj [(''action'', JStr action), (''args'', json_of_map args)]"

lemma command_json_printable [simp]: "printable (Suc (Suc d)) (command_json action args)"
  by (simp add: command_json_def)

lemma decode_args_strings:
  "decode_args (map (\<lambda>(k, v). (k, JStr v)) kvs) (ok, m) = (ok, fold (\<lambda>(k, v) m. mput m k v) kvs m)"
  by (induction kvs arbitrary: m) auto

lemma mget_fold_mput:
  "distinct (map fst kvs) \<Longrightarrow> mget (fold (\<lambda>(k, v) m. mput m k v) kvs m) k = (case mget kvs k of None \<Rightarrow> mget m k | Some v \<Rightarrow> Some v)"
proof (induction kvs arbitrary: m)
  case (Cons e kvs)
  obtain a b where e: "e = (a, b)" by (cases e)
  with Cons.prems have "distinct (map fst kvs)" "mget kvs a = None" by (simp_all add: map_of_eq_None_iff)
  with Cons.IH [OF this(1), of "mput m a b"] show ?case by (simp add: e split: option.split)
qed simp

lemma command_json_valid:
  assumes "utf8_ok action" "\<forall>(k, v) \<in> set args. utf8_ok k \<and> utf8_ok v"
  shows "coerce (command_json action args) = command_json action args"
proof -
  have "to_valid ''action'' = ''action''" "to_valid ''args'' = ''args''" by code_simp+
  then show ?thesis using assms by (auto simp: command_json_def json_of_map_def utf8_ok_valid)
qed

lemma decode_printed:
  assumes "keys_ok args" "list_all json_space w" "utf8_ok action" "\<forall>(k, v) \<in> set args. utf8_ok k \<and> utf8_ok v"
  shows "\<exists>m. decode_command (enc (command_json action args) @ w) = Some \<lparr>Action = action, Args = m\<rparr> \<and> (\<forall>k. mget m k = mget args k)"
proof -
  let ?s = "sort_key fst args"
  have names: "to_lower ''action'' = ''action''" "to_lower ''args'' = ''args''" by code_simp+
  have "parse_json (enc (command_json action args) @ w) = Some (command_json action args)"
    using parse_enc [of "command_json action args" w] assms(2)
    by (simp only: max_nesting_Suc command_json_printable command_json_valid [OF assms(3,4)] True_implies_equals)
  then have "decode_command (enc (command_json action args) @ w)
      = Some \<lparr>Action = action, Args = fold (\<lambda>(k, v) m. mput m k v) ?s []\<rparr>"
    by (simp add: decode_command_def command_json_def json_of_map_def names decode_args_strings)
  moreover have "mget (fold (\<lambda>(k, v) m. mput m k v) ?s []) k = mget args k" for k
  proof -
    have "distinct (map fst ?s)" using assms(1) by (simp add: keys_ok_def distinct_map)
    then show ?thesis using json_of_map_get [OF assms(1), of "\<lambda>x. x" k]
      by (simp add: mget_fold_mput split: option.split)
  qed
  ultimately show ?thesis by blast
qed

section \<open>Properties\<close>

text \<open>
  Whatever the orchestrator sends and the GUI does, the agent answers every complete line with exactly one line, which
  is a JSON object with a status; a line feed inside of data or of an error is escaped, so that answers never run together.
\<close>

theorem agent_answers_each_line:
  "\<exists>rs. full_lines (fst (handleStream G input a)) = rs \<and> length rs = length (full_lines input)
    \<and> fst (handleStream G input a) = concat (map (\<lambda>r. r @ [line_feed]) rs)
    \<and> (\<forall>r \<in> set rs. \<exists>ms. unmarshal_object (r @ [line_feed]) = Some ms \<and> get_string ''status'' ms \<in> {Some ''ok'', Some ''error''})"
proof -
  obtain rs where rs: "length rs = length (full_lines input)" "fst (handleStream G input a) = concat (map (\<lambda>r. r @ [line_feed]) rs)"
    "list_all is_response rs"
    using serve_lines_responses [of "full_lines input" G 0 a] unfolding handleStream_def by blast
  have line: "line_feed \<notin> set r \<and> (\<exists>ms. unmarshal_object (r @ [line_feed]) = Some ms \<and> get_string ''status'' ms \<in> {Some ''ok'', Some ''error''})"
    if "r \<in> set rs" for r
    using rs(3) that is_response_line unfolding list_all_iff by blast
  then have "full_lines (fst (handleStream G input a)) = rs" unfolding rs(2) by (intro full_lines_concat) blast
  with rs line show ?thesis by blast
qed

end
