(* ===== verification/Orchestrator.thy ===== *)
theory Orchestrator
  imports Agent Discovery
begin

text \<open>
  The test orchestrator, \<^verbatim>\<open>peer_service/tools/test_orchestrator/main.go\<close>: it finds the agents, keeps one stream to each and
  sends them the steps of a scenario. What libp2p does at an attempt to talk to an agent is the parameter \<open>attempt_net\<close>; a
  stream is a number. The goroutines of one step are taken one after another, in an order that is an argument. An identifier of
  fewer than 16 bytes makes the code panic when it shortens it for the log: such a run has no result (\<open>None\<close>).
\<close>

section \<open>State\<close>

record orchestrator =
  Agents :: "(string, addr_info) gomap"
  AgentStreams :: "(string, nat) gomap"
  Variables :: "(string, string) gomap"
  written :: "(nat \<times> string) list"
  closed_streams :: "nat list"

definition new_orchestrator :: orchestrator where
  "new_orchestrator = \<lparr>Agents = [], AgentStreams = [], Variables = [], written = [], closed_streams = []\<rparr>"

text \<open>
  One attempt: the errors of \<^verbatim>\<open>Connect\<close>, \<^verbatim>\<open>NewStream\<close> (or the new stream) and of the two writes, and the line
  that is read in reply to what was written, or the error of reading it.
\<close>

record attempt_net =
  at_connect :: "addr_info \<Rightarrow> string option"
  at_stream :: "string + nat"
  at_write :: "string option"
  at_newline :: "string option"
  at_reply :: "string \<Rightarrow> string + string"

section \<open>Finding the agents\<close>

definition log_id_ok :: "string \<Rightarrow> bool" where
  "log_id_ok i \<longleftrightarrow> 16 \<le> length i"

definition orch_HandlePeerFound :: "codec \<Rightarrow> addr_info \<Rightarrow> orchestrator \<Rightarrow> orchestrator option" where
  "orch_HandlePeerFound K info st =
     (let i = pid_string K (ai_ID info)
      in if mget (Agents st) i = None
         then (if log_id_ok i then Some (st\<lparr>Agents := mput (Agents st) i info\<rparr>) else None)
         else Some st)"

text \<open>One round over the peers the DHT reports; an empty identifier is skipped.\<close>

fun discovery_round :: "codec \<Rightarrow> peer_id \<Rightarrow> addr_info list \<Rightarrow> orchestrator \<Rightarrow> orchestrator option" where
  "discovery_round K self [] st = Some st"
| "discovery_round K self (info # ps) st =
     (if ai_ID info = self \<or> ai_ID info = PeerID '''' then discovery_round K self ps st
      else if \<not> log_id_ok (pid_string K (ai_ID info)) then None
      else (case orch_HandlePeerFound K info st of None \<Rightarrow> None | Some st1 \<Rightarrow> discovery_round K self ps st1))"

definition all_found :: "int \<Rightarrow> orchestrator \<Rightarrow> bool" where
  "all_found expectedAgents st \<longleftrightarrow> expectedAgents \<le> int (length (Agents st))"

text \<open>The loop of \<^verbatim>\<open>main\<close> that connects to the agents, private addresses first.\<close>

fun connect_agents :: "(string \<Rightarrow> bool) \<Rightarrow> (string \<Rightarrow> attempt_net) \<Rightarrow> (string \<times> addr_info) list \<Rightarrow> orchestrator \<Rightarrow> orchestrator option" where
  "connect_agents priv N [] st = Some st"
| "connect_agents priv N ((i, info) # as) st =
     (if \<not> log_id_ok i then None
      else
        (let info' = info\<lparr>ai_Addrs := tool_sortAddresses priv (ai_Addrs info)\<rparr>
         in (case at_connect (N i) info' of
               Some e \<Rightarrow> connect_agents priv N as st
             | None \<Rightarrow>
                 (case at_stream (N i) of
                    Inl e \<Rightarrow> connect_agents priv N as st
                  | Inr s \<Rightarrow> connect_agents priv N as (st\<lparr>AgentStreams := mput (AgentStreams st) i s\<rparr>)))))"

section \<open>Variables\<close>

text \<open>\<^verbatim>\<open>ReplaceAllStringFunc\<close> with the pattern \<^verbatim>\<open>\$\{([^}]+)\}\<close>: \<open>f\<close> gives the value of a variable.\<close>

definition var_text :: "string \<Rightarrow> string" where
  "var_text name = ''${'' @ name @ ''}''"

function substitute :: "(string \<Rightarrow> string option) \<Rightarrow> string \<Rightarrow> string" where
  "substitute f [] = []"
| "substitute f (c # s) =
     (let name = takeWhile (\<lambda>x. x \<noteq> CHR ''}'') (drop 1 s);
          rest = drop (Suc (length name)) s
      in if c = CHR ''$'' \<and> has_prefix s ''{'' \<and> name \<noteq> [] \<and> rest \<noteq> []
         then (case f name of Some v \<Rightarrow> v | None \<Rightarrow> var_text name) @ substitute f (tl rest)
         else c # substitute f s)"
  by pat_completeness auto
termination by (relation "measure (\<lambda>(f, s). length s)") auto

definition substituteVariables :: "orchestrator \<Rightarrow> (string, string) gomap \<Rightarrow> (string, string) gomap" where
  "substituteVariables st args = map (\<lambda>(k, v). (k, substitute (mget (Variables st)) v)) args"

section \<open>Sending a command\<close>

definition reconnectAgent :: "attempt_net \<Rightarrow> string \<Rightarrow> orchestrator \<Rightarrow> (string + nat) \<times> orchestrator" where
  "reconnectAgent N agentID st =
     (case mget (Agents st) agentID of
        None \<Rightarrow> (Inl (''agent '' @ take 16 agentID @ '' not found''), st)
      | Some info \<Rightarrow>
          (case at_connect N info of
             Some e \<Rightarrow> (Inl (''failed to connect: '' @ e), st)
           | None \<Rightarrow>
               (case at_stream N of
                  Inl e \<Rightarrow> (Inl (''failed to open stream: '' @ e), st)
                | Inr s \<Rightarrow> (Inr s, st\<lparr>AgentStreams := mput (AgentStreams st) agentID s\<rparr>))))"

definition strip_label :: "string \<Rightarrow> string" where
  "strip_label data = trim_space (trim_prefix (trim_prefix data ''Invite Code: '') ''Session ID: '')"

definition capture :: "string \<Rightarrow> string \<Rightarrow> orchestrator \<Rightarrow> orchestrator" where
  "capture captureAs respLine st =
     (if captureAs = '''' then st
      else
        (case unmarshal_object respLine of
           None \<Rightarrow> st
         | Some resp \<Rightarrow>
             (case get_string ''data'' resp of
                None \<Rightarrow> st
              | Some data \<Rightarrow> st\<lparr>Variables := mput (Variables st) captureAs (strip_label data)\<rparr>)))"

definition write_to :: "nat \<Rightarrow> string \<Rightarrow> orchestrator \<Rightarrow> orchestrator" where
  "write_to s t st = st\<lparr>written := written st @ [(s, t)]\<rparr>"

definition drop_stream :: "string \<Rightarrow> nat \<Rightarrow> orchestrator \<Rightarrow> orchestrator" where
  "drop_stream agentID s st =
     st\<lparr>AgentStreams := mdel (AgentStreams st) agentID, closed_streams := closed_streams st @ [s]\<rparr>"

datatype attempt_result = Done | Again | Failed string

text \<open>One turn of the loop over the attempts.\<close>

definition try_command :: "attempt_net \<Rightarrow> string \<Rightarrow> string \<Rightarrow> string \<Rightarrow> orchestrator \<Rightarrow> attempt_result \<times> orchestrator" where
  "try_command N agentID bytes captureAs st =
     (case (case mget (AgentStreams st) agentID of Some s \<Rightarrow> (Inr s, st) | None \<Rightarrow> reconnectAgent N agentID st) of
        (Inl e, st1) \<Rightarrow> (Failed (''no stream for agent '' @ take 16 agentID @ '' and reconnect failed: '' @ e), st1)
      | (Inr s, st1) \<Rightarrow>
          (if at_write N \<noteq> None then (Again, drop_stream agentID s st1)
           else
             (let st2 = write_to s bytes st1
              in if at_newline N \<noteq> None then (Again, drop_stream agentID s st2)
                 else
                   (let st3 = write_to s [line_feed] st2
                    in (case at_reply N (bytes @ [line_feed]) of
                          Inl e \<Rightarrow> (Again, drop_stream agentID s st3)
                        | Inr respLine \<Rightarrow> (Done, capture captureAs respLine st3))))))"

fun attempt_loop :: "(nat \<Rightarrow> attempt_net) \<Rightarrow> string \<Rightarrow> string \<Rightarrow> string \<Rightarrow> nat \<Rightarrow> nat \<Rightarrow> orchestrator \<Rightarrow> string option \<times> orchestrator" where
  "attempt_loop N agentID bytes captureAs attempt 0 st =
     (Some (''failed to communicate with agent '' @ take 16 agentID @ '' after retries''), st)"
| "attempt_loop N agentID bytes captureAs attempt (Suc n) st =
     (case try_command (N attempt) agentID bytes captureAs st of
        (Done, st1) \<Rightarrow> (None, st1)
      | (Failed e, st1) \<Rightarrow> (Some e, st1)
      | (Again, st1) \<Rightarrow> attempt_loop N agentID bytes captureAs (Suc attempt) n st1)"

definition SendCommand ::
  "(nat \<Rightarrow> attempt_net) \<Rightarrow> string \<Rightarrow> string \<Rightarrow> (string, string) gomap \<Rightarrow> string \<Rightarrow> orchestrator \<Rightarrow> (string option \<times> orchestrator) option" where
  "SendCommand N agentID action args captureAs st =
     (if \<not> log_id_ok agentID then None
      else Some (attempt_loop N agentID (enc (command_json action (substituteVariables st args))) captureAs 0 2 st))"

section \<open>Running a scenario\<close>

record step =
  DelayMs :: int
  AgentIndices :: "int list"
  step_Action :: string
  step_Args :: "(string, string) gomap"
  CaptureAs :: string

text \<open>
  The commands of a step: the index of the agent within the list of streams, and the variable for its answer, which only the
  first index has. An index that is too large is skipped, a negative one panics.
\<close>

fun step_jobs :: "string list \<Rightarrow> string \<Rightarrow> bool \<Rightarrow> int list \<Rightarrow> (string \<times> string) list option" where
  "step_jobs agentIDs cap isFirst [] = Some []"
| "step_jobs agentIDs cap isFirst (idx # is) =
     (if int (length agentIDs) \<le> idx then step_jobs agentIDs cap False is
      else if idx < 0 then None
      else map_option (\<lambda>js. (agentIDs ! nat idx, if isFirst then cap else '''') # js) (step_jobs agentIDs cap False is))"

fun run_jobs ::
  "(string \<Rightarrow> nat \<Rightarrow> attempt_net) \<Rightarrow> step \<Rightarrow> (string \<times> string) list \<Rightarrow> orchestrator \<Rightarrow> (string list \<times> orchestrator) option" where
  "run_jobs N s [] st = Some ([], st)"
| "run_jobs N s ((agentID, cap) # js) st =
     (case SendCommand (N agentID) agentID (step_Action s) (step_Args s) cap st of
        None \<Rightarrow> None
      | Some (err, st1) \<Rightarrow>
          map_option (\<lambda>(errs, st2). ((case err of None \<Rightarrow> errs | Some e \<Rightarrow> (''agent '' @ take 16 agentID @ '': '' @ e) # errs), st2))
            (run_jobs N s js st1))"

fun join_with :: "string \<Rightarrow> string list \<Rightarrow> string" where
  "join_with sep [] = ''''"
| "join_with sep [s] = s"
| "join_with sep (s # ss) = s @ sep @ join_with sep ss"

definition run_step ::
  "(nat \<Rightarrow> string \<Rightarrow> nat \<Rightarrow> attempt_net) \<Rightarrow> (nat \<Rightarrow> (string \<times> string) list \<Rightarrow> (string \<times> string) list) \<Rightarrow> string list \<Rightarrow> nat \<Rightarrow> step
    \<Rightarrow> orchestrator \<Rightarrow> (string option \<times> orchestrator) option" where
  "run_step N order agentIDs stepNum s st =
     (if AgentIndices s = [] then Some (None, st)
      else
        (case step_jobs agentIDs (CaptureAs s) True (AgentIndices s) of
           None \<Rightarrow> None
         | Some js \<Rightarrow>
             map_option (\<lambda>(errs, st1).
                 (if errs = [] then None else Some (''step '' @ dec stepNum @ '' failed: '' @ join_with ''; '' errs), st1))
               (run_jobs (N stepNum) s (order stepNum js) st)))"

fun run_steps ::
  "(nat \<Rightarrow> string \<Rightarrow> nat \<Rightarrow> attempt_net) \<Rightarrow> (nat \<Rightarrow> (string \<times> string) list \<Rightarrow> (string \<times> string) list) \<Rightarrow> string list \<Rightarrow> nat \<Rightarrow> step list
    \<Rightarrow> orchestrator \<Rightarrow> (string option \<times> orchestrator) option" where
  "run_steps N order agentIDs stepNum [] st = Some (None, st)"
| "run_steps N order agentIDs stepNum (s # ss) st =
     (case run_step N order agentIDs stepNum s st of
        None \<Rightarrow> None
      | Some (Some e, st1) \<Rightarrow> Some (Some e, st1)
      | Some (None, st1) \<Rightarrow> run_steps N order agentIDs (Suc stepNum) ss st1)"

text \<open>
  \<^verbatim>\<open>Unmarshal\<close> into a \<^verbatim>\<open>Scenario\<close>, with a flag for values of a wrong type. A list that is repeated in the document replaces the
  earlier one (Go would decode it into the elements of the earlier one).
\<close>

definition zero_step :: step where
  "zero_step = \<lparr>DelayMs = 0, AgentIndices = [], step_Action = '''', step_Args = [], CaptureAs = ''''\<rparr>"

definition decode_int :: "json \<Rightarrow> int \<Rightarrow> bool \<times> int" where
  "decode_int v old =
     (case v of
        JNum t \<Rightarrow> (case num_int t of Some i \<Rightarrow> (True, i) | None \<Rightarrow> (False, old))
      | JNull \<Rightarrow> (True, old)
      | _ \<Rightarrow> (False, old))"

definition decode_text :: "json \<Rightarrow> string \<Rightarrow> bool \<times> string" where
  "decode_text v old = (case v of JStr s \<Rightarrow> (True, s) | JNull \<Rightarrow> (True, old) | _ \<Rightarrow> (False, old))"

definition decode_ints :: "json list \<Rightarrow> bool \<times> int list" where
  "decode_ints vs = (list_all (\<lambda>v. fst (decode_int v 0)) vs, map (\<lambda>v. snd (decode_int v 0)) vs)"

fun decode_step :: "(string \<times> json) list \<Rightarrow> bool \<times> step \<Rightarrow> bool \<times> step" where
  "decode_step [] acc = acc"
| "decode_step ((k, v) # ms) (ok, s) =
     decode_step ms
       (if to_lower k = ''delay_ms'' then (let (b, i) = decode_int v (DelayMs s) in (ok \<and> b, s\<lparr>DelayMs := i\<rparr>))
        else if to_lower k = ''agent_indices'' then
          (case v of
             JArr vs \<Rightarrow> (let (b, is) = decode_ints vs in (ok \<and> b, s\<lparr>AgentIndices := is\<rparr>))
           | JNull \<Rightarrow> (ok, s\<lparr>AgentIndices := []\<rparr>)
           | _ \<Rightarrow> (False, s))
        else if to_lower k = ''action'' then (let (b, t) = decode_text v (step_Action s) in (ok \<and> b, s\<lparr>step_Action := t\<rparr>))
        else if to_lower k = ''args'' then
          (case v of
             JObj as \<Rightarrow> (let (ok', m) = decode_args as (ok, step_Args s) in (ok', s\<lparr>step_Args := m\<rparr>))
           | JNull \<Rightarrow> (ok, s\<lparr>step_Args := []\<rparr>)
           | _ \<Rightarrow> (False, s))
        else if to_lower k = ''capture_as'' then (let (b, t) = decode_text v (CaptureAs s) in (ok \<and> b, s\<lparr>CaptureAs := t\<rparr>))
        else (ok, s))"

fun decode_steps :: "json list \<Rightarrow> bool \<times> step list" where
  "decode_steps [] = (True, [])"
| "decode_steps (v # vs) =
     (let (b, s) = (case v of JObj ms \<Rightarrow> decode_step ms (True, zero_step) | JNull \<Rightarrow> (True, zero_step) | _ \<Rightarrow> (False, zero_step));
          (bs, ss) = decode_steps vs
      in (b \<and> bs, s # ss))"

fun decode_scenario_members :: "(string \<times> json) list \<Rightarrow> bool \<times> step list \<Rightarrow> bool \<times> step list" where
  "decode_scenario_members [] acc = acc"
| "decode_scenario_members ((k, v) # ms) (ok, ss) =
     decode_scenario_members ms
       (if to_lower k = ''steps'' then
          (case v of
             JArr vs \<Rightarrow> (let (b, new) = decode_steps vs in (ok \<and> b, new))
           | JNull \<Rightarrow> (ok, [])
           | _ \<Rightarrow> (False, ss))
        else (ok, ss))"

definition decode_scenario :: "string \<Rightarrow> step list option" where
  "decode_scenario s =
     (case parse_json s of
        Some (JObj ms) \<Rightarrow> (case decode_scenario_members ms (True, []) of (ok, ss) \<Rightarrow> if ok then Some ss else None)
      | Some JNull \<Rightarrow> Some []
      | _ \<Rightarrow> None)"

text \<open>The content of the file or the error of reading it; \<open>json_err\<close> is the text of a decoding error.\<close>

definition RunScenario ::
  "(string \<Rightarrow> string) \<Rightarrow> (nat \<Rightarrow> string \<Rightarrow> nat \<Rightarrow> attempt_net) \<Rightarrow> (nat \<Rightarrow> (string \<times> string) list \<Rightarrow> (string \<times> string) list) \<Rightarrow> string + string
    \<Rightarrow> orchestrator \<Rightarrow> (string option \<times> orchestrator) option" where
  "RunScenario json_err N order file st =
     (case file of
        Inl e \<Rightarrow> Some (Some e, st)
      | Inr data \<Rightarrow>
          (case decode_scenario data of
             None \<Rightarrow> Some (Some (''failed to parse scenario: '' @ json_err data), st)
           | Some steps \<Rightarrow> run_steps N order (map fst (AgentStreams st)) 0 steps st))"

text \<open>
  \<^verbatim>\<open>main\<close> once enough agents are known; before that it waits, which is the first \<open>None\<close>. The agents are visited in the order of the
  map, which is left open by Go; an error of the scenario ends the process.
\<close>

definition orch_main ::
  "(string \<Rightarrow> bool) \<Rightarrow> int \<Rightarrow> (string \<Rightarrow> attempt_net) \<Rightarrow> (string \<Rightarrow> string) \<Rightarrow> (nat \<Rightarrow> string \<Rightarrow> nat \<Rightarrow> attempt_net)
    \<Rightarrow> (nat \<Rightarrow> (string \<times> string) list \<Rightarrow> (string \<times> string) list) \<Rightarrow> string + string \<Rightarrow> orchestrator \<Rightarrow> (string option \<times> orchestrator) option" where
  "orch_main priv expectedAgents C json_err N order file st =
     (if \<not> all_found expectedAgents st then None
      else
        (case connect_agents priv C (Agents st) st of
           None \<Rightarrow> None
         | Some st1 \<Rightarrow>
             map_option (\<lambda>(err, st2). (map_option (\<lambda>e. ''Scenario failed:'' @ e) err, st2)) (RunScenario json_err N order file st1)))"

section \<open>Lemmas\<close>

lemma capture_fields [simp]:
  "AgentStreams (capture c l st) = AgentStreams st" "Agents (capture c l st) = Agents st" "written (capture c l st) = written st"
  "closed_streams (capture c l st) = closed_streams st"
  by (simp_all add: capture_def split: option.split)

lemma write_to_fields [simp]:
  "AgentStreams (write_to s t st) = AgentStreams st" "Agents (write_to s t st) = Agents st" "Variables (write_to s t st) = Variables st"
  "written (write_to s t st) = written st @ [(s, t)]"
  by (simp_all add: write_to_def)

lemma drop_stream_fields [simp]:
  "AgentStreams (drop_stream i s st) = mdel (AgentStreams st) i" "Agents (drop_stream i s st) = Agents st"
  "Variables (drop_stream i s st) = Variables st" "written (drop_stream i s st) = written st"
  by (simp_all add: drop_stream_def)

lemma reconnect_cases:
  "reconnectAgent N i st = (r, st') \<Longrightarrow>
    (\<exists>e. r = Inl e) \<and> st' = st \<or> (\<exists>s. r = Inr s \<and> st' = st\<lparr>AgentStreams := mput (AgentStreams st) i s\<rparr>)"
  by (simp add: reconnectAgent_def split: option.splits sum.splits) metis+

text \<open>What one attempt does, as seen by the other agents and by the variables.\<close>

lemma try_command_frame:
  assumes "try_command N i b c st = (r, st')"
  shows "(\<forall>j. j \<noteq> i \<longrightarrow> mget (AgentStreams st') j = mget (AgentStreams st) j) \<and> Agents st' = Agents st
    \<and> (\<exists>ws. written st' = written st @ ws \<and> length (filter (\<lambda>w. snd w = [line_feed]) ws) \<le> (if b = [line_feed] then 2 else 1))
    \<and> (r \<noteq> Done \<longrightarrow> Variables st' = Variables st \<and> mget (AgentStreams st') i = None)
    \<and> (r = Done \<longrightarrow> mhas (AgentStreams st') i)"
proof (cases "mget (AgentStreams st) i")
  case None
  obtain rr st1 where rec: "reconnectAgent N i st = (rr, st1)" by (cases "reconnectAgent N i st")
  from reconnect_cases [OF this] show ?thesis
    using assms None rec by (auto simp: try_command_def Let_def split: if_splits sum.splits)
qed (use assms in \<open>auto simp: try_command_def Let_def split: if_splits sum.splits\<close>)

lemma attempt_loop_frame:
  assumes "attempt_loop N i b c k n st = (err, st')" "b \<noteq> [line_feed]" "n = 0 \<Longrightarrow> mget (AgentStreams st) i = None"
  shows "(\<forall>j. j \<noteq> i \<longrightarrow> mget (AgentStreams st') j = mget (AgentStreams st) j) \<and> Agents st' = Agents st
    \<and> (\<exists>ws. written st' = written st @ ws \<and> length (filter (\<lambda>w. snd w = [line_feed]) ws) \<le> n)
    \<and> (err \<noteq> None \<longrightarrow> Variables st' = Variables st \<and> mget (AgentStreams st') i = None)
    \<and> (err = None \<longrightarrow> mhas (AgentStreams st') i)"
  using assms
proof (induction n arbitrary: k st)
  case (Suc n)
  obtain r st1 where t: "try_command (N k) i b c st = (r, st1)" by (cases "try_command (N k) i b c st")
  note f = try_command_frame [OF t]
  then obtain ws where ws: "written st1 = written st @ ws" "length (filter (\<lambda>w. snd w = [line_feed]) ws) \<le> 1"
    using Suc.prems(2) by auto
  show ?case
  proof (cases r)
    case Again
    then have "attempt_loop N i b c (Suc k) n st1 = (err, st')" using Suc.prems(1) t by simp
    note ih = Suc.IH [OF this Suc.prems(2)]
    have none: "mget (AgentStreams st1) i = None" using f Again by simp
    then obtain vs where "written st' = written st1 @ vs" "length (filter (\<lambda>w. snd w = [line_feed]) vs) \<le> n" using ih by blast
    with ws have "\<exists>ws. written st' = written st @ ws \<and> length (filter (\<lambda>w. snd w = [line_feed]) ws) \<le> Suc n"
      by (intro exI [of _ "ws @ vs"]) simp
    then show ?thesis using ih none f Again by simp
  next
    case Done
    then show ?thesis using Suc.prems(1) t f ws by auto
  next
    case (Failed e)
    then show ?thesis using Suc.prems(1) t f ws by auto
  qed
qed auto

lemma command_bytes: "enc (command_json action args) \<noteq> [line_feed]"
  by (simp add: command_json_def)

section \<open>Properties\<close>

text \<open>
  What \<^verbatim>\<open>SendCommand\<close> leaves behind. It returns for every identifier it can log; it writes the command at most twice. After
  success there is a stream to the agent; after an error there is none, no variable has changed, and a later command starts with
  a new connection. The streams of the other agents are not touched in either case.
\<close>

theorem SendCommand_outcome:
  assumes "SendCommand N i action args cap st = Some (err, st')"
  shows "(err = None \<longrightarrow> mhas (AgentStreams st') i)
    \<and> (err \<noteq> None \<longrightarrow> mget (AgentStreams st') i = None \<and> Variables st' = Variables st)
    \<and> (\<forall>j. j \<noteq> i \<longrightarrow> mget (AgentStreams st') j = mget (AgentStreams st) j)
    \<and> (\<exists>ws. written st' = written st @ ws \<and> length (filter (\<lambda>w. snd w = [line_feed]) ws) \<le> 2)"
proof -
  have "attempt_loop N i (enc (command_json action (substituteVariables st args))) cap 0 2 st = (err, st')"
    using assms by (simp add: SendCommand_def split: if_splits)
  from attempt_loop_frame [OF this command_bytes] show ?thesis by simp
qed

text \<open>The agent as the other end of a stream: what it answers to a text, and what it has become.\<close>

definition agent_reply :: "gui_env \<Rightarrow> agent \<Rightarrow> string \<Rightarrow> string + string" where
  "agent_reply G a t = (case full_lines (fst (handleStream (\<lambda>_. G) t a)) of [] \<Rightarrow> Inl ''EOF'' | l # ls \<Rightarrow> Inr (l @ [line_feed]))"

lemma handleStream_one:
  assumes "line_feed \<notin> set l"
  shows "handleStream (\<lambda>_. G) (l @ [line_feed]) a = (case processCommand G (l @ [line_feed]) a of (r, a') \<Rightarrow> (r @ [line_feed], a'))"
  using full_lines_Cons [OF assms, of "[]"] by (simp add: handleStream_def case_prod_beta)

lemma substituteVariables_get:
  "mget (substituteVariables st args) k = map_option (substitute (mget (Variables st))) (mget args k)"
  by (simp add: substituteVariables_def map_of_map)

lemma substituteVariables_keys [simp]: "keys_ok (substituteVariables st args) = keys_ok args"
  by (simp add: substituteVariables_def keys_ok_def comp_def case_prod_beta)

lemma run_command_response: "is_response (fst (run_command G c a))"
  by (auto simp: run_command_def result_response_def forward_reply_def split: option.split sum.split prod.split)

text \<open>
  C36. A command reaches the agent as it was written in the scenario. Over a working stream the agent runs exactly the action, with the
  arguments in which the variables are replaced; the orchestrator returns without an error, and the variable it
  captures is the data of the agent's answer without its label, or is left alone when the answer has none. Both ends
  print and read JSON, so quotes and line feeds in the arguments and in the data come through. JSON carries UTF-8 only: the action and the
  arguments, after the replacement, must be UTF-8, and the orchestrator reads bytes of the answer that are not UTF-8 as U+FFFD.
\<close>

theorem command_reaches_agent:
  assumes "keys_ok args" "log_id_ok i" "mget (AgentStreams st) i = Some s"
    "at_write (N 0) = None" "at_newline (N 0) = None" "at_reply (N 0) = agent_reply G a"
    "utf8_ok action" "\<forall>(k, v) \<in> set (substituteVariables st args). utf8_ok k \<and> utf8_ok v"
  shows "\<exists>m r a' st' data. (\<forall>k. mget m k = map_option (substitute (mget (Variables st))) (mget args k))
    \<and> run_command G \<lparr>Action = action, Args = m\<rparr> a = (r, a')
    \<and> handleStream (\<lambda>_. G) (enc (command_json action (substituteVariables st args)) @ [line_feed]) a = (r @ [line_feed], a')
    \<and> SendCommand N i action args cap st = Some (None, st')
    \<and> unmarshal_object r = Some data
    \<and> Variables st' = (case get_string ''data'' data of
        Some d \<Rightarrow> if cap = '''' then Variables st else mput (Variables st) cap (strip_label d) | None \<Rightarrow> Variables st)"
proof -
  let ?b = "enc (command_json action (substituteVariables st args))"
  have lf: "list_all json_space [line_feed]" by (simp add: json_space_def line_feed_def ascii_code_def)
  obtain m where m: "decode_command (?b @ [line_feed]) = Some \<lparr>Action = action, Args = m\<rparr>" "\<forall>k. mget m k = mget (substituteVariables st args) k"
    using decode_printed [OF _ lf assms(7,8)] assms(1) by auto
  obtain r a' where r: "run_command G \<lparr>Action = action, Args = m\<rparr> a = (r, a')" by (cases "run_command G \<lparr>Action = action, Args = m\<rparr> a")
  have "line_feed \<notin> set ?b" by (rule enc_one_line [OF command_json_printable])
  then have h: "handleStream (\<lambda>_. G) (?b @ [line_feed]) a = (r @ [line_feed], a')"
    by (simp add: handleStream_one processCommand_def m(1) r)
  have "is_response r" using run_command_response [of G "\<lparr>Action = action, Args = m\<rparr>" a] r by simp
  then obtain sta err d where resp: "r = enc (response_json sta err d)" unfolding is_response_def by blast
  have one: "line_feed \<notin> set r" unfolding resp by (rule enc_one_line [OF response_json_printable])
  let ?d = "response_of (to_valid sta) (to_valid err) (to_valid d)"
  have un: "unmarshal_object r = Some ?d" "unmarshal_object (r @ [line_feed]) = Some ?d"
    unfolding resp using unmarshal_response [of "[]" sta err d] unmarshal_response [OF lf, of sta err d] by simp_all
  have reply: "agent_reply G a (?b @ [line_feed]) = Inr (r @ [line_feed])"
    using full_lines_Cons [OF one, of "[]"] by (simp add: agent_reply_def h)
  let ?st = "capture cap (r @ [line_feed]) (write_to s [line_feed] (write_to s ?b st))"
  have "SendCommand N i action args cap st = Some (None, ?st)"
    using assms(2-6) reply by (simp add: SendCommand_def numeral_2_eq_2 try_command_def Let_def)
  moreover have "Variables ?st = (case get_string ''data'' ?d of
      Some d \<Rightarrow> if cap = '''' then Variables st else mput (Variables st) cap (strip_label d) | None \<Rightarrow> Variables st)"
    by (simp add: capture_def un split: option.split)
  ultimately show ?thesis using m(2) r h un(1) by (metis substituteVariables_get)
qed

section \<open>Templates and scenarios\<close>

text \<open>A text as pieces: plain text without a dollar sign, and variables.\<close>

datatype piece = Lit string | Var string

fun piece_ok :: "piece \<Rightarrow> bool" where
  "piece_ok (Lit t) = (CHR ''$'' \<notin> set t)"
| "piece_ok (Var n) = (n \<noteq> [] \<and> CHR ''}'' \<notin> set n)"

fun piece_text :: "piece \<Rightarrow> string" where
  "piece_text (Lit t) = t"
| "piece_text (Var n) = var_text n"

fun piece_value :: "(string \<Rightarrow> string option) \<Rightarrow> piece \<Rightarrow> string" where
  "piece_value f (Lit t) = t"
| "piece_value f (Var n) = (case f n of Some v \<Rightarrow> v | None \<Rightarrow> var_text n)"

declare substitute.simps(2) [simp del]

lemma substitute_plain: "CHR ''$'' \<noteq> c \<Longrightarrow> substitute f (c # s) = c # substitute f s"
  by (simp add: substitute.simps)

lemma substitute_lit: "CHR ''$'' \<notin> set t \<Longrightarrow> substitute f (t @ s) = t @ substitute f s"
  by (induction t) (simp_all add: substitute_plain)

lemma substitute_var:
  assumes "n \<noteq> []" "CHR ''}'' \<notin> set n"
  shows "substitute f (var_text n @ s) = piece_value f (Var n) @ substitute f s"
proof -
  have t: "takeWhile (\<lambda>x. x \<noteq> CHR ''}'') (n @ CHR ''}'' # s) = n"
    using assms(2) by (induction n) auto
  show ?thesis using assms(1) by (simp add: var_text_def substitute.simps has_prefix_def t)
qed

text \<open>
  Variables in a template. Every \<^verbatim>\<open>${name}\<close> becomes the value of the variable, or stays as it is when there is none, and
  everything else is copied; the values that are put in are not searched for variables again.
\<close>

theorem substitute_template:
  assumes "list_all piece_ok ps"
  shows "substitute f (concat (map piece_text ps)) = concat (map (piece_value f) ps)"
  using assms
proof (induction ps)
  case (Cons p ps)
  then show ?case by (cases p) (simp_all add: substitute_lit substitute_var del: piece_value.simps(2))
qed simp

lemma run_steps_split:
  assumes "run_steps N order ids n ss st = Some (Some e, st')"
  shows "\<exists>k st1. k < length ss \<and> run_steps N order ids n (take k ss) st = Some (None, st1)
    \<and> run_step N order ids (n + k) (ss ! k) st1 = Some (Some e, st')"
  using assms
proof (induction ss arbitrary: n st)
  case (Cons s ss)
  then obtain r st1 where s: "run_step N order ids n s st = Some (r, st1)" by (auto split: option.splits)
  show ?case
  proof (cases r)
    case (Some x)
    with Cons.prems s show ?thesis by (intro exI [of _ 0]) auto
  next
    case None
    with Cons.prems s have "run_steps N order ids (Suc n) ss st1 = Some (Some e, st')" by simp
    from Cons.IH [OF this] obtain k st2 where "k < length ss" "run_steps N order ids (Suc n) (take k ss) st1 = Some (None, st2)"
      "run_step N order ids (Suc n + k) (ss ! k) st2 = Some (Some e, st')" by blast
    then show ?thesis using s None by (intro exI [of _ "Suc k"] exI [of _ st2]) simp
  qed
qed simp

lemma run_step_error:
  "run_step N order ids n s st = Some (Some e, st') \<Longrightarrow> has_prefix e (''step '' @ dec n @ '' failed: '')"
  unfolding run_step_def by (auto simp: has_prefix_def split: if_splits option.splits)

text \<open>
  A scenario stops at its first failing step. The error it returns names the step, all steps before it have succeeded, and the
  final state is the one right after the failing step: no command of a later step has been sent.
\<close>

theorem scenario_stops_at_first_failure:
  assumes "decode_scenario data = Some ss" "RunScenario json_err N order (Inr data) st = Some (Some e, st')"
  shows "\<exists>k st1. k < length ss \<and> has_prefix e (''step '' @ dec k @ '' failed: '')
    \<and> run_steps N order (map fst (AgentStreams st)) 0 (take k ss) st = Some (None, st1)
    \<and> run_step N order (map fst (AgentStreams st)) k (ss ! k) st1 = Some (Some e, st')"
proof -
  have "run_steps N order (map fst (AgentStreams st)) 0 ss st = Some (Some e, st')" using assms by (simp add: RunScenario_def)
  from run_steps_split [OF this] obtain k st1 where k: "k < length ss"
    "run_steps N order (map fst (AgentStreams st)) 0 (take k ss) st = Some (None, st1)"
    "run_step N order (map fst (AgentStreams st)) k (ss ! k) st1 = Some (Some e, st')" by auto
  from run_step_error [OF k(3)] k show ?thesis by blast
qed

section \<open>Witnesses\<close>

definition ex_agent_id :: string where
  "ex_agent_id = ''12D3KooWAgentNumberOne''"

definition ex_gui :: gui_env where
  "ex_gui = \<lparr>stat_of = (\<lambda>_. Exists), abs_of = Some, stdout_err = None, stderr_err = None, start_err = (\<lambda>_. None), gui_output = [],
     dial = (\<lambda>_ _. None), gui_write = None, gui_reply = (\<lambda>_. None)\<rparr>"

definition ex_agent :: agent where
  "ex_agent = \<lparr>GUIProcess = None, GUIPort = 0, DefaultBinPath = ''./P2PTogether''\<rparr>"

definition ex_orch :: orchestrator where
  "ex_orch = new_orchestrator\<lparr>AgentStreams := [(ex_agent_id, 1)], Variables := [(''x'', ''${y}'')]\<rparr>"

definition ex_net :: "(string \<Rightarrow> string + string) \<Rightarrow> string option \<Rightarrow> attempt_net" where
  "ex_net reply w = \<lparr>at_connect = (\<lambda>_. None), at_stream = Inr 2, at_write = w, at_newline = None, at_reply = reply\<rparr>"

definition ex_scenario :: string where
  "ex_scenario = map (\<lambda>c. if c = CHR ''`'' then quote_char else c)
     ''{`steps`: [{`delay_ms`: 5, `agent_indices`: [0, 7], `action`: `ping`, `args`: {}}]}''"

theorem SendCommand_outcome_witness:
  "\<exists>st'. SendCommand (\<lambda>_. ex_net (\<lambda>_. Inl ''EOF'') (Some ''broken'')) ex_agent_id ''ping'' [] '''' ex_orch =
      Some (Some (''no stream for agent '' @ take 16 ex_agent_id @ '' and reconnect failed: agent '' @ take 16 ex_agent_id @ '' not found''), st')
    \<and> mget (AgentStreams st') ex_agent_id = None \<and> Variables st' = Variables ex_orch"
proof -
  let ?N = "\<lambda>_ :: nat. ex_net (\<lambda>_. Inl ''EOF'') (Some ''broken'')"
  obtain st' where s: "SendCommand ?N ex_agent_id ''ping'' [] '''' ex_orch =
      Some (Some (''no stream for agent '' @ take 16 ex_agent_id @ '' and reconnect failed: agent '' @ take 16 ex_agent_id @ '' not found''), st')"
    by (simp add: SendCommand_def log_id_ok_def ex_agent_id_def numeral_2_eq_2 try_command_def ex_net_def ex_orch_def new_orchestrator_def
        reconnectAgent_def drop_stream_def)
  from SendCommand_outcome [OF s] s show ?thesis by blast
qed

theorem command_reaches_agent_witness:
  "\<exists>st'. SendCommand (\<lambda>_. ex_net (agent_reply ex_gui ex_agent) None) ex_agent_id ''ping'' [(''a'', ''${x}'')] ''v'' ex_orch = Some (None, st')
    \<and> mget (Variables st') ''v'' = Some ''pong''"
proof -
  let ?N = "\<lambda>_ :: nat. ex_net (agent_reply ex_gui ex_agent) None"
  have "keys_ok [(''a'', ''${x}'')]" "log_id_ok ex_agent_id" "mget (AgentStreams ex_orch) ex_agent_id = Some 1"
    by (simp_all add: keys_ok_def log_id_ok_def ex_agent_id_def ex_orch_def)
  note stream = this
  have ping: "utf8_ok ''ping''" by (rule utf8_ok_ascii) code_simp
  have "substituteVariables ex_orch [(''a'', ''${x}'')] = [(''a'', ''${y}'')]" by code_simp
  then have "\<forall>(k, v) \<in> set (substituteVariables ex_orch [(''a'', ''${x}'')]). utf8_ok k \<and> utf8_ok v"
    by (auto intro!: utf8_ok_ascii simp: ascii_code_def)
  from command_reaches_agent [OF stream _ _ _ ping this, of ?N ex_gui ex_agent "''v''"]
  obtain m r a' st' data where r: "run_command ex_gui \<lparr>Action = ''ping'', Args = m\<rparr> ex_agent = (r, a')"
    and s: "SendCommand ?N ex_agent_id ''ping'' [(''a'', ''${x}'')] ''v'' ex_orch = Some (None, st')"
    and d: "unmarshal_object r = Some data" "Variables st' = (case get_string ''data'' data of
        Some d \<Rightarrow> if ''v'' = '''' then Variables ex_orch else mput (Variables ex_orch) ''v'' (strip_label d) | None \<Rightarrow> Variables ex_orch)"
    by (auto simp: ex_net_def)
  have "r = enc (response_json ''ok'' '''' ''pong'')" using r by (simp add: run_command_def successResponse_def)
  moreover have "to_valid ''pong'' = ''pong''" by code_simp
  ultimately have "get_string ''data'' data = Some ''pong''"
    using d(1) unmarshal_response [of "[]" "''ok''" "''''" "''pong''"] by (simp add: response_get del: enc.simps)
  moreover have "strip_label ''pong'' = ''pong''" by code_simp
  ultimately show ?thesis using s d(2) by auto
qed

theorem substitute_template_witness:
  "substitute (mget [(''x'', ''${y}'')]) ''id=${x};${y}'' = ''id=${y};${y}''"
  using substitute_template [of "[Lit ''id='', Var ''x'', Lit '';'', Var ''y'']" "mget [(''x'', ''${y}'')]"]
  by (simp add: var_text_def)

lemma ex_scenario_decodes:
  "decode_scenario ex_scenario = Some [\<lparr>DelayMs = 5, AgentIndices = [0, 7], step_Action = ''ping'', step_Args = [], CaptureAs = ''''\<rparr>]"
proof -
  have "parse_json ex_scenario = Some (JObj [(''steps'', JArr [JObj [(''delay_ms'', JNum ''5''),
      (''agent_indices'', JArr [JNum ''0'', JNum ''7'']), (''action'', JStr ''ping''), (''args'', JObj [])]])])"
    by (rule parse_json_eval [of 4], code_simp, simp add: max_nesting_def)
  moreover have "num_int ''5'' = Some 5" "num_int ''0'' = Some 0" "num_int ''7'' = Some 7"
    by (simp_all add: num_int_def has_prefix_def dec_val_def digit_val_def is_digit_def ascii_code_def)
  moreover have "to_lower ''steps'' = ''steps''" "to_lower ''delay_ms'' = ''delay_ms''" "to_lower ''agent_indices'' = ''agent_indices''"
    "to_lower ''action'' = ''action''" "to_lower ''args'' = ''args''" by code_simp+
  ultimately show ?thesis
    by (simp add: decode_scenario_def decode_int_def decode_ints_def decode_text_def zero_step_def)
qed

theorem scenario_stops_at_first_failure_witness:
  "\<exists>e st'. RunScenario (\<lambda>_. '''') (\<lambda>_ _ _. ex_net (\<lambda>_. Inl ''EOF'') (Some ''broken'')) (\<lambda>_ js. js) (Inr ex_scenario) ex_orch = Some (Some e, st')
    \<and> has_prefix e ''step 0 failed: ''"
proof -
  let ?N = "\<lambda>_ :: nat. \<lambda>_ :: string. \<lambda>_ :: nat. ex_net (\<lambda>_. Inl ''EOF'') (Some ''broken'')"
  obtain e st' where r: "RunScenario (\<lambda>_. '''') ?N (\<lambda>_ js. js) (Inr ex_scenario) ex_orch = Some (Some e, st')"
    by (simp add: RunScenario_def ex_scenario_decodes run_step_def SendCommand_def log_id_ok_def ex_agent_id_def numeral_2_eq_2
        try_command_def ex_net_def ex_orch_def new_orchestrator_def reconnectAgent_def drop_stream_def)
  have "dec 0 = ''0''" by code_simp
  with scenario_stops_at_first_failure [OF ex_scenario_decodes r] r show ?thesis by auto
qed

end
