(* ===== verification/Host.thy ===== *)
theory Host
  imports Orchestrator ControlStream
begin

text \<open>
  Entering the network: the libp2p host and the DHT of the service with the verification of an advertised session
  (\<^verbatim>\<open>peer_service/main.go\<close>), the discovery over mDNS, and the DHT of the two test tools. The libraries are arguments: what they
  return, and which connections succeed. Also the small accessors of the node and of the queue controller, and the call of ffprobe.
\<close>

section \<open>Bootstrapping a DHT\<close>

text \<open>Every address that can be parsed is dialled, its addresses reordered by \<open>prep\<close>; the result is what was dialled.\<close>

definition dialled :: "(string \<Rightarrow> addr_info option) \<Rightarrow> (string list \<Rightarrow> string list) \<Rightarrow> string list \<Rightarrow> addr_info list" where
  "dialled parse prep bootstrapPeers =
     map (\<lambda>i. i\<lparr>ai_Addrs := prep (ai_Addrs i)\<rparr>) (List.map_filter parse bootstrapPeers)"

record dht_env =
  host_err :: "string option"
  dht_err :: "string option"
  bootstrap_peers :: "string list"
  parse_p2p :: "string \<Rightarrow> addr_info option"
  dht_connect :: "addr_info \<Rightarrow> bool"
  bootstrap_err :: "string option"
  private_addr :: "string \<Rightarrow> bool"

text \<open>\<^verbatim>\<open>setupDHT\<close> of the agent and of the orchestrator, without the background work they start when it succeeds.\<close>

definition setup_dht :: "(string list \<Rightarrow> string list) \<Rightarrow> dht_env \<Rightarrow> string option" where
  "setup_dht prep H =
     (case dht_err H of
        Some e \<Rightarrow> Some (''failed to create DHT: '' @ e)
      | None \<Rightarrow>
          (if length (filter (dht_connect H) (dialled (parse_p2p H) prep (bootstrap_peers H))) = 0
           then Some ''failed to connect to any bootstrap peers''
           else (case bootstrap_err H of Some e \<Rightarrow> Some (''DHT bootstrap failed: '' @ e) | None \<Rightarrow> None)))"

definition agent_setupDHT :: "dht_env \<Rightarrow> string option" where
  "agent_setupDHT H = setup_dht (tool_sortAddresses (private_addr H)) H"

definition orch_setupDHT :: "dht_env \<Rightarrow> string option" where
  "orch_setupDHT H = setup_dht (\<lambda>as. as) H"

text \<open>
  \<^verbatim>\<open>buildHost\<close> of the service: \<open>Inl\<close> ends the process. It goes on without any bootstrap peer and with an empty routing
  table. The counter of successful connections is only logged.
\<close>

definition listen_addrs :: "string list" where
  "listen_addrs = [''/ip4/0.0.0.0/udp/0/quic-v1'', ''/ip6/::/udp/0/quic-v1'', ''/ip4/0.0.0.0/tcp/0'', ''/ip6/::/tcp/0'']"

definition buildHost :: "dht_env \<Rightarrow> string + addr_info list" where
  "buildHost H =
     (case host_err H of
        Some e \<Rightarrow> Inl (''libp2p host init failed: '' @ e)
      | None \<Rightarrow>
          (case dht_err H of
             Some e \<Rightarrow> Inl (''Kademlia DHT init failed: '' @ e)
           | None \<Rightarrow>
               (let tried = dialled (parse_p2p H) (sortAddressesLocalFirst (private_addr H)) (bootstrap_peers H)
                in (case bootstrap_err H of
                      Some e \<Rightarrow> Inl (''DHT bootstrap failed: '' @ e)
                    | None \<Rightarrow> Inr (filter (dht_connect H) tried)))))"

section \<open>mDNS\<close>

record lan =
  store :: "(peer_id, string list) gomap"
  dialling :: "addr_info list"
  mdns_running :: bool

text \<open>\<^verbatim>\<open>Peerstore().AddAddrs\<close> keeps a set of addresses for every peer.\<close>

definition add_addrs :: "peer_id \<Rightarrow> string list \<Rightarrow> (peer_id, string list) gomap \<Rightarrow> (peer_id, string list) gomap" where
  "add_addrs i as ps = (let old = (case mget ps i of None \<Rightarrow> [] | Some x \<Rightarrow> x) in mput ps i (old @ filter (\<lambda>a. a \<notin> set old) as))"

definition HandlePeerFound :: "(string \<Rightarrow> bool) \<Rightarrow> peer_id \<Rightarrow> addr_info \<Rightarrow> lan \<Rightarrow> lan" where
  "HandlePeerFound priv self info l =
     (if ai_ID info = self then l
      else
        (let info' = info\<lparr>ai_Addrs := sortAddressesLocalFirst priv (ai_Addrs info)\<rparr>
         in l\<lparr>store := add_addrs (ai_ID info') (ai_Addrs info') (store l), dialling := dialling l @ [info']\<rparr>))"

text \<open>A start that fails is logged; the service goes on without mDNS.\<close>

definition startMdnsDiscovery :: "string option \<Rightarrow> lan \<Rightarrow> lan" where
  "startMdnsDiscovery start_error l = (case start_error of Some e \<Rightarrow> l | None \<Rightarrow> l\<lparr>mdns_running := True\<rparr>)"

text \<open>The peer and its network together: what creating or joining a session does for mDNS.\<close>

definition session_mdns :: "string option \<Rightarrow> peer \<times> lan \<Rightarrow> peer \<times> lan" where
  "session_mdns start_error s =
     (case s of
        (p, l) \<Rightarrow>
          (maybeStartMdns p, if mdnsEnabled p \<and> \<not> mdnsStarted p then startMdnsDiscovery start_error l else l))"

section \<open>Advertising a new session\<close>

text \<open>A call of \<^verbatim>\<open>dutil.Advertise\<close>: until the client's stream ends, or for ever.\<close>

datatype advertisement = WhileStream string | Forever string

text \<open>What the verification finds: \<open>None\<close> is an error of \<^verbatim>\<open>FindPeers\<close>. An entry without identifier is skipped.\<close>

definition verify_advertisement :: "peer_id \<Rightarrow> string \<Rightarrow> addr_info list option \<Rightarrow> advertisement list" where
  "verify_advertisement self sessID found =
     (case found of
        None \<Rightarrow> []
      | Some ch \<Rightarrow>
          (let peers = filter (\<lambda>i. ai_ID i \<noteq> PeerID '''') ch; foundSelf = list_ex (\<lambda>i. ai_ID i = self) peers
           in if foundSelf then [] else [Forever sessID]))"

definition advertise_session :: "peer_id \<Rightarrow> string \<Rightarrow> addr_info list option \<Rightarrow> advertisement list" where
  "advertise_session self sessID found = WhileStream sessID # verify_advertisement self sessID found"

section \<open>Accessors and flags\<close>

definition GetServiceInfo :: "u32 \<Rightarrow> u32" where
  "GetServiceInfo hlsPort = hlsPort"

definition GetLastKnownPlaybackState :: "peer \<Rightarrow> playback_info" where
  "GetLastKnownPlaybackState p = lastKnownPlaybackState (qc p)"

definition EncoderRunnerInstance :: "peer \<Rightarrow> runner option" where
  "EncoderRunnerInstance p = encoderRunner (nd p)"

text \<open>ffprobe prints a decimal number, or a text such as \<^verbatim>\<open>N/A\<close> that is none; \<open>None\<close> is an error.\<close>

definition getDurationSeconds :: "(string \<Rightarrow> string option) \<Rightarrow> string \<Rightarrow> float64 option" where
  "getDurationSeconds run_ffprobe filePath =
     (case run_ffprobe filePath of
        None \<Rightarrow> None
      | Some output \<Rightarrow>
          (let durationStr = trim_space output
           in if list_all (\<lambda>c. is_digit c \<or> c = CHR ''.'') durationStr then parse_float durationStr else None))"

text \<open>The search path with the directory of the executable in front.\<close>

definition new_path :: "char \<Rightarrow> string option \<Rightarrow> string \<Rightarrow> string" where
  "new_path sep exeDir currentPath = (case exeDir of None \<Rightarrow> currentPath | Some d \<Rightarrow> d @ [sep] @ currentPath)"

section \<open>Lemmas\<close>

lemma split_local_eq:
  "split_local priv as (l, p) = (l @ filter priv as, p @ filter (\<lambda>a. \<not> priv a) as)"
  by (induction as arbitrary: l p) auto

lemma tool_sortAddresses_eq: "tool_sortAddresses priv as = filter priv as @ filter (\<lambda>a. \<not> priv a) as"
  by (simp add: tool_sortAddresses_def split_local_eq)

lemma setup_dht_ok:
  "setup_dht prep H = None \<longleftrightarrow> dht_err H = None \<and> bootstrap_err H = None
     \<and> (\<exists>i \<in> set (dialled (parse_p2p H) prep (bootstrap_peers H)). dht_connect H i)"
  by (auto simp: setup_dht_def filter_empty_conv split: option.split)

section \<open>Properties\<close>

text \<open>
  mDNS is tried once. When the first start fails, the flag is set all the same, and no later session starts it again, whatever
  the later attempts would return.
\<close>

theorem failed_mdns_is_final:
  assumes "mdnsEnabled p" "\<not> mdnsStarted p"
  shows "snd (fold session_mdns (Some e # later) (p, l)) = l \<and> mdnsStarted (fst (fold session_mdns (Some e # later) (p, l)))"
proof -
  have stuck: "fold session_mdns later (q, l) = (q, l)" if "mdnsStarted q" for q later
    using that by (induction later) (auto simp: session_mdns_def maybeStartMdns_def)
  have "session_mdns (Some e) (p, l) = (p\<lparr>mdnsStarted := True\<rparr>, l)"
    using assms by (simp add: session_mdns_def maybeStartMdns_def startMdnsDiscovery_def)
  then show ?thesis using stuck by simp
qed

lemma sortAddresses_set [simp]: "set (sortAddressesLocalFirst priv as) = set as"
  by (auto simp: sortAddressesLocalFirst_def sort_loop_eq addr_priority_def split: if_splits)

text \<open>The addresses that are known of a peer.\<close>

definition stored :: "lan \<Rightarrow> peer_id \<Rightarrow> string set" where
  "stored l i = (case mget (store l) i of None \<Rightarrow> {} | Some as \<Rightarrow> set as)"

lemma stored_found:
  "stored (HandlePeerFound priv self info l) i = stored l i \<union> (if ai_ID info = i \<and> i \<noteq> self then set (ai_Addrs info) else {})"
  by (auto simp: HandlePeerFound_def stored_def add_addrs_def Let_def split: option.split)

lemma dialling_found:
  "dialling (HandlePeerFound priv self info l) = dialling l @
     (if ai_ID info = self then [] else [info\<lparr>ai_Addrs := sortAddressesLocalFirst priv (ai_Addrs info)\<rparr>])"
  by (simp add: HandlePeerFound_def Let_def)

text \<open>
  What mDNS announces is kept. After any sequence of announcements the peer store has, for every peer other than the service itself,
  what it had before and every announced address, and nothing else; every announcement of another peer is dialled once, with
  its addresses in the order of the service. The service never dials or stores itself.
\<close>

theorem mdns_announcements_kept:
  "stored (fold (HandlePeerFound priv self) infos l) i
      = stored l i \<union> (if i = self then {} else (\<Union>f \<in> {f \<in> set infos. ai_ID f = i}. set (ai_Addrs f)))
    \<and> dialling (fold (HandlePeerFound priv self) infos l) = dialling l @
        map (\<lambda>f. f\<lparr>ai_Addrs := sortAddressesLocalFirst priv (ai_Addrs f)\<rparr>) (filter (\<lambda>f. ai_ID f \<noteq> self) infos)"
proof (induction infos arbitrary: l)
  case (Cons f infos)
  show ?case using Cons [of "HandlePeerFound priv self f l"] by (auto simp: stored_found dialling_found)
qed simp

text \<open>
  The DHT of the tools is set up exactly when at least one bootstrap peer could be reached and no library call failed; the service's own
  host is built also when no bootstrap peer answers.
\<close>

theorem dht_setup_outcome:
  "(agent_setupDHT H = None \<longleftrightarrow> dht_err H = None \<and> bootstrap_err H = None
      \<and> (\<exists>i \<in> set (dialled (parse_p2p H) (tool_sortAddresses (private_addr H)) (bootstrap_peers H)). dht_connect H i))
    \<and> (orch_setupDHT H = None \<longleftrightarrow> dht_err H = None \<and> bootstrap_err H = None
      \<and> (\<exists>i \<in> set (dialled (parse_p2p H) (\<lambda>as. as) (bootstrap_peers H)). dht_connect H i))
    \<and> ((\<exists>c. buildHost H = Inr c) \<longleftrightarrow> host_err H = None \<and> dht_err H = None \<and> bootstrap_err H = None)"
  unfolding agent_setupDHT_def orch_setupDHT_def setup_dht_ok by (auto simp: buildHost_def Let_def split: option.split)

text \<open>
  A new session is advertised while the creator's client is connected; a second, permanent advertisement is added exactly when
  the DHT answers without the creator.
\<close>

lemma advertise_session_cases:
  "advertise_session self sid found = [WhileStream sid] @
     (if \<exists>ch. found = Some ch \<and> (\<forall>i \<in> set ch. ai_ID i = PeerID '''' \<or> ai_ID i \<noteq> self) then [Forever sid] else [])"
  by (auto simp: advertise_session_def verify_advertisement_def Let_def list_ex_iff split: option.split)

theorem failed_mdns_is_final_witness:
  "snd (fold session_mdns [Some ''no interface'', None] (ex_admin\<lparr>mdnsEnabled := True\<rparr>, \<lparr>store = [], dialling = [], mdns_running = False\<rparr>))
    = \<lparr>store = [], dialling = [], mdns_running = False\<rparr>"
  using failed_mdns_is_final [of "ex_admin\<lparr>mdnsEnabled := True\<rparr>" "''no interface''" "[None]" "\<lparr>store = [], dialling = [], mdns_running = False\<rparr>"]
  by (simp add: ex_admin_def ex_peer_def)

end
