(* ===== verification/Startup.thy ===== *)
theory Startup
  imports Subscriptions Host "HOL-Library.Sublist"
begin

text \<open>
  The process around the service, \<^verbatim>\<open>main\<close> of \<^verbatim>\<open>peer_service/main.go\<close> from the flags to the exit: what has to succeed for it to
  start, the routes of its HTTP server, the three subscription loops under the context of \<^verbatim>\<open>main\<close>, and the shutdown after a signal.
  The listeners and libraries are the parameter \<open>boot_env\<close>. Setting up takes place in one go; the running
  process is a step relation in which \<^verbatim>\<open>main\<close>, the loops and the service take turns. The shutdown is a list of calls; a call may block, and whether
  it returns depends on the streams and requests under way, the clock, and what the libraries do.
\<close>

section \<open>State\<close>

record flags =
  grpcPort_flag :: int
  initialRolesStr :: string
  noMdns_flag :: bool

record boot_env =
  be_exeDir :: "string option"
  be_PATH :: string
  be_setenv_err :: "string option"
  be_http_listen :: "string + u32"
  be_free_port :: "string + int"
  be_grpc_listen :: "int \<Rightarrow> string option"
  be_host :: dht_env
  be_pubsub_err :: "string option"
  be_id :: peer_id

text \<open>The calls of \<^verbatim>\<open>log.Fatalf\<close>, each with its argument.\<close>

datatype fatal =
    HttpListenFailed string
  | NoFreePort string
  | GrpcListenFailed int string
  | HostFailed string
  | GossipSubFailed string
  | InitialRolesFailed string

text \<open>
  The calls a shutdown can make. \<open>GrpcGracefulStop\<close>, which a comment of the code rules out, waits for the open streams of the clients; \<open>HttpShutdown\<close>
  waits for the requests under way, no longer than its context lasts (in seconds), if it has a timeout.
\<close>

datatype shutdown_call = CancelContext | GrpcStop | GrpcGracefulStop | HttpShutdown "nat option" | HostClose

text \<open>Where \<^verbatim>\<open>main\<close> is: it waits for a signal, and then for the first of the calls that are left to return.\<close>

datatype main_at = AwaitSignal | Shutting "shutdown_call list" | Returned

text \<open>The clock counts seconds; \<open>call_since\<close> is when the present call of the shutdown was made.\<close>

record process =
  pr_peer :: peer
  pr_PATH :: string
  pr_hlsPort :: u32
  pr_grpcPort :: int
  pr_routes :: "string list"
  pr_main :: main_at
  pr_clock :: nat
  call_since :: nat
  ctxDone :: bool
  grpcServing :: bool
  httpServing :: bool
  hostOpen :: bool
  open_streams :: nat
  open_requests :: nat
  ctrl_sub :: subscription
  chat_sub :: subscription
  video_sub :: subscription

section \<open>Start\<close>

definition search_path :: "boot_env \<Rightarrow> string" where
  "search_path B = (if be_setenv_err B = None then new_path (CHR '':'') (be_exeDir B) (be_PATH B) else be_PATH B)"

text \<open>The port of the gRPC server: the flag, or a free one when the flag is 0.\<close>

definition grpc_port :: "boot_env \<Rightarrow> flags \<Rightarrow> string + int" where
  "grpc_port B F = (if grpcPort_flag F = 0 then be_free_port B else Inr (grpcPort_flag F))"

definition grpc_listener :: "boot_env \<Rightarrow> flags \<Rightarrow> fatal + int" where
  "grpc_listener B F =
     (case grpc_port B F of
        Inl e \<Rightarrow> Inl (NoFreePort e)
      | Inr grpcPort \<Rightarrow>
          (case be_grpc_listen B grpcPort of Some e \<Rightarrow> Inl (GrpcListenFailed grpcPort e) | None \<Rightarrow> Inr grpcPort))"

text \<open>The routes when the HTTP server is started, and the one that is added when the node is complete.\<close>

definition first_routes :: "string list" where
  "first_routes = [''/stream.m3u8'', ''/'']"

definition all_routes :: "string list" where
  "all_routes = first_routes @ [''/ingest/'']"

definition boot :: "env \<Rightarrow> boot_env \<Rightarrow> flags \<Rightarrow> hlc \<Rightarrow> fatal + process" where
  "boot E B F c0 =
     (case be_http_listen B of
        Inl e \<Rightarrow> Inl (HttpListenFailed e)
      | Inr hlsPort \<Rightarrow>
          (case grpc_listener B F of
             Inl f \<Rightarrow> Inl f
           | Inr grpcPort \<Rightarrow>
               (case buildHost (be_host B) of
                  Inl e \<Rightarrow> Inl (HostFailed e)
                | Inr connected_to \<Rightarrow>
                    (case be_pubsub_err B of
                       Some e \<Rightarrow> Inl (GossipSubFailed e)
                     | None \<Rightarrow>
                         (case main_init E (be_id B) (initialRolesStr F) (noMdns_flag F) c0 of
                            None \<Rightarrow> Inl (InitialRolesFailed (initialRolesStr F))
                          | Some p \<Rightarrow>
                              Inr \<lparr>pr_peer = p, pr_PATH = search_path B, pr_hlsPort = hlsPort, pr_grpcPort = grpcPort,
                                   pr_routes = all_routes, pr_main = AwaitSignal, pr_clock = 0, call_since = 0, ctxDone = False,
                                   grpcServing = True, httpServing = True, hostOpen = True, open_streams = 0,
                                   open_requests = 0, ctrl_sub = no_subscription, chat_sub = no_subscription, video_sub = no_subscription\<rparr>)))))"

section \<open>Routes\<close>

text \<open>
  \<^verbatim>\<open>http.ServeMux\<close> for a clean path: a pattern that ends in a slash matches every path below it, any other only
  itself; the longest pattern that matches is taken.
\<close>

definition pattern_matches :: "string \<Rightarrow> string \<Rightarrow> bool" where
  "pattern_matches path pat \<longleftrightarrow> path = pat \<or> (pat \<noteq> [] \<and> last pat = CHR ''/'' \<and> has_prefix path pat)"

fun longest :: "string list \<Rightarrow> string option" where
  "longest [] = None"
| "longest (x # xs) = (case longest xs of None \<Rightarrow> Some x | Some y \<Rightarrow> if length x < length y then Some y else Some x)"

definition mux :: "string list \<Rightarrow> string \<Rightarrow> string option" where
  "mux routes path = longest (filter (pattern_matches path) routes)"

text \<open>A request as the server handles it; \<open>None\<close> is a handler that panics.\<close>

definition http_request ::
  "string \<Rightarrow> string \<Rightarrow> string + bytes \<Rightarrow> (u32 \<Rightarrow> float64 \<times> bool) \<Rightarrow> i64 \<Rightarrow> string list \<Rightarrow> peer \<Rightarrow> response option \<times> peer" where
  "http_request meth path sent g now routes p =
     (case mux routes path of
        None \<Rightarrow> (Some not_found, p)
      | Some r \<Rightarrow>
          (if r = ''/stream.m3u8'' then (case playlist_request p of (resp, p') \<Rightarrow> (Some resp, p'))
           else if r = ''/ingest/'' then
             (case ingest_handler meth path sent g now (ring p) of (resp, rb) \<Rightarrow> (Some resp, p\<lparr>ring := rb\<rparr>))
           else (root_handler path (ring p), p)))"

section \<open>The running process\<close>

text \<open>One turn of a subscription loop: it first looks whether the context of \<^verbatim>\<open>main\<close> is done, and then ends without a subscription.\<close>

definition loop_turn :: "bool \<Rightarrow> (subscription \<Rightarrow> subscription) \<Rightarrow> subscription \<Rightarrow> subscription" where
  "loop_turn done poll s = (if done then s\<lparr>sub_open := None\<rparr> else poll s)"

definition control_turn :: "bool \<Rightarrow> process \<Rightarrow> process" where
  "control_turn ok s = s\<lparr>ctrl_sub := loop_turn (ctxDone s) (poll_control (CtrlTopic (pr_peer s)) ok) (ctrl_sub s)\<rparr>"

definition chat_turn :: "bool \<Rightarrow> process \<Rightarrow> process" where
  "chat_turn ok s = s\<lparr>chat_sub := loop_turn (ctxDone s) (poll_chat (ChatTopic (pr_peer s)) ok) (chat_sub s)\<rparr>"

definition video_turn :: "bool \<Rightarrow> process \<Rightarrow> process" where
  "video_turn ok s = s\<lparr>video_sub := loop_turn (ctxDone s) (poll_video (VideoTopic (pr_peer s)) ok) (video_sub s)\<rparr>"

text \<open>The calls of the shutdown, in their order.\<close>

definition shutdown_calls :: "shutdown_call list" where
  "shutdown_calls = [CancelContext, GrpcStop, HttpShutdown (Some 5), HostClose]"

text \<open>What a call does at once: the servers take nothing new.\<close>

fun begin_call :: "shutdown_call \<Rightarrow> process \<Rightarrow> process" where
  "begin_call CancelContext s = s\<lparr>ctxDone := True\<rparr>"
| "begin_call GrpcStop s = s\<lparr>grpcServing := False\<rparr>"
| "begin_call GrpcGracefulStop s = s\<lparr>grpcServing := False\<rparr>"
| "begin_call (HttpShutdown t) s = s\<lparr>httpServing := False\<rparr>"
| "begin_call HostClose s = s\<lparr>hostOpen := False\<rparr>"

definition enter :: "shutdown_call list \<Rightarrow> process \<Rightarrow> process" where
  "enter cs s =
     (case cs of
        [] \<Rightarrow> s\<lparr>pr_main := Returned\<rparr>
      | c # _ \<Rightarrow> begin_call c (s\<lparr>pr_main := Shutting cs, call_since := pr_clock s\<rparr>))"

text \<open>
  When a call may return. \<^verbatim>\<open>http.Server.Shutdown\<close> does when no request is under way or its context has expired; what the
  gRPC server and the libp2p host do is the parameter \<open>lib\<close>. The errors of \<^verbatim>\<open>Shutdown\<close> and of closing the host are only logged.
\<close>

type_synonym lib_calls = "shutdown_call \<Rightarrow> process \<Rightarrow> bool"

fun call_returns :: "lib_calls \<Rightarrow> shutdown_call \<Rightarrow> process \<Rightarrow> bool" where
  "call_returns lib CancelContext s = True"
| "call_returns lib (HttpShutdown t) s \<longleftrightarrow> open_requests s = 0 \<or> (\<exists>d \<in> set_option t. call_since s + d \<le> pr_clock s)"
| "call_returns lib c s = lib c s"

text \<open>
  The documented behaviour of the libraries: \<^verbatim>\<open>Stop\<close> of the gRPC server closes its connections and waits for no stream, \<^verbatim>\<open>GracefulStop\<close> waits
  for all of them, and closing the host waits for nobody.
\<close>

definition lib_documented :: "lib_calls \<Rightarrow> bool" where
  "lib_documented lib \<longleftrightarrow> (\<forall>s. lib GrpcStop s) \<and> (\<forall>s. lib GrpcGracefulStop s \<longleftrightarrow> open_streams s = 0) \<and> (\<forall>s. lib HostClose s)"

text \<open>The next thing \<^verbatim>\<open>main\<close> does: a signal arrives, or the present call returns; \<open>None\<close> while the call blocks.\<close>

definition main_step :: "lib_calls \<Rightarrow> process \<Rightarrow> process option" where
  "main_step lib s =
     (case pr_main s of
        AwaitSignal \<Rightarrow> Some (enter shutdown_calls s)
      | Shutting (c # cs) \<Rightarrow> if call_returns lib c s then Some (enter cs s) else None
      | _ \<Rightarrow> None)"

text \<open>
  The steps. What is under way in the service may still finish while \<^verbatim>\<open>main\<close> shuts down, so its steps are possible until \<^verbatim>\<open>main\<close> returns.
  Streams and requests arrive only while their server listens; nothing says that they ever end.
\<close>

inductive process_step :: "lib_calls \<Rightarrow> process \<Rightarrow> process \<Rightarrow> bool" for lib :: lib_calls where
  main_call: "main_step lib s = Some t \<Longrightarrow> process_step lib s t"
| second: "pr_main s \<noteq> Returned \<Longrightarrow> process_step lib s (s\<lparr>pr_clock := Suc (pr_clock s)\<rparr>)"
| stream_begins: "pr_main s \<noteq> Returned \<Longrightarrow> grpcServing s \<Longrightarrow> process_step lib s (s\<lparr>open_streams := Suc (open_streams s)\<rparr>)"
| stream_ends: "pr_main s \<noteq> Returned \<Longrightarrow> process_step lib s (s\<lparr>open_streams := open_streams s - 1\<rparr>)"
| request_begins: "pr_main s \<noteq> Returned \<Longrightarrow> httpServing s \<Longrightarrow> process_step lib s (s\<lparr>open_requests := Suc (open_requests s)\<rparr>)"
| request_ends: "pr_main s \<noteq> Returned \<Longrightarrow> process_step lib s (s\<lparr>open_requests := open_requests s - 1\<rparr>)"
| service: "pr_main s \<noteq> Returned \<Longrightarrow> service_step (pr_peer s) p \<Longrightarrow> process_step lib s (s\<lparr>pr_peer := p\<rparr>)"
| control_loop: "pr_main s \<noteq> Returned \<Longrightarrow> process_step lib s (control_turn ok s)"
| chat_loop: "pr_main s \<noteq> Returned \<Longrightarrow> process_step lib s (chat_turn ok s)"
| video_loop: "pr_main s \<noteq> Returned \<Longrightarrow> process_step lib s (video_turn ok s)"

section \<open>What holds while the process runs\<close>

text \<open>The calls that have been made.\<close>

definition begun :: "main_at \<Rightarrow> shutdown_call set" where
  "begun m = (case m of AwaitSignal \<Rightarrow> {} | Shutting cs \<Rightarrow> set (take (Suc (length shutdown_calls - length cs)) shutdown_calls)
     | Returned \<Rightarrow> set shutdown_calls)"

text \<open>The service is in a good state, and what still runs follows from where \<^verbatim>\<open>main\<close> is.\<close>

definition process_ok :: "process \<Rightarrow> bool" where
  "process_ok s \<longleftrightarrow> service_ok (pr_peer s)
     \<and> (\<forall>cs. pr_main s = Shutting cs \<longrightarrow> cs \<noteq> [] \<and> suffix cs shutdown_calls)
     \<and> ctxDone s = (CancelContext \<in> begun (pr_main s)) \<and> grpcServing s = (GrpcStop \<notin> begun (pr_main s))
     \<and> httpServing s = (HttpShutdown (Some 5) \<notin> begun (pr_main s)) \<and> hostOpen s = (HostClose \<notin> begun (pr_main s))"

lemma turn_fields [simp]:
  "pr_peer (control_turn ok s) = pr_peer s" "pr_peer (chat_turn ok s) = pr_peer s" "pr_peer (video_turn ok s) = pr_peer s"
  "pr_main (control_turn ok s) = pr_main s" "pr_main (chat_turn ok s) = pr_main s" "pr_main (video_turn ok s) = pr_main s"
  "ctxDone (control_turn ok s) = ctxDone s" "ctxDone (chat_turn ok s) = ctxDone s" "ctxDone (video_turn ok s) = ctxDone s"
  "pr_clock (control_turn ok s) = pr_clock s" "pr_clock (chat_turn ok s) = pr_clock s" "pr_clock (video_turn ok s) = pr_clock s"
  "call_since (control_turn ok s) = call_since s" "call_since (chat_turn ok s) = call_since s" "call_since (video_turn ok s) = call_since s"
  by (simp_all add: control_turn_def chat_turn_def video_turn_def)

lemma begin_call_fields [simp]:
  "pr_peer (begin_call c s) = pr_peer s" "pr_main (begin_call c s) = pr_main s" "ctrl_sub (begin_call c s) = ctrl_sub s"
  "chat_sub (begin_call c s) = chat_sub s" "video_sub (begin_call c s) = video_sub s" "ctxDone s \<Longrightarrow> ctxDone (begin_call c s)"
  "pr_clock (begin_call c s) = pr_clock s" "call_since (begin_call c s) = call_since s" "open_requests (begin_call c s) = open_requests s"
  by (cases c; simp)+

lemma enter_fields [simp]:
  "pr_peer (enter cs s) = pr_peer s" "pr_main (enter cs s) = (if cs = [] then Returned else Shutting cs)" "ctrl_sub (enter cs s) = ctrl_sub s"
  "chat_sub (enter cs s) = chat_sub s" "video_sub (enter cs s) = video_sub s" "ctxDone s \<Longrightarrow> ctxDone (enter cs s)"
  "pr_clock (enter cs s) = pr_clock s"
  by (simp_all add: enter_def split: list.split)

lemma main_step_cases:
  assumes "main_step lib s = Some t"
  obtains "pr_main s = AwaitSignal" "t = enter shutdown_calls s"
  | c cs where "pr_main s = Shutting (c # cs)" "call_returns lib c s" "t = enter cs s"
  using assms by (auto simp: main_step_def split: main_at.splits list.splits if_splits)

lemma process_ok_turn [simp]:
  "process_ok (control_turn ok s) = process_ok s" "process_ok (chat_turn ok s) = process_ok s" "process_ok (video_turn ok s) = process_ok s"
  "process_ok (s\<lparr>pr_clock := a\<rparr>) = process_ok s" "process_ok (s\<lparr>open_streams := b\<rparr>) = process_ok s" "process_ok (s\<lparr>open_requests := d\<rparr>) = process_ok s"
  by (simp_all add: process_ok_def control_turn_def chat_turn_def video_turn_def)

lemma suffix_calls:
  "suffix (c # cs) shutdown_calls \<Longrightarrow> c # cs \<in> {shutdown_calls, [GrpcStop, HttpShutdown (Some 5), HostClose], [HttpShutdown (Some 5), HostClose], [HostClose]}"
  by (auto simp: shutdown_calls_def suffix_Cons)

lemma process_ok_main: "process_ok s \<Longrightarrow> main_step lib s = Some t \<Longrightarrow> process_ok t"
proof (erule main_step_cases)
  assume "process_ok s" "pr_main s = AwaitSignal" "t = enter shutdown_calls s"
  then show "process_ok t" by (simp add: process_ok_def begun_def enter_def) (simp add: shutdown_calls_def)
next
  fix c cs assume ok: "process_ok s" and m: "pr_main s = Shutting (c # cs)" "t = enter cs s"
  then have "suffix (c # cs) shutdown_calls" by (simp add: process_ok_def)
  from suffix_calls [OF this] ok m show "process_ok t"
    by (auto simp: process_ok_def begun_def enter_def shutdown_calls_def suffix_Cons)
qed

lemma process_ok_step: "process_step lib s t \<Longrightarrow> process_ok s \<Longrightarrow> process_ok t"
proof (induction rule: process_step.induct)
  case (main_call s t)
  then show ?case by (rule process_ok_main [rotated])
next
  case (service s p)
  then show ?case by (auto simp: process_ok_def intro: service_ok_step)
qed simp_all

lemma main_init_known:
  "main_init E h rs nomdns c0 = None \<longleftrightarrow> (\<exists>raw \<in> set (split_on (CHR '','') rs). trim_space raw \<noteq> '''' \<and>
     (\<forall>r \<in> set defaultRoleDefinitions. to_lower (role_name r) \<noteq> to_lower (trim_space raw)))"
proof
  assume "main_init E h rs nomdns c0 = None"
  then show "\<exists>raw \<in> set (split_on (CHR '','') rs). trim_space raw \<noteq> '''' \<and>
     (\<forall>r \<in> set defaultRoleDefinitions. to_lower (role_name r) \<noteq> to_lower (trim_space raw))"
    using main_init_starts [where E = E and h = h and rs = rs and nomdns = nomdns and ?c0.0 = c0] by simp
next
  assume "\<exists>raw \<in> set (split_on (CHR '','') rs). trim_space raw \<noteq> '''' \<and>
     (\<forall>r \<in> set defaultRoleDefinitions. to_lower (role_name r) \<noteq> to_lower (trim_space raw))"
  then obtain raw where "raw \<in> set (split_on (CHR '','') rs)" "to_lower (trim_space raw) \<noteq> []"
    "mget (definitions NewRoleManager) (to_lower (trim_space raw)) = None"
    by (metis default_definitions not_None_eq to_lower_eq_Nil)
  then have "List.find (\<lambda>raw. to_lower (trim_space raw) \<noteq> [] \<and> mget (definitions NewRoleManager) (to_lower (trim_space raw)) = None)
      (split_on (CHR '','') rs) \<noteq> None"
    by (auto simp: find_None_iff)
  then show "main_init E h rs nomdns c0 = None"
    by (auto simp: main_init_def initial_roles_def ParseRoleNames_def parse_loop_find NewRingBuffer_def split: option.split)
qed

lemma boot_Inr:
  "boot E B F c0 = Inr s \<longleftrightarrow>
     (\<exists>port g p. be_http_listen B = Inr port \<and> grpc_port B F = Inr g \<and> be_grpc_listen B g = None
        \<and> host_err (be_host B) = None \<and> dht_err (be_host B) = None \<and> bootstrap_err (be_host B) = None
        \<and> be_pubsub_err B = None \<and> main_init E (be_id B) (initialRolesStr F) (noMdns_flag F) c0 = Some p
        \<and> s = \<lparr>pr_peer = p, pr_PATH = search_path B, pr_hlsPort = port, pr_grpcPort = g, pr_routes = all_routes,
               pr_main = AwaitSignal, pr_clock = 0, call_since = 0, ctxDone = False, grpcServing = True, httpServing = True,
               hostOpen = True, open_streams = 0, open_requests = 0, ctrl_sub = no_subscription, chat_sub = no_subscription, video_sub = no_subscription\<rparr>)"
  by (auto simp: boot_def grpc_listener_def buildHost_def Let_def split: sum.splits option.splits)

lemma process_ok_boot: "boot E B F c0 = Inr s \<Longrightarrow> process_ok s"
  by (auto simp: boot_Inr process_ok_def begun_def service_ok_init)

interpretation process_runs: step_invariant "process_step lib" "\<lambda>s. \<exists>E B F c0. boot E B F c0 = Inr s" process_ok
  by unfold_locales (auto simp: process_ok_boot intro: process_ok_step)

section \<open>Shutdown\<close>

text \<open>
  A run of the process: the states after each of its steps, or the same state again. It is fair to \<^verbatim>\<open>main\<close> when what \<^verbatim>\<open>main\<close> does next,
  once it can be done at all times, is done at some time after a signal; and time passes in it until \<^verbatim>\<open>main\<close> returns.
\<close>

definition process_run :: "lib_calls \<Rightarrow> (nat \<Rightarrow> process) \<Rightarrow> bool" where
  "process_run lib \<sigma> \<longleftrightarrow> (\<exists>E B F c0. boot E B F c0 = Inr (\<sigma> 0)) \<and> (\<forall>n. \<sigma> (Suc n) = \<sigma> n \<or> process_step lib (\<sigma> n) (\<sigma> (Suc n)))"

definition main_fair :: "lib_calls \<Rightarrow> (nat \<Rightarrow> process) \<Rightarrow> bool" where
  "main_fair lib \<sigma> \<longleftrightarrow> (\<forall>n. pr_main (\<sigma> n) \<noteq> AwaitSignal \<longrightarrow> (\<forall>m \<ge> n. main_step lib (\<sigma> m) \<noteq> None) \<longrightarrow>
     (\<exists>m \<ge> n. main_step lib (\<sigma> m) = Some (\<sigma> (Suc m))))"

definition time_passes :: "(nat \<Rightarrow> process) \<Rightarrow> bool" where
  "time_passes \<sigma> \<longleftrightarrow> (\<forall>t. \<exists>n. t \<le> pr_clock (\<sigma> n) \<or> pr_main (\<sigma> n) = Returned)"

lemma run_Suc: "process_run lib \<sigma> \<Longrightarrow> \<sigma> (Suc n) = \<sigma> n \<or> process_step lib (\<sigma> n) (\<sigma> (Suc n))"
  by (simp add: process_run_def)

lemma run_ok: "process_run lib \<sigma> \<Longrightarrow> process_ok (\<sigma> n)"
proof (induction n)
  case 0
  then show ?case by (auto simp: process_run_def intro: process_ok_boot)
next
  case (Suc n)
  then show ?case using run_Suc [of lib \<sigma> n] process_ok_step by metis
qed

lemma returned_is_final: "process_step lib s t \<Longrightarrow> pr_main s \<noteq> Returned"
  by (induction rule: process_step.induct) (auto simp: main_step_def)

lemma run_returned: "process_run lib \<sigma> \<Longrightarrow> pr_main (\<sigma> m) = Returned \<Longrightarrow> m \<le> k \<Longrightarrow> \<sigma> k = \<sigma> m"
proof (induction k)
  case (Suc k)
  then show ?case using run_Suc [of lib \<sigma> k] returned_is_final [of lib "\<sigma> k"] by (cases "m = Suc k") fastforce+
qed simp

lemma clock_step: "process_step lib s t \<Longrightarrow> pr_clock s \<le> pr_clock t"
  by (induction rule: process_step.induct) (auto elim!: main_step_cases)

lemma run_clock: "process_run lib \<sigma> \<Longrightarrow> n \<le> m \<Longrightarrow> pr_clock (\<sigma> n) \<le> pr_clock (\<sigma> m)"
proof (induction m)
  case (Suc m)
  then show ?case using run_Suc [of lib \<sigma> m] clock_step [of lib "\<sigma> m" "\<sigma> (Suc m)"] by (cases "n = Suc m") fastforce+
qed simp

text \<open>Any other step leaves \<^verbatim>\<open>main\<close> where it is, in the call it has made.\<close>

lemma step_main:
  "process_step lib s t \<Longrightarrow> main_step lib s = Some t \<or> (pr_main t = pr_main s \<and> call_since t = call_since s)"
  by (induction rule: process_step.induct) simp_all

text \<open>The calls that do not wait for somebody else for ever.\<close>

fun bounded_call :: "shutdown_call \<Rightarrow> bool" where
  "bounded_call GrpcGracefulStop = False"
| "bounded_call (HttpShutdown t) = (t \<noteq> None)"
| "bounded_call _ = True"

lemma shutdown_bounded: "list_all bounded_call shutdown_calls"
  by (simp add: shutdown_calls_def)

lemma bounded_returns:
  assumes "lib_documented lib" "bounded_call c"
  shows "\<exists>d. \<forall>s. call_since s + d \<le> pr_clock s \<longrightarrow> call_returns lib c s"
  using assms by (cases c) (auto simp: lib_documented_def)

text \<open>A call that is bounded returns, whatever requests and streams are under way.\<close>

lemma call_ends:
  assumes "process_run lib \<sigma>" "main_fair lib \<sigma>" "time_passes \<sigma>" "lib_documented lib" "bounded_call c" "pr_main (\<sigma> n) = Shutting (c # cs)"
  shows "\<exists>m > n. pr_main (\<sigma> m) = (if cs = [] then Returned else Shutting cs)"
proof (cases "\<exists>m \<ge> n. pr_main (\<sigma> m) = Shutting (c # cs) \<and> main_step lib (\<sigma> m) = Some (\<sigma> (Suc m))")
  case True
  then obtain m where m: "m \<ge> n" "pr_main (\<sigma> m) = Shutting (c # cs)" "main_step lib (\<sigma> m) = Some (\<sigma> (Suc m))" by blast
  from m(3) have "pr_main (\<sigma> (Suc m)) = (if cs = [] then Returned else Shutting cs)" by (rule main_step_cases) (use m(2) in auto)
  with m(1) show ?thesis by (intro exI [of _ "Suc m"]) simp
next
  case False
  have stay: "pr_main (\<sigma> (n + k)) = Shutting (c # cs) \<and> call_since (\<sigma> (n + k)) = call_since (\<sigma> n)" for k
  proof (induction k)
    case (Suc k)
    with False have "main_step lib (\<sigma> (n + k)) \<noteq> Some (\<sigma> (Suc (n + k)))" by auto
    with Suc run_Suc [OF assms(1), of "n + k"] step_main [of lib "\<sigma> (n + k)" "\<sigma> (Suc (n + k))"] show ?case by auto
  qed (use assms(6) in simp)
  obtain d where d: "\<And>s. call_since s + d \<le> pr_clock s \<Longrightarrow> call_returns lib c s" using bounded_returns [OF assms(4,5)] by blast
  obtain k where k: "call_since (\<sigma> n) + d \<le> pr_clock (\<sigma> k) \<or> pr_main (\<sigma> k) = Returned" using assms(3) by (auto simp: time_passes_def)
  let ?m = "max n k"
  have "pr_main (\<sigma> ?m) = Shutting (c # cs)" using stay [of "?m - n"] by simp
  then have "pr_main (\<sigma> k) \<noteq> Returned" using run_returned [OF assms(1), of k ?m] by auto
  with k have late: "call_since (\<sigma> n) + d \<le> pr_clock (\<sigma> m)" if "m \<ge> ?m" for m using run_clock [OF assms(1), of k m] that by simp
  have on: "pr_main (\<sigma> m) = Shutting (c # cs) \<and> main_step lib (\<sigma> m) \<noteq> None" if "m \<ge> ?m" for m
  proof -
    have "pr_main (\<sigma> m) = Shutting (c # cs)" "call_since (\<sigma> m) = call_since (\<sigma> n)" using stay [of "m - n"] that by simp_all
    with late [OF that] d [of "\<sigma> m"] show ?thesis by (simp add: main_step_def)
  qed
  then obtain m where "m \<ge> ?m" "main_step lib (\<sigma> m) = Some (\<sigma> (Suc m))"
    using assms(2) unfolding main_fair_def by (metis main_at.distinct(1) order_refl)
  with on [of m] False show ?thesis by auto
qed

lemma calls_end:
  assumes "process_run lib \<sigma>" "main_fair lib \<sigma>" "time_passes \<sigma>" "lib_documented lib"
  shows "list_all bounded_call cs \<Longrightarrow> pr_main (\<sigma> n) = (if cs = [] then Returned else Shutting cs) \<Longrightarrow> \<exists>m \<ge> n. pr_main (\<sigma> m) = Returned"
proof (induction cs arbitrary: n)
  case (Cons c cs)
  then have "bounded_call c" "pr_main (\<sigma> n) = Shutting (c # cs)" by simp_all
  then obtain m where m: "m > n" "pr_main (\<sigma> m) = (if cs = [] then Returned else Shutting cs)" using call_ends [OF assms] by blast
  with Cons.IH [of m] Cons.prems(1) show ?case by (auto dest: order.trans [OF less_imp_le])
qed auto

lemma run_returns:
  assumes "process_run lib \<sigma>" "main_fair lib \<sigma>" "time_passes \<sigma>" "lib_documented lib" "pr_main (\<sigma> n) \<noteq> AwaitSignal"
  shows "\<exists>m \<ge> n. pr_main (\<sigma> m) = Returned"
proof (cases "pr_main (\<sigma> n)")
  case (Shutting cs)
  with run_ok [OF assms(1), of n] have "cs \<noteq> []" "suffix cs shutdown_calls" by (auto simp: process_ok_def)
  then have "list_all bounded_call cs" using shutdown_bounded set_mono_suffix [of cs shutdown_calls] unfolding list_all_iff by blast
  with calls_end [OF assms(1-4)] Shutting \<open>cs \<noteq> []\<close> show ?thesis by simp
qed (use assms(5) in auto)

section \<open>Properties\<close>

text \<open>
  The start. The process starts exactly when both listeners, the host, its DHT and GossipSub could be set up and the \<open>-roles\<close> flag names
  default roles only, whatever the bootstrap peers answer. It then serves the port it was given, or a free one for 0, as the
  peer of the host, in a good state and with exactly the permissions of the roles named.
\<close>

theorem boot_outcome:
  "((\<exists>s. boot E B F c0 = Inr s) \<longleftrightarrow>
      (\<exists>port. be_http_listen B = Inr port) \<and> (\<exists>g. grpc_port B F = Inr g \<and> be_grpc_listen B g = None)
      \<and> host_err (be_host B) = None \<and> dht_err (be_host B) = None \<and> bootstrap_err (be_host B) = None \<and> be_pubsub_err B = None
      \<and> \<not> (\<exists>raw \<in> set (split_on (CHR '','') (initialRolesStr F)). trim_space raw \<noteq> '''' \<and>
            (\<forall>r \<in> set defaultRoleDefinitions. to_lower (role_name r) \<noteq> to_lower (trim_space raw))))
    \<and> (boot E B F c0 = Inr s \<longrightarrow> ID (pr_peer s) = be_id B \<and> grpc_port B F = Inr (pr_grpcPort s) \<and> service_ok (pr_peer s)
        \<and> (\<forall>q. Has (GetPermissionsForPeer (rm_of (pr_peer s)) (be_id B)) q \<longleftrightarrow> (\<exists>r \<in> granted (initialRolesStr F). Has (role_perms r) q)))"
proof -
  have "ID p = be_id B \<and> service_ok p
      \<and> (\<forall>q. Has (GetPermissionsForPeer (rm_of p) (be_id B)) q \<longleftrightarrow> (\<exists>r \<in> granted (initialRolesStr F). Has (role_perms r) q))"
    if "main_init E (be_id B) (initialRolesStr F) (noMdns_flag F) c0 = Some p" for p
    using main_init_starts [where E = E and h = "be_id B" and rs = "initialRolesStr F" and nomdns = "noMdns_flag F" and ?c0.0 = c0]
      service_ok_init [OF that] that by simp
  then show ?thesis
    unfolding boot_Inr main_init_known [of E "be_id B" "initialRolesStr F" "noMdns_flag F" c0, symmetric] by auto
qed

text \<open>
  C26. The shutdown ends. After a signal \<^verbatim>\<open>main\<close> returns, whatever the clients, the gossip, the encoders and the loops do in the meantime, and even if
  streams of clients and requests for the playlist that are under way never end: the gRPC server is stopped and not stopped gracefully, and the
  shutdown of the HTTP server has a timeout. This needs that \<^verbatim>\<open>main\<close> goes on once its call can return, that time passes, and the documented
  behaviour of the gRPC server and of the host; from then on nothing changes, and context, servers and host are closed.
\<close>

theorem main_returns:
  assumes "process_run lib \<sigma>" "main_fair lib \<sigma>" "time_passes \<sigma>" "lib_documented lib" "pr_main (\<sigma> n) \<noteq> AwaitSignal"
  shows "\<exists>m \<ge> n. \<forall>k \<ge> m. \<sigma> k = \<sigma> m \<and> pr_main (\<sigma> k) = Returned \<and> ctxDone (\<sigma> k)
    \<and> \<not> grpcServing (\<sigma> k) \<and> \<not> httpServing (\<sigma> k) \<and> \<not> hostOpen (\<sigma> k) \<and> service_ok (pr_peer (\<sigma> k))"
proof -
  obtain m where m: "m \<ge> n" "pr_main (\<sigma> m) = Returned" using run_returns [OF assms] by blast
  then have "ctxDone (\<sigma> m) \<and> \<not> grpcServing (\<sigma> m) \<and> \<not> httpServing (\<sigma> m) \<and> \<not> hostOpen (\<sigma> m) \<and> service_ok (pr_peer (\<sigma> m))"
    using run_ok [OF assms(1), of m] by (simp add: process_ok_def begun_def shutdown_calls_def)
  with m run_returned [OF assms(1) m(2)] show ?thesis by metis
qed

text \<open>
  The shutdown does not stop the encoder: from the wait for a signal \<^verbatim>\<open>main\<close> can return with the node, and so with a run of the encoder
  whose context is live, as it is. The context of that run does not come from the one \<^verbatim>\<open>main\<close> cancels.
\<close>

theorem shutdown_leaves_encoder:
  assumes "lib_documented lib" "pr_main s = AwaitSignal" "open_requests s = 0"
  shows "\<exists>s'. (process_step lib)\<^sup>*\<^sup>* s s' \<and> pr_main s' = Returned \<and> nd (pr_peer s') = nd (pr_peer s)"
proof -
  let ?go = "\<lambda>s. the (main_step lib s)"
  have one: "process_step lib t (?go t)" if "main_step lib t \<noteq> None" for t using that by (intro main_call) auto
  have "main_step lib ((?go ^^ k) s) \<noteq> None \<and> nd (pr_peer ((?go ^^ k) s)) = nd (pr_peer s)
      \<and> pr_main ((?go ^^ k) s) = (if k = 0 then AwaitSignal else Shutting (drop (k - 1) shutdown_calls))" if "k < 5" for k
  proof -
    from that consider "k = 0" | "k = 1" | "k = 2" | "k = 3" | "k = 4" by linarith
    then show ?thesis
      using assms by cases (simp_all add: main_step_def enter_def shutdown_calls_def lib_documented_def eval_nat_numeral)
  qed
  note f = this
  have "(process_step lib)\<^sup>*\<^sup>* s ((?go ^^ k) s)" if "k \<le> 5" for k
    using that
  proof (induction k)
    case (Suc k)
    with f [of k] one [of "(?go ^^ k) s"] show ?case by (auto intro: rtranclp.rtrancl_into_rtrancl)
  qed simp
  moreover have "pr_main ((?go ^^ 5) s) = Returned \<and> nd (pr_peer ((?go ^^ 5) s)) = nd (pr_peer s)"
    using assms by (simp add: main_step_def enter_def shutdown_calls_def lib_documented_def eval_nat_numeral)
  ultimately show ?thesis by blast
qed

text \<open>
  Once the context is cancelled no loop subscribes again: every subscription stays as it was or is given up, and the next turn of each
  loop gives it up.
\<close>

lemma loop_turn_done [simp]: "sub_open (loop_turn True poll s) = None"
  by (simp add: loop_turn_def)

definition subs_from :: "process \<Rightarrow> process \<Rightarrow> bool" where
  "subs_from s t \<longleftrightarrow> sub_open (ctrl_sub t) \<in> {None, sub_open (ctrl_sub s)} \<and> sub_open (chat_sub t) \<in> {None, sub_open (chat_sub s)}
     \<and> sub_open (video_sub t) \<in> {None, sub_open (video_sub s)}"

lemma subs_from_step: "process_step lib s t \<Longrightarrow> ctxDone s \<Longrightarrow> subs_from s t \<and> ctxDone t"
  by (induction rule: process_step.induct) (auto elim!: main_step_cases simp: subs_from_def control_turn_def chat_turn_def video_turn_def)

theorem cancelled_loops_close:
  assumes "(process_step lib)\<^sup>*\<^sup>* s t" "ctxDone s"
  shows "subs_from s t \<and> sub_open (ctrl_sub (control_turn ok t)) = None \<and> sub_open (chat_sub (chat_turn ok t)) = None
    \<and> sub_open (video_sub (video_turn ok t)) = None"
proof -
  from assms have "subs_from s t \<and> ctxDone t"
  proof (induction rule: rtranclp_induct)
    case (step t u)
    then show ?case using subs_from_step [OF step(2)] by (auto simp: subs_from_def)
  qed (simp add: subs_from_def)
  then show ?thesis by (simp add: control_turn_def chat_turn_def video_turn_def)
qed

text \<open>
  The routes. A request for the playlist, for a segment to be stored and for anything else reaches its own handler; as long as the
  node is not complete a segment is refused with 404 and the window stays as it is. No request makes a handler panic.
\<close>

lemma mux_cases:
  assumes "has_prefix path ''/''"
  shows "mux all_routes path = Some (if path = ''/stream.m3u8'' then path else if has_prefix path ''/ingest/'' then ''/ingest/'' else ''/'')"
    "mux first_routes path = Some (if path = ''/stream.m3u8'' then path else ''/'')"
  using assms by (auto simp: mux_def all_routes_def first_routes_def pattern_matches_def has_prefix_def)

theorem http_routing:
  assumes "has_prefix path ''/''"
  shows "http_request meth path sent g now all_routes p =
      (if path = ''/stream.m3u8'' then (Some (fst (playlist_request p)), snd (playlist_request p))
       else if has_prefix path ''/ingest/'' then
         (Some (fst (ingest_handler meth path sent g now (ring p))), p\<lparr>ring := snd (ingest_handler meth path sent g now (ring p))\<rparr>)
       else (root_handler path (ring p), p))
    \<and> (has_prefix path ''/ingest/'' \<longrightarrow> http_request meth path sent g now first_routes p = (Some not_found, p))
    \<and> fst (http_request meth path sent g now all_routes p) \<noteq> None"
proof -
  have "root_handler path (ring p) \<noteq> None" using http_errors [of path "ring p"] by simp
  moreover have "path \<noteq> ''/stream.m3u8'' \<and> root_handler path (ring p) = Some not_found" if i: "has_prefix path ''/ingest/''"
    using has_prefixE [OF i] by (auto simp: has_prefix_def root_handler_def)
  ultimately show ?thesis
    by (simp add: http_request_def mux_cases [OF assms] case_prod_beta)
qed

section \<open>Witnesses\<close>

definition ex_boot_env :: boot_env where
  "ex_boot_env = \<lparr>be_exeDir = None, be_PATH = ''/bin'', be_setenv_err = None, be_http_listen = Inr 8080, be_free_port = Inr 5000,
     be_grpc_listen = (\<lambda>_. None),
     be_host = \<lparr>host_err = None, dht_err = None, bootstrap_peers = [], parse_p2p = (\<lambda>_. None), dht_connect = (\<lambda>_. False),
       bootstrap_err = None, private_addr = (\<lambda>_. False)\<rparr>,
     be_pubsub_err = None, be_id = PeerID ''a''\<rparr>"

definition ex_flags :: flags where
  "ex_flags = \<lparr>grpcPort_flag = 0, initialRolesStr = ''Admin'', noMdns_flag = False\<rparr>"

definition ex_process :: process where
  "ex_process = \<lparr>pr_peer = ex_start, pr_PATH = ''/bin'', pr_hlsPort = 8080, pr_grpcPort = 5000, pr_routes = all_routes,
     pr_main = AwaitSignal, pr_clock = 0, call_since = 0, ctxDone = False, grpcServing = True, httpServing = True,
     hostOpen = True, open_streams = 0, open_requests = 0, ctrl_sub = no_subscription, chat_sub = no_subscription, video_sub = no_subscription\<rparr>"

lemma ex_process_boots: "boot ex_env ex_boot_env ex_flags ex_hlc = Inr ex_process"
  using ex_start_init by (simp add: boot_Inr ex_boot_env_def ex_flags_def ex_process_def grpc_port_def search_path_def new_path_def)

theorem boot_outcome_witness:
  "ID (pr_peer ex_process) = PeerID ''a'' \<and> pr_grpcPort ex_process = 5000"
  using boot_outcome [of ex_env ex_boot_env ex_flags ex_hlc ex_process]
  by (simp add: ex_process_boots) (simp add: ex_boot_env_def ex_flags_def grpc_port_def)

text \<open>A run in which a request for the playlist never ends: \<^verbatim>\<open>main\<close> goes on whenever it can, and else a second passes.\<close>

definition ex_lib :: lib_calls where
  "ex_lib c s = (case c of GrpcGracefulStop \<Rightarrow> open_streams s = 0 | _ \<Rightarrow> True)"

definition ex_turn :: "process \<Rightarrow> process" where
  "ex_turn s = (case main_step ex_lib s of Some t \<Rightarrow> t | None \<Rightarrow> if pr_main s = Returned then s else s\<lparr>pr_clock := Suc (pr_clock s)\<rparr>)"

definition ex_requested :: process where
  "ex_requested = ex_process\<lparr>open_requests := 1\<rparr>"

definition ex_run :: "nat \<Rightarrow> process" where
  "ex_run n = (case n of 0 \<Rightarrow> ex_process | Suc k \<Rightarrow> (ex_turn ^^ k) ex_requested)"

lemma ex_turn_main: "pr_main (ex_turn s) = (case main_step ex_lib s of Some t \<Rightarrow> pr_main t | None \<Rightarrow> pr_main s)"
  by (simp add: ex_turn_def split: option.split)

lemma ex_run_steps: "process_run ex_lib ex_run"
proof -
  have "ex_turn s = s \<or> process_step ex_lib s (ex_turn s)" for s
    using main_call [of ex_lib s] second [of s ex_lib] by (auto simp: ex_turn_def split: option.split)
  moreover have "process_step ex_lib ex_process ex_requested"
    using request_begins [of ex_process ex_lib] by (simp add: ex_requested_def) (simp add: ex_process_def)
  ultimately show ?thesis using ex_process_boots by (auto simp: process_run_def ex_run_def split: nat.split)
qed

lemma ex_run_returns: "pr_main (ex_run 11) = Returned"
  by (simp add: ex_run_def ex_requested_def ex_process_def eval_nat_numeral ex_turn_def main_step_def enter_def shutdown_calls_def ex_lib_def)

lemma ex_run_fair: "main_fair ex_lib ex_run" "time_passes ex_run" "lib_documented ex_lib"
proof -
  have "main_step ex_lib (ex_run m) = Some (ex_run (Suc m))" if "main_step ex_lib (ex_run m) \<noteq> None" "m > 0" for m
    using that by (cases m) (auto simp: ex_run_def ex_turn_def)
  moreover have "pr_main (ex_run 0) = AwaitSignal" by (simp add: ex_run_def ex_process_def)
  ultimately show "main_fair ex_lib ex_run" unfolding main_fair_def by (metis bot_nat_0.not_eq_extremum order_refl)
  show "time_passes ex_run" using ex_run_returns by (auto simp: time_passes_def)
  show "lib_documented ex_lib" by (simp add: lib_documented_def ex_lib_def)
qed

theorem main_returns_witness:
  "\<exists>m \<ge> 2. pr_main (ex_run m) = Returned \<and> \<not> hostOpen (ex_run m)"
proof -
  have "pr_main (ex_run 2) \<noteq> AwaitSignal"
    by (simp add: ex_run_def ex_requested_def ex_process_def eval_nat_numeral ex_turn_def main_step_def shutdown_calls_def)
  from main_returns [OF ex_run_steps ex_run_fair this] show ?thesis by blast
qed

theorem shutdown_leaves_encoder_witness:
  "\<exists>s'. (process_step ex_lib)\<^sup>*\<^sup>* ex_process s' \<and> pr_main s' = Returned"
  using shutdown_leaves_encoder [OF ex_run_fair(3), of ex_process] by (auto simp: ex_process_def)

theorem cancelled_loops_close_witness:
  "sub_open (chat_sub (chat_turn True (ex_process\<lparr>ctxDone := True\<rparr>))) = None"
  using cancelled_loops_close [of ex_lib "ex_process\<lparr>ctxDone := True\<rparr>" "ex_process\<lparr>ctxDone := True\<rparr>" True] by simp

theorem http_routing_witness:
  "http_request ''PUT'' ''/ingest/000001.ts'' (Inr [71]) (\<lambda>_. (2, True)) 5 first_routes ex_start = (Some not_found, ex_start)"
  using http_routing [of "''/ingest/000001.ts''" "''PUT''" "Inr [71]" "\<lambda>_. (2, True)" 5 ex_start] by (simp add: has_prefix_def)

end
