(* ===== verification/ScaleSim.thy ===== *)
theory ScaleSim
  imports GoFloat "HOL-Library.Multiset"
begin

text \<open>
  The scalability simulation, \<^verbatim>\<open>peer_service/tools/scale_sim/main.go\<close>: the links between the peers, the time stamps they publish and
  receive, and the collector of latencies with its report. A duration is a signed number of nanoseconds, a topic is the
  number of its peer. GossipSub and libp2p deliver the messages; what they do is an argument.
\<close>

section \<open>The collector\<close>

record metrics =
  latencies :: "i64 list"
  csvPath :: string

definition NewMetricsCollector :: "string \<Rightarrow> metrics" where
  "NewMetricsCollector path = \<lparr>latencies = [], csvPath = path\<rparr>"

definition metrics_Add :: "i64 \<Rightarrow> metrics \<Rightarrow> metrics" where
  "metrics_Add d mc = mc\<lparr>latencies := latencies mc @ [d]\<rparr>"

text \<open>Go divides integers towards zero.\<close>

definition quot :: "int \<Rightarrow> int \<Rightarrow> int" where
  "quot a b = sgn a * sgn b * (\<bar>a\<bar> div \<bar>b\<bar>)"

text \<open>\<^verbatim>\<open>fmt.Sprintf("%.4f", float64(us) / 1000)\<close>; the number and the quotient are rounded to doubles first.\<close>

definition millis_text :: "int \<Rightarrow> string" where
  "millis_text us =
     (let x = round64 (round64 (of_int \<bar>us\<bar>) / 1000); k = nat (round_even (x * 10 ^ 4))
      in (if us < 0 then ''-'' else '''') @ dec (k div 10 ^ 4) @ ''.'' @ pad0 4 (dec (k mod 10 ^ 4)))"

text \<open>The error, and the content of the file that is written; \<open>create_err\<close> is what \<^verbatim>\<open>os.Create\<close> returns.\<close>

definition SaveCSV :: "string option \<Rightarrow> metrics \<Rightarrow> string option \<times> string list option" where
  "SaveCSV create_err mc =
     (if csvPath mc = '''' then (None, None)
      else
        (case create_err of
           Some e \<Rightarrow> (Some e, None)
         | None \<Rightarrow> (None, Some (''latency_ms'' # map (\<lambda>l. millis_text (quot (sint l) 1000)) (latencies mc)))))"

section \<open>The report\<close>

record report =
  r_count :: nat
  r_min :: i64
  r_max :: i64
  r_avg :: i64
  r_p50 :: i64
  r_p95 :: i64
  r_p99 :: i64

definition sorted_latencies :: "i64 list \<Rightarrow> i64 list" where
  "sorted_latencies ls = sort_key sint ls"

text \<open>
  The index of a percentile, \<^verbatim>\<open>int(math.Max(0, float64(count)*q - 1))\<close>. The product is taken exactly. The doubles next to 0.95 and
  0.99 are closer to them than half a unit in the last place of any product, so that for counts below \<open>2 ^ 45\<close> a product that is
  whole is computed exactly and no other one is rounded across a whole number: the index is the same.
\<close>

definition percentile_index :: "rat \<Rightarrow> nat \<Rightarrow> nat" where
  "percentile_index q n = nat \<lfloor>max 0 (of_nat n * q - 1)\<rfloor>"

definition Report :: "metrics \<Rightarrow> report option" where
  "Report mc =
     (let n = length (latencies mc)
      in if n = 0 then None
         else
           (let sorted = sorted_latencies (latencies mc);
                total = fold (\<lambda>l t. t + l) sorted (0 :: i64)
            in Some \<lparr>r_count = n, r_min = sorted ! 0, r_max = sorted ! (n - 1),
                 r_avg = word_of_int (quot (sint total) (int n)),
                 r_p50 = sorted ! percentile_index (50 / 100) n,
                 r_p95 = sorted ! percentile_index (95 / 100) n,
                 r_p99 = sorted ! percentile_index (99 / 100) n\<rparr>))"

section \<open>Time stamps\<close>

definition put_uint64 :: "u64 \<Rightarrow> bytes" where
  "put_uint64 w = map (\<lambda>i. ucast (drop_bit (8 * (7 - i)) w)) [0..<8]"

definition get_uint64 :: "bytes \<Rightarrow> u64" where
  "get_uint64 b = fold (\<lambda>x w. push_bit 8 w OR ucast x) (take 8 b) 0"

text \<open>\<^verbatim>\<open>Time.Sub\<close> stays within the range of a duration.\<close>

definition saturate :: "int \<Rightarrow> i64" where
  "saturate d = word_of_int (max (- (2 ^ 63)) (min (2 ^ 63 - 1) d))"

text \<open>A message that arrives when the clock shows \<open>now\<close>; the slice of one that is too short panics.\<close>

definition on_message :: "int \<Rightarrow> bytes \<Rightarrow> metrics \<Rightarrow> metrics option" where
  "on_message now data mc =
     (if length data < 8 then None
      else Some (metrics_Add (saturate (now - sint (get_uint64 (take 8 data)))) mc))"

section \<open>Peers and publication\<close>

text \<open>
  The links the peers \<open>i\<close>, \<open>i + 1\<close>, ..., \<open>n - 1\<close> ask for, in order, with the random numbers \<open>rnd\<close>; the flag tells a link whose
  failure is logged.
\<close>

definition peer_links :: "nat \<Rightarrow> (nat \<Rightarrow> nat) \<Rightarrow> nat \<Rightarrow> (nat \<times> nat) list" where
  "peer_links n rnd i =
     (let next = (i + 1) mod n; r = rnd i
      in (i, next) # (if r \<noteq> i \<and> r \<noteq> next then [(i, r)] else []))"

definition link_list :: "nat \<Rightarrow> (nat \<Rightarrow> nat) \<Rightarrow> (nat \<times> nat) list" where
  "link_list n rnd = concat (map (peer_links n rnd) [0..<n])"

text \<open>One tick: the peer that publishes, its message, and the next publisher. Without peers the index panics.\<close>

definition tick :: "nat \<Rightarrow> int \<Rightarrow> nat \<Rightarrow> ((nat \<times> bytes) \<times> nat) option" where
  "tick n now pubIdx =
     (if n \<le> pubIdx then None else Some ((pubIdx, put_uint64 (word_of_int now)), (pubIdx + 1) mod n))"

fun ticks :: "nat \<Rightarrow> int list \<Rightarrow> nat \<Rightarrow> (nat \<times> bytes) list option" where
  "ticks n [] pubIdx = Some []"
| "ticks n (t # ts) pubIdx =
     (case tick n t pubIdx of None \<Rightarrow> None | Some (m, next) \<Rightarrow> map_option (\<lambda>ms. m # ms) (ticks n ts next))"

section \<open>Lemmas\<close>

lemma sorted_latencies_facts [simp]:
  "length (sorted_latencies ls) = length ls" "set (sorted_latencies ls) = set ls" "mset (sorted_latencies ls) = mset ls"
  "sorted (map sint (sorted_latencies ls))"
  by (simp_all add: sorted_latencies_def)

lemma sorted_latencies_mono:
  assumes "i \<le> j" "j < length ls"
  shows "sint (sorted_latencies ls ! i) \<le> sint (sorted_latencies ls ! j)"
  using sorted_nth_mono [OF sorted_latencies_facts(4), of i j ls] assms by simp

lemma percentile_index_mono: "q \<le> r \<Longrightarrow> percentile_index q n \<le> percentile_index r n"
  unfolding percentile_index_def by (intro nat_mono floor_mono max.mono) (simp_all add: mult_left_mono)

lemma percentile_index_less:
  assumes "0 < n" "q < 1" shows "percentile_index q n < n"
proof -
  have "rat_of_nat n * q < rat_of_nat n * 1" using assms by (intro mult_strict_left_mono) simp_all
  then have "rat_of_nat n * q - 1 < rat_of_nat n" by linarith
  with assms(1) have "max 0 (of_nat n * q - 1) < rat_of_nat n" by (simp only: max_less_iff_conj) simp
  then have "\<lfloor>max 0 (of_nat n * q - 1)\<rfloor> < int n" by (simp add: floor_less_iff)
  moreover have "0 \<le> \<lfloor>max 0 (rat_of_nat n * q - 1)\<rfloor>" by simp
  ultimately show ?thesis unfolding percentile_index_def by (simp only: nat_less_iff)
qed

lemma percentile_index_share:
  assumes "0 \<le> q" shows "nat \<lfloor>of_nat n * q\<rfloor> \<le> Suc (percentile_index q n)"
proof -
  have "\<lfloor>rat_of_nat n * q\<rfloor> - 1 \<le> \<lfloor>max 0 (of_nat n * q - 1)\<rfloor>" by (simp add: floor_mono le_floor_iff max_def)
  then show ?thesis unfolding percentile_index_def by simp
qed

text \<open>At least \<open>Suc i\<close> of the measured values are at most the value at the index \<open>i\<close>.\<close>

lemma share_below:
  assumes "i < length ls"
  shows "Suc i \<le> length (filter (\<lambda>l. sint l \<le> sint (sorted_latencies ls ! i)) ls)"
proof -
  let ?s = "sorted_latencies ls" and ?P = "\<lambda>l. sint l \<le> sint (sorted_latencies ls ! i)"
  have "\<forall>x \<in> set (take (Suc i) ?s). ?P x"
    using assms sorted_latencies_mono by (auto simp: in_set_conv_nth)
  then have "filter ?P (take (Suc i) ?s) = take (Suc i) ?s" by (simp add: filter_id_conv)
  then have "Suc i = length (filter ?P (take (Suc i) ?s))" using assms by simp
  also have "\<dots> \<le> length (filter ?P ?s)"
    using filter_append [of ?P "take (Suc i) ?s" "drop (Suc i) ?s"] by simp
  also have "\<dots> = length (filter ?P ls)"
    by (metis mset_filter size_mset sorted_latencies_facts(3))
  finally show ?thesis .
qed

lemma total_exact:
  assumes "\<forall>l \<in> set ls. 0 \<le> sint l" "0 \<le> sint t" "sint t + (\<Sum>l\<leftarrow>ls. sint l) < 2 ^ 63"
  shows "sint (fold (\<lambda>l t. t + l) ls (t :: i64)) = sint t + (\<Sum>l\<leftarrow>ls. sint l)"
  using assms
proof (induction ls arbitrary: t)
  case (Cons l ls)
  have "0 \<le> (\<Sum>l\<leftarrow>ls. sint l)" using Cons.prems(1) by (intro sum_list_nonneg) auto
  then have "0 \<le> sint t + sint l \<and> sint t + sint l < 2 ^ 63" using Cons.prems by simp
  then have "sint (t + l) = sint t + sint l"
    unfolding sint_word_add by (intro signed_take_bit_int_eq_self) simp_all
  with Cons.IH [of "t + l"] Cons.prems show ?case by (simp add: add.assoc)
qed simp

lemma mean_bounds:
  assumes "ls \<noteq> []" "\<forall>l \<in> set ls. a \<le> (l :: int) \<and> l \<le> b"
  shows "a \<le> sum_list ls div int (length ls) \<and> sum_list ls div int (length ls) \<le> b"
proof -
  have "int (length ls) * a \<le> sum_list ls \<and> sum_list ls \<le> int (length ls) * b"
    using assms(2) by (induction ls) (auto simp: algebra_simps)
  moreover have "0 < int (length ls)" using assms(1) by simp
  ultimately show ?thesis
    by (metis div_mult_self1_is_m mult.commute nonzero_mult_div_cancel_left zdiv_mono1 less_irrefl)
qed

text \<open>The average of the report, as long as nothing overflows.\<close>

lemma average_exact:
  assumes "ls \<noteq> []" "\<forall>l \<in> set ls. 0 \<le> sint l \<and> a \<le> sint l \<and> sint l \<le> b" "(\<Sum>l\<leftarrow>ls. sint l) < 2 ^ 63" "b < 2 ^ 63"
  shows "sint (word_of_int (quot (sint (fold (\<lambda>l t. t + l) (sorted_latencies ls) 0)) (int (length ls))) :: i64) = (\<Sum>l\<leftarrow>ls. sint l) div int (length ls)"
    "a \<le> (\<Sum>l\<leftarrow>ls. sint l) div int (length ls)" "(\<Sum>l\<leftarrow>ls. sint l) div int (length ls) \<le> b"
proof -
  have sum: "(\<Sum>l\<leftarrow>sorted_latencies ls. sint l) = (\<Sum>l\<leftarrow>ls. sint l)"
    by (metis mset_map sorted_latencies_facts(3) sum_mset_sum_list)
  have total: "sint (fold (\<lambda>l t. t + l) (sorted_latencies ls) 0) = (\<Sum>l\<leftarrow>ls. sint l)"
    using total_exact [of "sorted_latencies ls" 0] assms(2,3) sum by simp
  have nonneg: "0 \<le> (\<Sum>l\<leftarrow>ls. sint l)" using assms(2) by (intro sum_list_nonneg) auto
  show m: "a \<le> (\<Sum>l\<leftarrow>ls. sint l) div int (length ls)" "(\<Sum>l\<leftarrow>ls. sint l) div int (length ls) \<le> b"
    using mean_bounds [of "map sint ls" a b] assms(1,2) by auto
  have "quot (\<Sum>l\<leftarrow>ls. sint l) (int (length ls)) = (\<Sum>l\<leftarrow>ls. sint l) div int (length ls)"
    using nonneg assms(1) by (auto simp: quot_def sgn_if)
  moreover have "0 \<le> (\<Sum>l\<leftarrow>ls. sint l) div int (length ls)" using nonneg by (simp add: div_int_pos_iff)
  ultimately show "sint (word_of_int (quot (sint (fold (\<lambda>l t. t + l) (sorted_latencies ls) 0)) (int (length ls))) :: i64)
      = (\<Sum>l\<leftarrow>ls. sint l) div int (length ls)"
    using m(2) assms(4) unfolding total by (simp add: signed_of_int signed_take_bit_int_eq_self)
qed

lemma byte_step: "push_bit 8 (drop_bit (k + 8) w) OR ucast (ucast (drop_bit k w) :: 8 word) = drop_bit k (w :: u64)"
proof (rule bit_word_eqI)
  fix n :: nat
  assume "n < LENGTH(64)"
  then show "bit (push_bit 8 (drop_bit (k + 8) w) OR ucast (ucast (drop_bit k w) :: 8 word)) n \<longleftrightarrow> bit (drop_bit k w) n"
    by (cases "n < 8") (auto simp: bit_or_iff bit_push_bit_iff bit_ucast_iff bit_drop_bit_eq)
qed

lemma get_put_uint64: "get_uint64 (put_uint64 w) = w"
proof -
  have bytes: "put_uint64 w = [ucast (drop_bit 56 w), ucast (drop_bit 48 w), ucast (drop_bit 40 w), ucast (drop_bit 32 w),
      ucast (drop_bit 24 w), ucast (drop_bit 16 w), ucast (drop_bit 8 w), ucast (drop_bit 0 w)]"
    by (simp add: put_uint64_def upt_conv_Cons)
  have "drop_bit 64 w = 0" by (rule bit_word_eqI) (simp add: bit_drop_bit_eq bit_imp_le_length)
  note step = byte_step [of 56 w, simplified this] byte_step [of 48 w] byte_step [of 40 w] byte_step [of 32 w] byte_step [of 24 w]
    byte_step [of 16 w] byte_step [of 8 w] byte_step [of 0 w]
  show ?thesis unfolding get_uint64_def bytes using step by simp
qed

section \<open>Properties\<close>

lemma percentile_index_floor: "percentile_index q n = nat \<lfloor>of_nat n * q\<rfloor> - 1"
proof -
  have "\<lfloor>of_nat n * q - 1\<rfloor> = \<lfloor>of_nat n * q\<rfloor> - 1" by simp
  then show ?thesis by (cases "0 \<le> of_nat n * q - 1") (simp_all add: percentile_index_def max_def nat_diff_distrib floor_less_iff)
qed

text \<open>
  C40. The report. Its percentiles are measured latencies in the order minimum, P50, P95, P99, maximum. With \<open>n\<close> measurements the percentile of
  the share \<open>q\<close> is the one at the place \<open>n * q\<close>, rounded down, in the order of their size, or the smallest one when that is 0, so that this many
  measurements are not above it. When \<open>n * q\<close> is not whole that is less than the share: P50 of three measurements is the
  smallest. If no measured latency is negative and their sum fits into 64 bits, the average is their mean rounded down and lies between minimum and maximum.
\<close>

theorem Report_bounds:
  assumes "Report mc = Some r"
  defines "ls \<equiv> latencies mc"
  shows "sint (r_min r) \<le> sint (r_p50 r) \<and> sint (r_p50 r) \<le> sint (r_p95 r) \<and> sint (r_p95 r) \<le> sint (r_p99 r) \<and> sint (r_p99 r) \<le> sint (r_max r)
    \<and> {r_min r, r_p50 r, r_p95 r, r_p99 r, r_max r} \<subseteq> set ls \<and> (\<forall>l \<in> set ls. sint (r_min r) \<le> sint l \<and> sint l \<le> sint (r_max r))
    \<and> (\<forall>(q, v) \<in> {(50 / 100, r_p50 r), (95 / 100, r_p95 r), (99 / 100, r_p99 r)}.
        v = sorted_latencies ls ! (nat \<lfloor>of_nat (length ls) * (q :: rat)\<rfloor> - 1)
        \<and> nat \<lfloor>of_nat (length ls) * q\<rfloor> \<le> length (filter (\<lambda>l. sint l \<le> sint v) ls))
    \<and> ((\<forall>l \<in> set ls. 0 \<le> sint l) \<and> (\<Sum>l\<leftarrow>ls. sint l) < 2 ^ 63 \<longrightarrow>
        sint (r_avg r) = (\<Sum>l\<leftarrow>ls. sint l) div int (length ls) \<and> sint (r_min r) \<le> sint (r_avg r) \<and> sint (r_avg r) \<le> sint (r_max r))"
proof -
  let ?n = "length ls" and ?s = "sorted_latencies ls"
  have n: "0 < ?n" and r: "r_min r = ?s ! 0" "r_max r = ?s ! (?n - 1)" "r_p50 r = ?s ! percentile_index (50 / 100) ?n"
    "r_p95 r = ?s ! percentile_index (95 / 100) ?n" "r_p99 r = ?s ! percentile_index (99 / 100) ?n"
    "r_avg r = word_of_int (quot (sint (fold (\<lambda>l t. t + l) ?s 0)) (int ?n))"
    using assms(1) unfolding ls_def by (auto simp: Report_def Let_def split: if_splits)
  note idx = percentile_index_less [OF n]
  have order: "percentile_index (50 / 100) ?n \<le> percentile_index (95 / 100) ?n" "percentile_index (95 / 100) ?n \<le> percentile_index (99 / 100) ?n"
    by (rule percentile_index_mono; simp)+
  have mem: "?s ! i \<in> set ls" if "i < ?n" for i using that nth_mem [of i ?s] by simp
  have all: "sint (r_min r) \<le> sint l \<and> sint l \<le> sint (r_max r)" if "l \<in> set ls" for l
  proof -
    from that have "l \<in> set ?s" by simp
    then obtain i where "i < ?n" "l = ?s ! i" by (metis in_set_conv_nth sorted_latencies_facts(1))
    then show ?thesis using sorted_latencies_mono [of 0 i ls] sorted_latencies_mono [of i "?n - 1" ls] by (simp add: r)
  qed
  have share: "nat \<lfloor>of_nat ?n * q\<rfloor> \<le> length (filter (\<lambda>l. sint l \<le> sint (?s ! percentile_index q ?n)) ls)" if "0 \<le> q" "q < 1" for q :: rat
    using percentile_index_share [OF that(1), of ?n] share_below [OF idx [OF that(2)]] by linarith
  have avg: "sint (r_avg r) = (\<Sum>l\<leftarrow>ls. sint l) div int ?n \<and> sint (r_min r) \<le> sint (r_avg r) \<and> sint (r_avg r) \<le> sint (r_max r)"
    if pos: "\<forall>l \<in> set ls. 0 \<le> sint l" and fits: "(\<Sum>l\<leftarrow>ls. sint l) < 2 ^ 63"
  proof -
    have "\<forall>l \<in> set ls. 0 \<le> sint l \<and> sint (r_min r) \<le> sint l \<and> sint l \<le> sint (r_max r)" using pos all by blast
    moreover have "ls \<noteq> []" "sint (r_max r) < 2 ^ 63" using n sint_less [of "r_max r"] by auto
    ultimately show ?thesis using average_exact [of ls "sint (r_min r)" "sint (r_max r)"] fits unfolding r(6) by presburger
  qed
  have in_ls: "r_min r \<in> set ls" "r_p50 r \<in> set ls" "r_p95 r \<in> set ls" "r_p99 r \<in> set ls" "r_max r \<in> set ls"
    unfolding r using n by (intro mem idx; simp)+
  have mono: "sint (r_p50 r) \<le> sint (r_p95 r)" "sint (r_p95 r) \<le> sint (r_p99 r)"
    unfolding r by (rule sorted_latencies_mono [OF order(1) idx], simp) (rule sorted_latencies_mono [OF order(2) idx], simp)
  have shares: "nat \<lfloor>of_nat ?n * (50 / 100 :: rat)\<rfloor> \<le> length (filter (\<lambda>l. sint l \<le> sint (r_p50 r)) ls)"
    "nat \<lfloor>of_nat ?n * (95 / 100 :: rat)\<rfloor> \<le> length (filter (\<lambda>l. sint l \<le> sint (r_p95 r)) ls)"
    "nat \<lfloor>of_nat ?n * (99 / 100 :: rat)\<rfloor> \<le> length (filter (\<lambda>l. sint l \<le> sint (r_p99 r)) ls)"
    unfolding r by (intro share; simp)+
  have places: "r_p50 r = ?s ! (nat \<lfloor>of_nat ?n * (50 / 100 :: rat)\<rfloor> - 1)" "r_p95 r = ?s ! (nat \<lfloor>of_nat ?n * (95 / 100 :: rat)\<rfloor> - 1)"
    "r_p99 r = ?s ! (nat \<lfloor>of_nat ?n * (99 / 100 :: rat)\<rfloor> - 1)"
    unfolding r percentile_index_floor by (rule refl)+
  show ?thesis
    using all [OF in_ls(2)] all [OF in_ls(4)] all in_ls mono shares places avg by (simp only: ball_simps insert_subset split_conv) blast
qed

definition ex_metrics :: metrics where
  "ex_metrics = metrics_Add 7 (metrics_Add 3 (metrics_Add 5 (NewMetricsCollector '''')))"

theorem Report_bounds_witness:
  "\<exists>r. Report ex_metrics = Some r \<and> sint (r_p50 r) \<le> sint (r_p95 r) \<and> r_p50 r = sorted_latencies [5, 3, 7] ! 0 \<and> sint (r_avg r) = 5"
proof -
  obtain r where r: "Report ex_metrics = Some r" by (simp add: Report_def ex_metrics_def metrics_Add_def NewMetricsCollector_def Let_def)
  let ?ls = "[5 :: i64, 3, 7]"
  have l: "latencies ex_metrics = ?ls" by (simp add: ex_metrics_def metrics_Add_def NewMetricsCollector_def)
  note b = Report_bounds [OF r, unfolded l]
  note shares = b [THEN conjunct2, THEN conjunct2, THEN conjunct2, THEN conjunct2, THEN conjunct2, THEN conjunct2, THEN conjunct1]
    and avg = b [THEN conjunct2, THEN conjunct2, THEN conjunct2, THEN conjunct2, THEN conjunct2, THEN conjunct2, THEN conjunct2]
  from bspec [OF shares, of "(50 / 100, r_p50 r)"]
  have "r_p50 r = sorted_latencies ?ls ! (nat \<lfloor>of_nat (length ?ls) * (50 / 100 :: rat)\<rfloor> - 1)"
    by (simp only: split_conv insert_iff simp_thms)
  moreover have "\<lfloor>of_nat (length ?ls) * (50 / 100 :: rat)\<rfloor> = 1" by (simp add: floor_eq_iff)
  then have "nat \<lfloor>of_nat (length ?ls) * (50 / 100 :: rat)\<rfloor> - 1 = 0" by (simp only:)
  ultimately have p: "r_p50 r = sorted_latencies ?ls ! 0" by (simp only:)
  have "sint (r_avg r) = 5" using avg by simp
  with r b [THEN conjunct2, THEN conjunct1] p show ?thesis by blast
qed

text \<open>
  What is measured is the time between publication and arrival: the receiver reads back the stamp the publisher has written.
\<close>

lemma latency_measured:
  assumes "tick n sent i = Some ((j, data), k)" "- (2 ^ 63) \<le> sent" "sent < 2 ^ 63"
  shows "on_message now data mc = Some (metrics_Add (saturate (now - sent)) mc)"
proof -
  have "length (put_uint64 w) = 8" for w by (simp add: put_uint64_def)
  moreover have "data = put_uint64 (word_of_int sent)" using assms(1) by (simp add: tick_def split: if_splits)
  ultimately show ?thesis
    using assms(2,3) get_put_uint64 by (simp add: on_message_def signed_of_int signed_take_bit_int_eq_self)
qed

text \<open>The peers publish in turn.\<close>

lemma ticks_rotate:
  assumes "i < n"
  shows "ticks n ts i = Some (map (\<lambda>k. ((i + k) mod n, put_uint64 (word_of_int (ts ! k)))) [0..<length ts])"
  using assms
proof (induction ts arbitrary: i)
  case (Cons t ts)
  then have "(i + 1) mod n < n" by simp
  from Cons.IH [OF this] Cons.prems show ?case
    by (simp add: tick_def upt_conv_Cons map_Suc_upt [symmetric] mod_simps del: upt_Suc)
qed simp

text \<open>If the links of the ring are up, every peer reaches every other one.\<close>

lemma ring_connects:
  fixes n :: nat
  assumes "n > 0" "\<forall>i < n. (i, (i + 1) mod n) \<in> L" "a < n" "b < n"
  shows "(a, b) \<in> L\<^sup>*"
proof -
  have "(a, (a + k) mod n) \<in> L\<^sup>*" for k
  proof (induction k)
    case (Suc k)
    have "((a + k) mod n, ((a + k) mod n + 1) mod n) \<in> L" using assms(1,2) by simp
    then have "((a + k) mod n, (a + Suc k) mod n) \<in> L" by (simp add: mod_simps)
    with Suc show ?case by (rule rtrancl_into_rtrancl)
  qed (use assms(3) in simp)
  from this [of "n - a + b"] assms(3,4) show ?thesis by simp
qed

lemma ring_linked: "i < n \<Longrightarrow> (i, (i + 1) mod n) \<in> set (link_list n rnd)"
  by (auto simp: link_list_def peer_links_def Let_def)

end
