(* ===== verification/NetScenario.thy ===== *)
theory NetScenario
  imports ControlStream Gossip
begin

text \<open>
  The scenario peer, \<^verbatim>\<open>peer_service/tools/net_scenario/main.go\<close>: a peer without player and queue that takes part in a session. It
  speaks the join protocol in both roles, joins the three topics of its session and publishes chat messages from a prompt.
  libp2p, pubsub and protobuf are arguments; \<^verbatim>\<open>log.Fatalf\<close> and \<^verbatim>\<open>os.Exit\<close> end the process, which is the left summand.
\<close>

section \<open>The role\<close>

definition equal_fold :: "string \<Rightarrow> string \<Rightarrow> bool" where
  "equal_fold a b \<longleftrightarrow> to_lower a = to_lower b"

text \<open>The name of the role in its own spelling.\<close>

definition validate_role :: "string \<Rightarrow> string + string" where
  "validate_role roleF =
     (case List.find (\<lambda>r. equal_fold (role_name r) roleF) (GetDefinitions NewRoleManager) of
        None \<Rightarrow> Inl (''Invalid role: '' @ roleF @ ''. Must be one of: Admin, Moderator, Streamer, Viewer'')
      | Some r \<Rightarrow> Inr (role_name r))"

section \<open>The peer\<close>

record scenario_peer =
  sp_ID :: peer_id
  sp_session :: string
  sp_username :: string
  sp_role :: string
  sp_chat :: "string option"
  sp_ctrl :: "string option"
  sp_video :: "string option"
  sp_clk :: hlc
  sp_published :: "(string \<times> server_msg) list"
  sp_running :: bool

text \<open>The addresses of \<^verbatim>\<open>-connect\<close> that can be parsed, in order.\<close>

definition connect_targets :: "(string \<Rightarrow> addr_info option) \<Rightarrow> string \<Rightarrow> addr_info list" where
  "connect_targets parse connectF = (if connectF = '''' then [] else List.map_filter parse (split_on (CHR '','') connectF))"

section \<open>The join protocol\<close>

text \<open>The host's side: the first read of at most 1024 bytes, decoded; \<open>None\<close> if nothing is answered.\<close>

definition scenario_response :: "string \<Rightarrow> auth_request \<Rightarrow> join_response" where
  "scenario_response session req =
     \<lparr>jr_session_id = ar_session_id req, jr_assigned_roles = [], jr_snapshot = [], jr_session_name = None,
      jr_error = (if ar_session_id req \<noteq> session
                  then Some (''Session mismatch. I am in '' @ session @ '', you requested '' @ ar_session_id req) else None)\<rparr>"

definition scenario_auth :: "(bytes \<Rightarrow> auth_request option) \<Rightarrow> string \<Rightarrow> exchange \<Rightarrow> join_response option" where
  "scenario_auth unmarshal session x =
     (case read_buf 1024 x of
        (b, e) \<Rightarrow>
          (if e \<noteq> NoErr then None
           else (case unmarshal b of None \<Rightarrow> None | Some req \<Rightarrow> Some (scenario_response session req))))"

datatype handshake = Skipped | GivenUp | Refused string | Joined string

text \<open>
  The joiner's side, with the first connected peer. \<open>x\<close> is its use of the stream; the answer is read to its end, so that \<^verbatim>\<open>EOF\<close> is
  no error.
\<close>

definition performAuthHandshake ::
  "(bytes \<Rightarrow> string + join_response) \<Rightarrow> peer_id list \<Rightarrow> (peer_id \<Rightarrow> auth_request \<Rightarrow> exchange) \<Rightarrow> scenario_peer \<Rightarrow> handshake" where
  "performAuthHandshake unmarshal peers talk_to sp =
     (case peers of
        [] \<Rightarrow> Skipped
      | target # _ \<Rightarrow>
          (let x = talk_to target \<lparr>ar_session_id = sp_session sp, ar_username = sp_username sp\<rparr>
           in if x_open x \<noteq> None then GivenUp
              else if x_write x \<noteq> None then GivenUp
              else
                (case x_err x of
                   IoErr e \<Rightarrow> GivenUp
                 | _ \<Rightarrow>
                     (case unmarshal (x_bytes x) of
                        Inl e \<Rightarrow> GivenUp
                      | Inr resp \<Rightarrow> (case jr_error resp of Some e \<Rightarrow> Refused e | None \<Rightarrow> Joined (jr_session_id resp))))))"

section \<open>Topics\<close>

text \<open>The three joins and subscriptions in the order of the code; the first failure ends the process.\<close>

definition joinTopics :: "(string \<Rightarrow> string option) \<Rightarrow> (string \<Rightarrow> string option) \<Rightarrow> scenario_peer \<Rightarrow> string + scenario_peer" where
  "joinTopics join_err sub_err sp =
     (let chat = ''/p2ptogether/chat/'' @ sp_session sp; ctrl = ''/p2ptogether/control/'' @ sp_session sp;
          video = ''/p2ptogether/video/'' @ sp_session sp
      in (case join_err chat of Some e \<Rightarrow> Inl (''Join chat failed: '' @ e)
          | None \<Rightarrow> (case sub_err chat of Some e \<Rightarrow> Inl (''Sub chat failed: '' @ e)
          | None \<Rightarrow> (case join_err ctrl of Some e \<Rightarrow> Inl (''Join ctrl failed: '' @ e)
          | None \<Rightarrow> (case sub_err ctrl of Some e \<Rightarrow> Inl (''Sub ctrl failed: '' @ e)
          | None \<Rightarrow> (case join_err video of Some e \<Rightarrow> Inl (''Join video failed: '' @ e)
          | None \<Rightarrow> (case sub_err video of Some e \<Rightarrow> Inl (''Sub video failed: '' @ e)
          | None \<Rightarrow> Inr (sp\<lparr>sp_chat := Some chat, sp_ctrl := Some ctrl, sp_video := Some video\<rparr>))))))))"

text \<open>What the three readers log for one message; \<open>None\<close> is a message that cannot be decoded.\<close>

definition chat_log :: "string \<Rightarrow> server_msg option \<Rightarrow> string" where
  "chat_log raw m =
     (case m of
        Some (ChatMsg c) \<Rightarrow> ''[CHAT] '' @ cm_sender c @ '': '' @ cm_text c
      | Some _ \<Rightarrow> ''[PUB] Received other msg on ChatTopic''
      | None \<Rightarrow> ''[PUB] Received raw/unknown on ChatTopic: '' @ raw)"

datatype ctrl_note = RolesOf string "string list" | OtherUpdate

definition ctrl_log :: "server_msg option \<Rightarrow> ctrl_note option" where
  "ctrl_log m =
     (case m of
        None \<Rightarrow> None
      | Some (PeerRoleAssignment a) \<Rightarrow> Some (RolesOf (pra_peer_id a) (pra_role_names a))
      | Some _ \<Rightarrow> Some OtherUpdate)"

datatype video_note = SegmentNote u32 nat float64 | UnknownData nat

definition video_log :: "nat \<Rightarrow> video_segment_gossip option \<Rightarrow> video_note" where
  "video_log len m =
     (case m of Some s \<Rightarrow> SegmentNote (vs_sequence s) (length (vs_data s)) (vs_duration s) | None \<Rightarrow> UnknownData len)"

section \<open>The prompt\<close>

text \<open>\<^verbatim>\<open>strings.Fields\<close>.\<close>

function fields :: "string \<Rightarrow> string list" where
  "fields s =
     (let t = dropWhile is_space s
      in if t = [] then [] else takeWhile (\<lambda>c. \<not> is_space c) t # fields (dropWhile (\<lambda>c. \<not> is_space c) t))"
  by pat_completeness auto
termination
proof (relation "measure length", goal_cases)
  case (2 s t)
  then obtain c r where "t = c # r" "\<not> is_space c" by (cases t) (metis dropWhile_eq_Cons_conv, metis dropWhile_eq_Cons_conv)
  then have "length (dropWhile (\<lambda>c. \<not> is_space c) t) < length t" by (simp add: le_imp_less_Suc length_dropWhile_le)
  also have "\<dots> \<le> length s" using 2 by (simp add: length_dropWhile_le)
  finally show ?case by simp
qed simp

declare fields.simps [simp del]

fun unwords :: "string list \<Rightarrow> string" where
  "unwords [] = ''''"
| "unwords [w] = w"
| "unwords (w # ws) = w @ '' '' @ unwords ws"

text \<open>One line: what is printed, and the peer afterwards. \<open>nano\<close> is the clock, \<open>pub_ok\<close> whether the publication succeeds.\<close>

definition prompt_line :: "codec \<Rightarrow> nat \<Rightarrow> bool \<Rightarrow> string \<Rightarrow> scenario_peer \<Rightarrow> string option \<times> scenario_peer" where
  "prompt_line K nano pub_ok line sp =
     (case fields line of
        [] \<Rightarrow> (None, sp)
      | cmd # args \<Rightarrow>
          (if cmd = ''chat'' then
             (if args = [] then (Some ''Usage: chat <message>'', sp)
              else
                (let (t, c) = GetCurrentHLC (sp_clk sp);
                     msg = ChatMsg \<lparr>cm_message_id = dec nano, cm_sender = pid_string K (sp_ID sp), cm_text = unwords args,
                                    cm_hlc_ts = t, cm_reply_to = ''''\<rparr>
                 in (None, sp\<lparr>sp_clk := c,
                       sp_published := (case sp_chat sp of
                           Some topic \<Rightarrow> if pub_ok then sp_published sp @ [(topic, msg)] else sp_published sp
                         | None \<Rightarrow> sp_published sp)\<rparr>)))
           else if cmd = ''disconnect'' \<or> cmd = ''q'' \<or> cmd = ''quit'' then (None, sp\<lparr>sp_running := False\<rparr>)
           else (Some ''Unknown command'', sp)))"

fun prompt :: "codec \<Rightarrow> (nat \<times> bool \<times> string) list \<Rightarrow> scenario_peer \<Rightarrow> string list \<times> scenario_peer" where
  "prompt K [] sp = ([], sp)"
| "prompt K ((nano, ok, line) # ls) sp =
     (let (o1, sp1) = prompt_line K nano ok line sp
      in if \<not> sp_running sp1 then ((case o1 of None \<Rightarrow> [] | Some t \<Rightarrow> [t]), sp1)
         else (let (os, sp2) = prompt K ls sp1 in ((case o1 of None \<Rightarrow> [] | Some t \<Rightarrow> [t]) @ os, sp2)))"

text \<open>
  \<^verbatim>\<open>main\<close>: the role, the handshake unless the session is created, the topics and the prompt. Only a refusal stops a peer that could not be admitted.
\<close>

definition scenario_main ::
  "codec \<Rightarrow> (bytes \<Rightarrow> string + join_response) \<Rightarrow> peer_id list \<Rightarrow> (peer_id \<Rightarrow> auth_request \<Rightarrow> exchange) \<Rightarrow> (string \<Rightarrow> string option)
    \<Rightarrow> (string \<Rightarrow> string option) \<Rightarrow> bool \<Rightarrow> string \<Rightarrow> (nat \<times> bool \<times> string) list \<Rightarrow> scenario_peer \<Rightarrow> string + string list \<times> scenario_peer" where
  "scenario_main K unmarshal peers talk_to join_err sub_err createF roleF ls sp =
     (case validate_role roleF of
        Inl e \<Rightarrow> Inl e
      | Inr role \<Rightarrow>
          (let sp1 = sp\<lparr>sp_role := role\<rparr>
           in (case (if createF then Skipped else performAuthHandshake unmarshal peers talk_to sp1) of
                 Refused e \<Rightarrow> Inl (''Auth Handshake REFUSED: '' @ e)
               | _ \<Rightarrow> (case joinTopics join_err sub_err sp1 of Inl e \<Rightarrow> Inl e | Inr sp2 \<Rightarrow> Inr (prompt K ls sp2)))))"

section \<open>Lemmas\<close>

definition words_ok :: "string list \<Rightarrow> bool" where
  "words_ok ws \<longleftrightarrow> list_all (\<lambda>w. w \<noteq> [] \<and> list_all (\<lambda>c. \<not> is_space c) w) ws"

lemma is_space_blank: "is_space (CHR '' '')"
  by (simp add: is_space_def ascii_code_def)

lemma takeWhile_word: "list_all P w \<Longrightarrow> s = [] \<or> \<not> P (hd s) \<Longrightarrow> takeWhile P (w @ s) = w \<and> dropWhile P (w @ s) = s"
  by (induction w) (cases s; auto)+

lemma fields_word:
  assumes "w \<noteq> []" "list_all (\<lambda>c. \<not> is_space c) w"
  shows "fields (w @ CHR '' '' # s) = w # fields s" "fields w = [w]"
proof -
  have d: "dropWhile is_space (w @ s) = w @ s" for s using assms by (cases w) auto
  have "fields (CHR '' '' # s) = fields s" using is_space_blank by (simp add: fields.simps [of "CHR '' '' # s"] fields.simps [of s])
  then show "fields (w @ CHR '' '' # s) = w # fields s"
    using takeWhile_word [OF assms(2), of "CHR '' '' # s"] is_space_blank assms(1)
    by (simp add: fields.simps [of "w @ _"] d [of "_ # _"])
  have e: "dropWhile (\<lambda>c. \<not> is_space c) w = []" "takeWhile (\<lambda>c. \<not> is_space c) w = w"
    using takeWhile_word [OF assms(2), of "[]"] by simp_all
  have "fields (dropWhile (\<lambda>c. \<not> is_space c) w) = []" unfolding e by (simp add: fields.simps [of "[]"])
  then show "fields w = [w]" using d [of "[]"] assms(1) e(2) by (simp add: fields.simps [of w])
qed

lemma fields_unwords: "words_ok ws \<Longrightarrow> fields (unwords ws) = ws"
proof (induction ws rule: unwords.induct)
  case 1
  show ?case by (simp add: fields.simps)
qed (simp_all add: words_ok_def fields_word)

lemma chat_word: "''chat'' \<noteq> [] \<and> list_all (\<lambda>c. \<not> is_space c) ''chat''"
  by code_simp

lemma join_names:
  "joinTopics je se sp = Inr sp' \<Longrightarrow> sp' = sp\<lparr>sp_chat := Some (chat_name (sp_session sp)), sp_ctrl := Some (ctrl_name (sp_session sp)),
     sp_video := Some (video_name (sp_session sp))\<rparr>"
  by (auto simp: joinTopics_def Let_def chat_name_def ctrl_name_def video_name_def split: option.splits)

text \<open>The handshake with a service ends as the administrator has decided, if the encoding of its answer can be read back.\<close>

definition service_exchange :: "env \<Rightarrow> (join_response \<Rightarrow> bytes) \<Rightarrow> peer_id \<Rightarrow> peer \<Rightarrow> auth_request \<Rightarrow> exchange" where
  "service_exchange E marshal remote p r =
     \<lparr>x_open = None, x_marshal = None, x_write = None,
      x_bytes = (case fst (handleAuthStream E remote (Some r) p) of None \<Rightarrow> [] | Some resp \<Rightarrow> marshal resp), x_err = EOF\<rparr>"

lemma handshake_with_service:
  assumes "\<And>r. unmarshal (marshal r) = Inr r"
    "fst (handleAuthStream E (sp_ID sp) (Some \<lparr>ar_session_id = sp_session sp, ar_username = sp_username sp\<rparr>) p) = Some resp"
  shows "performAuthHandshake unmarshal (a # as) (\<lambda>_. service_exchange E marshal (sp_ID sp) p) sp
    = (case jr_error resp of None \<Rightarrow> Joined (jr_session_id resp) | Some e \<Rightarrow> Refused e)"
  using assms by (simp add: performAuthHandshake_def service_exchange_def split: option.split)

text \<open>An administrator that closes the stream without an answer is taken for one that admits, since no bytes decode to an empty message.\<close>

lemma handshake_without_answer:
  assumes "x_open (talk_to a \<lparr>ar_session_id = sp_session sp, ar_username = sp_username sp\<rparr>) = None"
    "x_write (talk_to a \<lparr>ar_session_id = sp_session sp, ar_username = sp_username sp\<rparr>) = None"
    "x_bytes (talk_to a \<lparr>ar_session_id = sp_session sp, ar_username = sp_username sp\<rparr>) = []"
    "x_err (talk_to a \<lparr>ar_session_id = sp_session sp, ar_username = sp_username sp\<rparr>) = EOF"
    "unmarshal [] = Inr \<lparr>jr_session_id = '''', jr_assigned_roles = [], jr_snapshot = [], jr_session_name = None, jr_error = None\<rparr>"
  shows "performAuthHandshake unmarshal (a # as) talk_to sp = Joined ''''"
  using assms by (simp add: performAuthHandshake_def Let_def)

text \<open>A peer that could not even reach the administrator takes part in the session all the same.\<close>

lemma unadmitted_peer_joins:
  assumes "validate_role roleF = Inr role" "\<And>r. x_open (talk_to a r) = Some e"
  shows "scenario_main K unmarshal (a # as) talk_to (\<lambda>_. None) (\<lambda>_. None) False roleF [] sp = Inr ([], sp\<lparr>sp_role := role,
    sp_chat := Some (chat_name (sp_session sp)), sp_ctrl := Some (ctrl_name (sp_session sp)), sp_video := Some (video_name (sp_session sp))\<rparr>)"
  using assms by (simp add: scenario_main_def performAuthHandshake_def joinTopics_def Let_def chat_name_def ctrl_name_def video_name_def)

text \<open>A service that authorizes itself at a scenario peer is admitted exactly to the session of that peer.\<close>

lemma authorize_at_scenario_peer:
  assumes "talk N Authorize a \<lparr>ar_session_id = sid, ar_username = user\<rparr> =
      \<lparr>x_open = None, x_marshal = None, x_write = None, x_bytes = b, x_err = EOF\<rparr>"
    "resp_unmarshal N b = Inr (scenario_response session \<lparr>ar_session_id = sid, ar_username = user\<rparr>)" "b \<noteq> []" "length b \<le> 4096"
  shows "\<exists>resp. authorize E N sid user a = Inr resp \<and> jr_session_id resp = sid \<and> (jr_error resp = None \<longleftrightarrow> sid = session)"
  using assms by (auto simp: authorize_def Let_def read_buf_def scenario_response_def)

section \<open>Properties\<close>

text \<open>
  C38. A chat line typed at a scenario peer reaches the clients of every service in the session. The peer publishes it once, on the topic
  on which the services of its session listen, with its own identifier as the sender and the words as they were typed; and a service that
  receives it passes it on unchanged to every client stream that accepts it.
\<close>

theorem scenario_chat_delivered:
  assumes "joinTopics je se sp0 = Inr sp" "words_ok (w # ws)" "sp_ID sp \<noteq> ID p"
    "prompt_line (codec_of E) nano True (''chat '' @ unwords (w # ws)) sp = (out, sp')"
  shows "\<exists>m. sp_published sp' = sp_published sp @ [(chat_name (sp_session sp0), ChatMsg m)]
    \<and> cm_text m = unwords (w # ws) \<and> cm_sender m = pid_string (codec_of E) (sp_ID sp) \<and> out = None
    \<and> trace (processChatTopicMessages E (sp_ID sp) (Some (ChatMsg m)) p)
        = trace p @ map (\<lambda>s. Send s (ChatMsg m)) (fst (Broadcast (send_ok E) (hub_of p)))"
proof -
  have chat: "sp_chat sp = Some (chat_name (sp_session sp0))" using join_names [OF assms(1)] by simp
  have "fields (''chat '' @ unwords (w # ws)) = ''chat'' # w # ws"
    using fields_word(1) [of "''chat''" "unwords (w # ws)"] chat_word fields_unwords [OF assms(2)] by simp
  then show ?thesis
    using assms(3,4) chat
    by (auto simp: prompt_line_def Let_def case_prod_beta processChatTopicMessages_def hub_broadcast_def sync_hlc_def update_hlc_def)
qed

section \<open>Witnesses\<close>

definition ex_scenario_peer :: scenario_peer where
  "ex_scenario_peer = \<lparr>sp_ID = PeerID ''z'', sp_session = ''s1'', sp_username = ''zoe'', sp_role = ''Viewer'', sp_chat = None,
     sp_ctrl = None, sp_video = None, sp_clk = ex_hlc, sp_published = [], sp_running = True\<rparr>"

theorem scenario_chat_delivered_witness:
  "\<exists>sp sp' m. joinTopics (\<lambda>_. None) (\<lambda>_. None) ex_scenario_peer = Inr sp
    \<and> prompt_line (codec_of ex_env) 7 True ''chat hello world'' sp = (None, sp')
    \<and> sp_published sp' = [(''/p2ptogether/chat/s1'', ChatMsg m)] \<and> cm_text m = ''hello world''"
proof -
  obtain sp where sp: "joinTopics (\<lambda>_. None) (\<lambda>_. None) ex_scenario_peer = Inr sp" by (simp add: joinTopics_def Let_def)
  obtain out sp' where l: "prompt_line (codec_of ex_env) 7 True (''chat '' @ unwords [''hello'', ''world'']) sp = (out, sp')"
    by (cases "prompt_line (codec_of ex_env) 7 True (''chat '' @ unwords [''hello'', ''world'']) sp")
  have "words_ok [''hello'', ''world'']" by code_simp
  moreover have f: "sp_ID sp \<noteq> ID ex_admin" "sp_published sp = []"
    using join_names [OF sp] by (simp_all add: ex_scenario_peer_def ex_admin_def ID_def ex_peer_def NewNode_def)
  ultimately show ?thesis
    using scenario_chat_delivered [OF sp _ f(1) l] sp l f(2) by (auto simp: chat_name_def ex_scenario_peer_def)
qed

end
