(* ===== verification/ToolMain.thy ===== *)
theory ToolMain
  imports Host ScaleSim NetScenario
begin

text \<open>
  The \<^verbatim>\<open>main\<close> functions of the test tools around the parts that are modelled elsewhere: the start and the end of the test agent
  (\<^verbatim>\<open>tools/test_agent/main.go\<close>), how the orchestrator (\<^verbatim>\<open>tools/test_orchestrator/main.go\<close>) starts and finds its agents, a whole run of the
  simulation (\<^verbatim>\<open>tools/scale_sim/main.go\<close>) and the start of the scenario peer (\<^verbatim>\<open>tools/net_scenario/main.go\<close>). \<open>Inl\<close> is \<^verbatim>\<open>log.Fatal\<close>.
\<close>

section \<open>The agent\<close>

definition DHTRendezvous :: string where
  "DHTRendezvous = ''p2ptogether-test-agents''"

record agent_process =
  ap_agent :: agent
  ap_mdns :: bool
  ap_advertised :: "string list"
  ap_serving :: bool

text \<open>The error of \<^verbatim>\<open>setupDHT\<close>, and the rendezvous the agent advertises.\<close>

definition agent_advertise :: "dht_env \<Rightarrow> string option \<times> string list" where
  "agent_advertise H = (case agent_setupDHT H of Some e \<Rightarrow> (Some e, []) | None \<Rightarrow> (None, [DHTRendezvous]))"

definition agent_main :: "bool \<Rightarrow> bool \<Rightarrow> string \<Rightarrow> string option \<Rightarrow> dht_env \<Rightarrow> string + agent_process" where
  "agent_main noMdns useDHT guiBin mdns_err H =
     (case host_err H of
        Some e \<Rightarrow> Inl e
      | None \<Rightarrow>
          Inr \<lparr>ap_agent = \<lparr>GUIProcess = None, GUIPort = 0, DefaultBinPath = guiBin\<rparr>,
            ap_mdns = (\<not> noMdns \<and> mdns_err = None),
            ap_advertised = (if useDHT then snd (agent_advertise H) else []), ap_serving = True\<rparr>)"

text \<open>A stream of an orchestrator, and the shutdown after a signal.\<close>

definition agent_stream :: "(nat \<Rightarrow> gui_env) \<Rightarrow> string \<Rightarrow> agent_process \<Rightarrow> string \<times> agent_process" where
  "agent_stream G input s =
     (if ap_serving s then (case handleStream G input (ap_agent s) of (out, a) \<Rightarrow> (out, s\<lparr>ap_agent := a\<rparr>)) else ('''', s))"

definition agent_stop :: "agent_process \<Rightarrow> agent_process" where
  "agent_stop s = s\<lparr>ap_agent := snd (StopGUI (ap_agent s)), ap_serving := False\<rparr>"

section \<open>How the orchestrator finds agents\<close>

text \<open>An announcement over mDNS, or what one round of the background loop over the DHT gets: \<open>None\<close> is an error of \<^verbatim>\<open>FindPeers\<close>.\<close>

datatype sighting = MdnsSees addr_info | DhtAnswers "addr_info list option"

record discovery_on =
  mdns_on :: bool
  dht_on :: bool

definition orch_discovery :: "bool \<Rightarrow> bool \<Rightarrow> string option \<Rightarrow> dht_env \<Rightarrow> discovery_on" where
  "orch_discovery noMdns useDHT mdns_err H =
     \<lparr>mdns_on = (\<not> noMdns \<and> mdns_err = None), dht_on = (useDHT \<and> orch_setupDHT H = None)\<rparr>"

definition dht_round :: "codec \<Rightarrow> peer_id \<Rightarrow> addr_info list option \<Rightarrow> orchestrator \<Rightarrow> orchestrator option" where
  "dht_round K self found st = (case found of None \<Rightarrow> Some st | Some peers \<Rightarrow> discovery_round K self peers st)"

fun sighted :: "codec \<Rightarrow> peer_id \<Rightarrow> discovery_on \<Rightarrow> sighting \<Rightarrow> orchestrator \<Rightarrow> orchestrator option" where
  "sighted K self D (MdnsSees info) st = (if mdns_on D then orch_HandlePeerFound K info st else Some st)"
| "sighted K self D (DhtAnswers found) st = (if dht_on D then dht_round K self found st else Some st)"

fun sightings :: "codec \<Rightarrow> peer_id \<Rightarrow> discovery_on \<Rightarrow> sighting list \<Rightarrow> orchestrator \<Rightarrow> orchestrator option" where
  "sightings K self D [] st = Some st"
| "sightings K self D (x # xs) st = (case sighted K self D x st of None \<Rightarrow> None | Some st1 \<Rightarrow> sightings K self D xs st1)"

text \<open>The start: the scenario flag and the host. A discovery that cannot be set up is only reported.\<close>

definition orch_start :: "string \<Rightarrow> bool \<Rightarrow> bool \<Rightarrow> string option \<Rightarrow> dht_env \<Rightarrow> string + discovery_on \<times> orchestrator" where
  "orch_start scenarioFile noMdns useDHT mdns_err H =
     (if scenarioFile = '''' then Inl ''Please provide -scenario file''
      else (case host_err H of Some e \<Rightarrow> Inl e | None \<Rightarrow> Inr (orch_discovery noMdns useDHT mdns_err H, new_orchestrator)))"

section \<open>A run of the simulation\<close>

record sim_env =
  sim_host :: "nat \<Rightarrow> string option"
  sim_connect :: "nat \<Rightarrow> nat \<Rightarrow> bool"
  sim_pubsub :: "nat \<Rightarrow> string option"
  sim_join :: "nat \<Rightarrow> string option"
  sim_subscribe :: "nat \<Rightarrow> string option"

datatype sim_failure = SimFatal string | SimPanic

text \<open>The first error of a loop over the peers.\<close>

fun first_failure :: "(nat \<Rightarrow> string option) \<Rightarrow> nat list \<Rightarrow> string option" where
  "first_failure f [] = None"
| "first_failure f (i # is) = (case f i of Some e \<Rightarrow> Some e | None \<Rightarrow> first_failure f is)"

definition spawn_failure :: "sim_env \<Rightarrow> nat \<Rightarrow> string option" where
  "spawn_failure S i = map_option (\<lambda>e. ''Failed to create host '' @ dec i @ '': '' @ e) (sim_host S i)"

definition topic_failure :: "sim_env \<Rightarrow> nat \<Rightarrow> string option" where
  "topic_failure S i =
     (case sim_pubsub S i of
        Some e \<Rightarrow> Some (''Failed to create pubsub for '' @ dec i @ '': '' @ e)
      | None \<Rightarrow>
          (case sim_join S i of
             Some e \<Rightarrow> Some (''Failed to join topic '' @ dec i @ '': '' @ e)
           | None \<Rightarrow> map_option (\<lambda>e. ''Failed to subscribe '' @ dec i @ '': '' @ e) (sim_subscribe S i)))"

text \<open>The set-up: the links that came up. A negative number of peers panics when the slices are made.\<close>

definition sim_setup :: "sim_env \<Rightarrow> (nat \<Rightarrow> nat) \<Rightarrow> int \<Rightarrow> sim_failure + (nat \<times> nat) list" where
  "sim_setup S rnd numPeers =
     (if numPeers < 0 then Inl SimPanic
      else
        (let n = nat numPeers
         in (case first_failure (spawn_failure S) [0..<n] of
               Some e \<Rightarrow> Inl (SimFatal e)
             | None \<Rightarrow>
                 (case first_failure (topic_failure S) [0..<n] of
                    Some e \<Rightarrow> Inl (SimFatal e)
                  | None \<Rightarrow> Inr (filter (\<lambda>(i, j). sim_connect S i j) (link_list n rnd))))))"

text \<open>Until the timer fires: a tick of the publisher, or a message that arrives at one of the listeners.\<close>

datatype sim_event = TickAt int | Arrival int bytes

fun sim_events :: "nat \<Rightarrow> sim_event list \<Rightarrow> nat \<Rightarrow> metrics \<Rightarrow> ((nat \<times> bytes) list \<times> metrics) option" where
  "sim_events n [] pubIdx mc = Some ([], mc)"
| "sim_events n (TickAt t # es) pubIdx mc =
     (case tick n t pubIdx of
        None \<Rightarrow> None
      | Some (m, next) \<Rightarrow> map_option (\<lambda>(ms, mc1). (m # ms, mc1)) (sim_events n es next mc))"
| "sim_events n (Arrival now data # es) pubIdx mc =
     (case on_message now data mc of None \<Rightarrow> None | Some mc1 \<Rightarrow> sim_events n es pubIdx mc1)"

definition sim_main ::
  "sim_env \<Rightarrow> (nat \<Rightarrow> nat) \<Rightarrow> int \<Rightarrow> string \<Rightarrow> string option \<Rightarrow> sim_event list
    \<Rightarrow> sim_failure + (nat \<times> bytes) list \<times> report option \<times> string list option" where
  "sim_main S rnd numPeers csvFile create_err es =
     (case sim_setup S rnd numPeers of
        Inl f \<Rightarrow> Inl f
      | Inr links \<Rightarrow>
          (case sim_events (nat numPeers) es 0 (NewMetricsCollector csvFile) of
             None \<Rightarrow> Inl SimPanic
           | Some (ms, mc) \<Rightarrow> Inr (ms, Report mc, snd (SaveCSV create_err mc))))"

section \<open>The scenario peer\<close>

record scenario_env =
  se_key_err :: "string option"
  se_host_err :: "string option"
  se_pubsub_err :: "string option"
  se_id :: peer_id
  se_clock :: hlc

definition new_scenario_peer :: "scenario_env \<Rightarrow> string \<Rightarrow> string \<Rightarrow> string \<Rightarrow> scenario_peer" where
  "new_scenario_peer X sessionF nickF role =
     \<lparr>sp_ID = se_id X, sp_session = sessionF, sp_username = nickF, sp_role = role, sp_chat = None, sp_ctrl = None,
      sp_video = None, sp_clk = se_clock X, sp_published = [], sp_running = True\<rparr>"

text \<open>The set-up before the session logic, for the value of the role flag.\<close>

definition scenario_start :: "scenario_env \<Rightarrow> string \<Rightarrow> string \<Rightarrow> string \<Rightarrow> string + scenario_peer" where
  "scenario_start X sessionF nickF roleF =
     (case validate_role roleF of
        Inl e \<Rightarrow> Inl e
      | Inr role \<Rightarrow>
          (case se_key_err X of
             Some e \<Rightarrow> Inl (''Failed to gen key: '' @ e)
           | None \<Rightarrow>
               (case se_host_err X of
                  Some e \<Rightarrow> Inl (''Failed to create host: '' @ e)
                | None \<Rightarrow>
                    (case se_pubsub_err X of
                       Some e \<Rightarrow> Inl (''Failed to create gossipsub: '' @ e)
                     | None \<Rightarrow> Inr (new_scenario_peer X sessionF nickF role)))))"

section \<open>Properties\<close>

text \<open>What the mechanisms that are switched on report to \<^verbatim>\<open>HandlePeerFound\<close>.\<close>

fun reported :: "peer_id \<Rightarrow> discovery_on \<Rightarrow> sighting \<Rightarrow> addr_info list" where
  "reported self D (MdnsSees info) = (if mdns_on D then [info] else [])"
| "reported self D (DhtAnswers found) =
     (case found of None \<Rightarrow> [] | Some peers \<Rightarrow> if dht_on D then filter (\<lambda>f. ai_ID f \<noteq> self \<and> ai_ID f \<noteq> PeerID '''') peers else [])"

definition first_info :: "codec \<Rightarrow> string \<Rightarrow> addr_info option \<Rightarrow> addr_info list \<Rightarrow> addr_info option" where
  "first_info K i known fs = (case known of Some f \<Rightarrow> Some f | None \<Rightarrow> List.find (\<lambda>f. pid_string K (ai_ID f) = i) fs)"

lemma first_info_append: "first_info K i known (fs @ gs) = first_info K i (first_info K i known fs) gs"
  by (cases known) (induction fs, auto simp: first_info_def split: option.split)

lemma found_one:
  "orch_HandlePeerFound K f st = Some st' \<Longrightarrow> mget (Agents st') i = first_info K i (mget (Agents st) i) [f]"
proof -
  assume a: "orch_HandlePeerFound K f st = Some st'"
  show ?thesis
  proof (cases "mget (Agents st) (pid_string K (ai_ID f))")
    case None
    with a have "Agents st' = mput (Agents st) (pid_string K (ai_ID f)) f"
      by (simp add: orch_HandlePeerFound_def Let_def split: if_splits) (metis orchestrator.simps(1) orchestrator.surjective orchestrator.update_convs(1))
    with None show ?thesis by (simp add: first_info_def split: option.split)
  next
    case (Some g)
    with a have "st' = st" by (simp add: orch_HandlePeerFound_def Let_def)
    with Some show ?thesis by (auto simp: first_info_def split: option.split)
  qed
qed

lemma found_round:
  "discovery_round K self ps st = Some st' \<Longrightarrow>
    mget (Agents st') i = first_info K i (mget (Agents st) i) (filter (\<lambda>f. ai_ID f \<noteq> self \<and> ai_ID f \<noteq> PeerID '''') ps)"
proof (induction K self ps st rule: discovery_round.induct)
  case (2 K self f ps st)
  show ?case
  proof (cases "ai_ID f = self \<or> ai_ID f = PeerID ''''")
    case False
    note prems = 2(3)
    have l: "log_id_ok (pid_string K (ai_ID f))" using prems False by (simp split: if_splits)
    obtain st1 where st1: "orch_HandlePeerFound K f st = Some st1"
      using prems False l by (cases "orch_HandlePeerFound K f st") simp_all
    with prems False l have rest: "discovery_round K self ps st1 = Some st'" by simp
    have "mget (Agents st') i = first_info K i (mget (Agents st1) i) (filter (\<lambda>f. ai_ID f \<noteq> self \<and> ai_ID f \<noteq> PeerID '''') ps)"
      using False l st1 rest by (intro 2(2)) simp_all
    moreover have "filter (\<lambda>f. ai_ID f \<noteq> self \<and> ai_ID f \<noteq> PeerID '''') (f # ps) = [f] @ filter (\<lambda>f. ai_ID f \<noteq> self \<and> ai_ID f \<noteq> PeerID '''') ps"
      using False by simp
    ultimately show ?thesis by (simp only: first_info_append found_one [OF st1, of i])
  next
    case True
    with 2(3) have "discovery_round K self ps st = Some st'" by simp
    moreover from True have "filter (\<lambda>f. ai_ID f \<noteq> self \<and> ai_ID f \<noteq> PeerID '''') (f # ps) = filter (\<lambda>f. ai_ID f \<noteq> self \<and> ai_ID f \<noteq> PeerID '''') ps"
      by auto
    ultimately show ?thesis using 2(1) [OF True] by (simp only: refl)
  qed
qed (simp add: first_info_def split: option.split)

lemma sighted_info: "sighted K self D x st = Some st' \<Longrightarrow> mget (Agents st') i = first_info K i (mget (Agents st) i) (reported self D x)"
  by (cases x) (auto simp: found_one found_round dht_round_def first_info_def [of K i _ "[]"] split: if_splits option.splits)

text \<open>
  The agents the orchestrator knows after any sightings are exactly those that a mechanism in use has reported, except itself over the DHT, each with
  the addresses of its first report: later reports change nothing. Without a mechanism it never learns of any.
\<close>

theorem agents_found:
  assumes "sightings K self D xs st = Some st'"
  shows "mget (Agents st') i = first_info K i (mget (Agents st) i) (concat (map (reported self D) xs))
    \<and> (\<not> mdns_on D \<and> \<not> dht_on D \<longrightarrow> st' = st)"
  using assms
proof (induction xs arbitrary: st)
  case (Cons x xs)
  then obtain st1 where st1: "sighted K self D x st = Some st1" "sightings K self D xs st1 = Some st'" by (auto split: option.splits)
  have "st1 = st" if "\<not> mdns_on D \<and> \<not> dht_on D" using st1(1) that by (cases x) simp_all
  with Cons.IH [OF st1(2)] sighted_info [OF st1(1), of i] show ?case by (simp add: first_info_append)
qed (simp add: first_info_def split: option.split)

text \<open>
  The orchestrator waits for ever when both mechanisms are switched off or could not be set up, although each failure alone is a warning: whatever
  happens, it never has enough agents.
\<close>

theorem orchestrator_waits:
  assumes "orch_start scenarioFile noMdns useDHT mdns_err H = Inr (D, st)" "noMdns \<or> mdns_err \<noteq> None"
    "\<not> useDHT \<or> orch_setupDHT H \<noteq> None" "0 < expectedAgents" "sightings K self D xs st = Some st'"
  shows "orch_main priv expectedAgents C je N order file st' = None"
proof -
  have "\<not> mdns_on D" "\<not> dht_on D" "st = new_orchestrator"
    using assms(1-3) by (auto simp: orch_start_def orch_discovery_def split: if_splits option.splits)
  with agents_found [OF assms(5)] assms(4) show ?thesis
    by (simp add: orch_main_def all_found_def new_orchestrator_def)
qed

text \<open>Stopping the agent ends the GUI, whatever the orchestrator did.\<close>

lemma agent_stop_ends_gui: "GUIProcess (ap_agent (agent_stop s)) = None \<and> agent_stream G input (agent_stop s) = ('''', agent_stop s)"
  by (simp add: agent_stop_def StopGUI_def agent_stream_def)

lemma sim_events_run:
  assumes "pubIdx < n" "\<forall>now data. Arrival now data \<in> set es \<longrightarrow> 8 \<le> length data"
  shows "\<exists>ms mc'. sim_events n es pubIdx mc = Some (ms, mc')
    \<and> map fst ms = map (\<lambda>k. (pubIdx + k) mod n) [0..<length (filter (\<lambda>e. \<exists>t. e = TickAt t) es)]
    \<and> length (latencies mc') = length (latencies mc) + length (filter (\<lambda>e. \<exists>t d. e = Arrival t d) es) \<and> csvPath mc' = csvPath mc"
  using assms
proof (induction es arbitrary: pubIdx mc)
  case (Cons e es)
  show ?case
  proof (cases e)
    case (TickAt t)
    from Cons.prems(1) have less: "(pubIdx + 1) mod n < n" by simp
    obtain ms mc' where IH: "sim_events n es ((pubIdx + 1) mod n) mc = Some (ms, mc')"
      "map fst ms = map (\<lambda>k. ((pubIdx + 1) mod n + k) mod n) [0..<length (filter (\<lambda>e. \<exists>t. e = TickAt t) es)]"
      "length (latencies mc') = length (latencies mc) + length (filter (\<lambda>e. \<exists>t d. e = Arrival t d) es)" "csvPath mc' = csvPath mc"
      using Cons.IH [OF less, of mc] Cons.prems(2) by auto
    then show ?thesis
      using Cons.prems(1) TickAt by (simp add: tick_def upt_conv_Cons map_Suc_upt [symmetric] mod_simps del: upt_Suc)
  next
    case (Arrival t data)
    with Cons.prems(2) have "8 \<le> length data" by (metis list.set_intros(1))
    then obtain l where "on_message t data mc = Some (metrics_Add l mc)" by (simp add: on_message_def)
    moreover obtain ms mc' where "sim_events n es pubIdx (metrics_Add l mc) = Some (ms, mc')"
      "map fst ms = map (\<lambda>k. (pubIdx + k) mod n) [0..<length (filter (\<lambda>e. \<exists>t. e = TickAt t) es)]"
      "length (latencies mc') = length (latencies (metrics_Add l mc)) + length (filter (\<lambda>e. \<exists>t d. e = Arrival t d) es)"
      "csvPath mc' = csvPath (metrics_Add l mc)"
      using Cons.IH [OF Cons.prems(1), of "metrics_Add l mc"] Cons.prems(2) by auto
    ultimately show ?thesis using Arrival by (simp add: metrics_Add_def)
  qed
qed simp

text \<open>
  A simulation that could be set up with at least one peer runs to its end, if every message on the topic has at least the eight bytes of
  a time stamp: its peers publish in turn, and its report counts every message that arrived. Without peers the first tick ends it.
\<close>

theorem sim_run_measures:
  assumes "sim_setup S rnd numPeers = Inr links" "0 < numPeers" "\<forall>now data. Arrival now data \<in> set es \<longrightarrow> 8 \<le> length data"
  shows "\<exists>ms r csv. sim_main S rnd numPeers csvFile create_err es = Inr (ms, r, csv)
    \<and> map fst ms = map (\<lambda>k. k mod nat numPeers) [0..<length (filter (\<lambda>e. \<exists>t. e = TickAt t) es)]
    \<and> (case r of None \<Rightarrow> \<forall>now data. Arrival now data \<notin> set es
       | Some rep \<Rightarrow> r_count rep = length (filter (\<lambda>e. \<exists>t d. e = Arrival t d) es))"
proof -
  let ?mc = "NewMetricsCollector csvFile"
  have "0 < nat numPeers" using assms(2) by simp
  then obtain ms mc where run: "sim_events (nat numPeers) es 0 ?mc = Some (ms, mc)"
    "map fst ms = map (\<lambda>k. (0 + k) mod nat numPeers) [0..<length (filter (\<lambda>e. \<exists>t. e = TickAt t) es)]"
    "length (latencies mc) = length (latencies ?mc) + length (filter (\<lambda>e. \<exists>t d. e = Arrival t d) es)"
    using sim_events_run [of 0 "nat numPeers" es ?mc] assms(3) by blast
  then have l: "length (latencies mc) = length (filter (\<lambda>e. \<exists>t d. e = Arrival t d) es)" by (simp add: NewMetricsCollector_def)
  then have "case Report mc of None \<Rightarrow> \<forall>now data. Arrival now data \<notin> set es
       | Some rep \<Rightarrow> r_count rep = length (filter (\<lambda>e. \<exists>t d. e = Arrival t d) es)"
    by (auto simp: Report_def Let_def filter_empty_conv)
  with run(1,2) assms(1) show ?thesis by (simp add: sim_main_def)
qed

lemma sim_without_peers: "sim_main S rnd 0 csvFile create_err (TickAt t # es) = Inl SimPanic"
  by (simp add: sim_main_def sim_setup_def tick_def)

text \<open>The scenario peer keeps its own spelling of the role; a second validation finds the same role.\<close>

lemma scenario_start_ok:
  "scenario_start X sessionF nickF roleF = Inr sp \<longleftrightarrow> (\<exists>role. validate_role roleF = Inr role \<and> se_key_err X = None \<and> se_host_err X = None
     \<and> se_pubsub_err X = None \<and> sp = new_scenario_peer X sessionF nickF role)"
  by (auto simp: scenario_start_def split: sum.split option.split)

section \<open>Witnesses\<close>

definition ex_dht :: dht_env where
  "ex_dht = \<lparr>host_err = None, dht_err = None, bootstrap_peers = [], parse_p2p = (\<lambda>_. None), dht_connect = (\<lambda>_. False), bootstrap_err = None,
     private_addr = (\<lambda>_. False)\<rparr>"

theorem agents_found_witness:
  "mget (Agents (the (sightings plain_codec (PeerID ''me'') \<lparr>mdns_on = True, dht_on = False\<rparr>
      [MdnsSees \<lparr>ai_ID = PeerID ''0123456789abcdef'', ai_Addrs = [''x'']\<rparr>, MdnsSees \<lparr>ai_ID = PeerID ''0123456789abcdef'', ai_Addrs = [''y'']\<rparr>]
      new_orchestrator))) ''0123456789abcdef'' = Some \<lparr>ai_ID = PeerID ''0123456789abcdef'', ai_Addrs = [''x'']\<rparr>"
proof -
  let ?xs = "[MdnsSees \<lparr>ai_ID = PeerID ''0123456789abcdef'', ai_Addrs = [''x'']\<rparr>, MdnsSees \<lparr>ai_ID = PeerID ''0123456789abcdef'', ai_Addrs = [''y'']\<rparr>]"
  have "sightings plain_codec (PeerID ''me'') \<lparr>mdns_on = True, dht_on = False\<rparr> ?xs new_orchestrator
      = Some (the (sightings plain_codec (PeerID ''me'') \<lparr>mdns_on = True, dht_on = False\<rparr> ?xs new_orchestrator))"
    by (simp add: orch_HandlePeerFound_def log_id_ok_def new_orchestrator_def plain_codec_def Let_def)
  from agents_found [OF this, of "''0123456789abcdef''"] show ?thesis by (simp add: first_info_def new_orchestrator_def plain_codec_def)
qed

theorem orchestrator_waits_witness:
  "orch_main (\<lambda>_. False) 1 (\<lambda>_. \<lparr>at_connect = (\<lambda>_. None), at_stream = Inr 0, at_write = None, at_newline = None, at_reply = (\<lambda>_. Inr '''')\<rparr>)
     (\<lambda>_. '''') (\<lambda>_ _ _. \<lparr>at_connect = (\<lambda>_. None), at_stream = Inr 0, at_write = None, at_newline = None, at_reply = (\<lambda>_. Inr '''')\<rparr>) (\<lambda>_ js. js)
     (Inr '''') new_orchestrator = None"
  by (rule orchestrator_waits [of "''s.json''" False False "Some ''no interface''" ex_dht "\<lparr>mdns_on = False, dht_on = False\<rparr>" new_orchestrator 1 plain_codec "PeerID ''me''" "[DhtAnswers None]"])
    (simp_all add: orch_start_def orch_discovery_def ex_dht_def)

theorem sim_run_measures_witness:
  "\<exists>ms r csv. sim_main \<lparr>sim_host = (\<lambda>_. None), sim_connect = (\<lambda>_ _. True), sim_pubsub = (\<lambda>_. None), sim_join = (\<lambda>_. None), sim_subscribe = (\<lambda>_. None)\<rparr>
      (\<lambda>_. 0) 2 '''' None [TickAt 5, Arrival 9 (put_uint64 5), TickAt 205, TickAt 405] = Inr (ms, r, csv) \<and> map fst ms = [0, 1, 0]"
proof -
  let ?S = "\<lparr>sim_host = (\<lambda>_. None), sim_connect = (\<lambda>_ _. True), sim_pubsub = (\<lambda>_. None), sim_join = (\<lambda>_. None), sim_subscribe = (\<lambda>_. None)\<rparr>"
  have "sim_setup ?S (\<lambda>_. 0) 2 = Inr (link_list 2 (\<lambda>_. 0))"
    by (simp add: sim_setup_def spawn_failure_def topic_failure_def eval_nat_numeral upt_conv_Cons)
  moreover have "\<forall>now data. Arrival now data \<in> set [TickAt 5, Arrival 9 (put_uint64 5), TickAt 205, TickAt 405] \<longrightarrow> 8 \<le> length data"
    by (simp add: put_uint64_def)
  ultimately show ?thesis
    using sim_run_measures [of ?S "\<lambda>_. 0" 2 "link_list 2 (\<lambda>_. 0)" "[TickAt 5, Arrival 9 (put_uint64 5), TickAt 205, TickAt 405]" "''''" None]
    by (fastforce simp: upt_conv_Cons)
qed

end
