(* ===== verification/Driver.thy ===== *)
theory Driver
  imports ControlStream
begin

text \<open>
  The command line client, \<^verbatim>\<open>peer_service/tools/grpc_driver/main.go\<close>: it opens one control stream to a service, sends one message
  and, for a new session, waits for the response. Connection errors are arguments; \<^verbatim>\<open>log.Fatalf\<close> is the result \<open>Fatal\<close>.
\<close>

section \<open>The program\<close>

record driver_flags =
  df_cmd :: string
  df_session_name :: string
  df_username :: string
  df_target_peer :: string
  df_roles :: string
  df_message :: string
  df_file :: string

definition default_flags :: driver_flags where
  "default_flags = \<lparr>df_cmd = ''create-session'', df_session_name = ''test-session'', df_username = ''AdminUser'', df_target_peer = '''',
     df_roles = '''', df_message = '''', df_file = ''''\<rparr>"

text \<open>The message for a command; \<open>t\<close> is the timestamp of the driver's own clock.\<close>

definition driver_request :: "driver_flags \<Rightarrow> i64 \<Rightarrow> client_msg option" where
  "driver_request a t =
     (if df_cmd a = ''create-session'' then Some (CreateSessionRequest (Some (df_session_name a)) (Some (df_username a)))
      else if df_cmd a = ''send-chat'' then Some (ChatCmd (df_message a) t '''')
      else if df_cmd a = ''assign-role'' then
        Some (SetPeerRolesCmd (df_target_peer a) (if df_roles a \<noteq> '''' then [df_roles a] else []) t)
      else if df_cmd a = ''queue-add'' then
        Some (QueueCmd \<lparr>qc_type = APPEND, qc_file_path = df_file a, qc_index = 0, qc_hlc_ts = t\<rparr>)
      else None)"

datatype driver_result = Fatal string | Output "string list"

text \<open>The loop over the messages that arrive; the end of the list is an error of \<^verbatim>\<open>Recv\<close>.\<close>

fun await_create :: "string \<Rightarrow> server_msg list \<Rightarrow> driver_result" where
  "await_create recv_err [] = Fatal (''Stream recv error: '' @ recv_err)"
| "await_create recv_err (m # ms) =
     (case m of
        CreateSessionResponse r \<Rightarrow>
          (case cr_error r of
             Some e \<Rightarrow> Fatal (''CreateSession failed: '' @ e)
           | None \<Rightarrow> Output [''SESSION_ID:'' @ cr_session_id r, ''INVITE_CODE:'' @ cr_invite_code r])
      | _ \<Rightarrow> await_create recv_err ms)"

record driver_env =
  de_client :: "string option"
  de_stream :: "string option"
  de_send :: "string option"
  de_recv :: string

definition send_failed :: "string \<Rightarrow> string \<Rightarrow> driver_result" where
  "send_failed what e = Fatal (''Failed to send '' @ what @ '': '' @ e)"

definition run_driver :: "driver_env \<Rightarrow> driver_flags \<Rightarrow> server_msg list \<Rightarrow> driver_result" where
  "run_driver D a incoming =
     (case de_client D of
        Some e \<Rightarrow> Fatal (''Did not connect: '' @ e)
      | None \<Rightarrow>
          (case de_stream D of
             Some e \<Rightarrow> Fatal (''Error creating stream: '' @ e)
           | None \<Rightarrow>
               (if df_cmd a = ''create-session'' then
                  (case de_send D of Some e \<Rightarrow> send_failed ''CreateSessionRequest'' e | None \<Rightarrow> await_create (de_recv D) incoming)
                else if df_cmd a = ''send-chat'' then
                  (case de_send D of Some e \<Rightarrow> send_failed ''ChatCmd'' e | None \<Rightarrow> Output [''Chat sent.''])
                else if df_cmd a = ''assign-role'' then
                  (case de_send D of Some e \<Rightarrow> send_failed ''SetPeerRolesCmd'' e | None \<Rightarrow> Output [''Role assignment sent.''])
                else if df_cmd a = ''queue-add'' then
                  (case de_send D of Some e \<Rightarrow> send_failed ''QueueCmd(APPEND)'' e | None \<Rightarrow> Output [''Queue append sent.''])
                else Fatal (''Unknown command: '' @ df_cmd a))))"

section \<open>The driver and a service\<close>

text \<open>What arrives on a client stream of what a peer has sent.\<close>

fun received :: "nat \<Rightarrow> effect list \<Rightarrow> server_msg list" where
  "received cs [] = []"
| "received cs (Send s m # es) = (if s = cs then m # received cs es else received cs es)"
| "received cs (_ # es) = received cs es"

definition is_create_response :: "effect \<Rightarrow> bool" where
  "is_create_response e = (case e of Send s (CreateSessionResponse r) \<Rightarrow> True | _ \<Rightarrow> False)"

text \<open>From \<open>p\<close> to \<open>q\<close> no response to a creation is sent.\<close>

definition quiet :: "peer \<Rightarrow> peer \<Rightarrow> bool" where
  "quiet p q \<longleftrightarrow> (\<exists>es. trace q = trace p @ es \<and> list_all (\<lambda>e. \<not> is_create_response e) es)"

lemma quiet_refl: "trace q = trace p \<Longrightarrow> quiet p q"
  by (simp add: quiet_def)

lemma quiet_same [simp]: "quiet p p"
  by (simp add: quiet_refl)

lemma quiet_trans: "quiet p q \<Longrightarrow> quiet q r \<Longrightarrow> quiet p r"
  unfolding quiet_def by (metis append.assoc list_all_append)

lemma quiet_add: "trace q = trace p @ es \<Longrightarrow> list_all (\<lambda>e. \<not> is_create_response e) es \<Longrightarrow> quiet p q"
  unfolding quiet_def by blast

lemma received_append: "received cs (es @ fs) = received cs es @ received cs fs"
  by (induction cs es rule: received.induct) simp_all

lemma await_quiet:
  "list_all (\<lambda>e. \<not> is_create_response e) es \<Longrightarrow> await_create x (received cs es @ ms) = await_create x ms"
  by (induction cs es rule: received.induct) (auto simp: is_create_response_def split: server_msg.splits)

lemma quiet_send: "(\<And>r. m \<noteq> CreateSessionResponse r) \<Longrightarrow> quiet p (snd (stream_send E cs m p))"
  by (rule quiet_add [of _ _ "if send_ok E cs then [Send cs m] else []"])
    (auto simp: stream_send_def is_create_response_def split: server_msg.splits)

lemma quiet_now: "quiet p (snd (now_hlc p))"
  by (rule quiet_refl) (simp add: now_hlc_def case_prod_beta Let_def)

lemma quiet_initial: "quiet p (sendInitialState E cs p)"
proof -
  have q: "quiet p (snd (qc_Snapshot E p))" for p
    by (rule quiet_refl) (simp add: qc_Snapshot_def now_hlc_def case_prod_beta Let_def)
  have u: "(case fst (qc_Snapshot E p) of QueueUpdate u \<Rightarrow> QueueUpdate (u\<lparr>qu_hlc_ts := t\<rparr>) | m \<Rightarrow> m) \<noteq> CreateSessionResponse r" for p t r
    by (simp add: qc_Snapshot_def case_prod_beta Let_def)
  show ?thesis
    unfolding sendInitialState_def Let_def case_prod_beta
    by (auto intro!: quiet_trans [OF _ quiet_send] quiet_trans [OF _ quiet_now] quiet_trans [OF _ q] simp: u)
qed

lemma quiet_close: "quiet p (close_topic t p)"
  by (rule quiet_add [of _ _ "case t of None \<Rightarrow> [] | Some x \<Rightarrow> [CloseTopic x]"])
    (auto simp: close_topic_def is_create_response_def split: option.split)

lemma quiet_ps_join: "quiet p (snd (ps_join E x p))"
  by (rule quiet_add [of _ _ "if join_ok E x then [JoinTopic x] else []"]) (auto simp: ps_join_def is_create_response_def)

lemma quiet_node: "quiet q p \<Longrightarrow> quiet q (on_node f p)"
  by (simp add: quiet_def on_node_def)

lemma quiet_Join: "quiet p (snd (JoinSessionTopics E sid p))"
proof -
  have l: "quiet p (leave_topics p)"
    unfolding leave_topics_def
    by (auto intro!: quiet_node quiet_trans [OF _ quiet_close])
  have j: "quiet p (snd (join_topics E sid p))" for p
    unfolding join_topics_def Let_def case_prod_beta
    by (auto intro!: quiet_node quiet_trans [OF _ quiet_close] quiet_trans [OF _ quiet_ps_join])
  show ?thesis
    unfolding JoinSessionTopics_def Let_def
    using l quiet_trans [OF l j] by (auto intro!: quiet_node)
qed

lemma quiet_mdns: "quiet p (maybeStartMdns p)"
  by (rule quiet_refl) (simp add: maybeStartMdns_def)

lemma quiet_opened: "quiet p (stream_opened E cs p)"
  unfolding stream_opened_def by (rule quiet_trans [OF quiet_refl quiet_initial]) simp

lemma quiet_created:
  assumes "send_ok E cs"
  shows "\<exists>es. trace (session_created E cs s p) = trace p @ es @ [Send cs (CreateSessionResponse
      \<lparr>cr_session_id = sess_id s, cr_invite_code = InviteCode s, cr_error = None\<rparr>)] \<and> list_all (\<lambda>e. \<not> is_create_response e) es"
proof -
  let ?j = "JoinSessionTopics E (sess_id s) p"
  let ?p3 = "if fst ?j then (snd ?j)\<lparr>srv_ctrlTopic := CtrlTopic (snd ?j), srv_chatTopic := ChatTopic (snd ?j)\<rparr> else snd ?j"
  let ?p4 = "sendInitialState E cs (maybeStartMdns ?p3)"
  have "quiet p ?p3" by (rule quiet_trans [OF quiet_Join quiet_refl]) simp
  then have "quiet p ?p4" by (rule quiet_trans [OF quiet_trans [OF _ quiet_mdns] quiet_initial])
  then obtain es where es: "trace ?p4 = trace p @ es" "list_all (\<lambda>e. \<not> is_create_response e) es" unfolding quiet_def by blast
  have "session_created E cs s p = snd (stream_send E cs (CreateSessionResponse
      \<lparr>cr_session_id = sess_id s, cr_invite_code = InviteCode s, cr_error = None\<rparr>) ?p4)"
    by (simp add: session_created_def Let_def case_prod_beta)
  with es assms show ?thesis by (auto simp: stream_send_def)
qed

section \<open>Properties\<close>

text \<open>The driver against a service: it opens the stream, its message is served, and it reads what the service has sent on the stream.\<close>

definition driver_session :: "env \<Rightarrow> net_env \<Rightarrow> nat \<Rightarrow> driver_env \<Rightarrow> driver_flags \<Rightarrow> i64 \<Rightarrow> peer \<Rightarrow> (driver_result \<times> peer) option" where
  "driver_session E N cs D a t p =
     (case driver_request a t of
        None \<Rightarrow> Some (run_driver D a [], stream_opened E cs p)
      | Some m \<Rightarrow>
          map_option (\<lambda>p'. (run_driver D a (received cs (drop (length (trace p)) (trace p'))), p'))
            (client_step E N cs m (stream_opened E cs p)))"

text \<open>
  C37. Creating a session from the command line. If its messages get through, the driver prints the identifier and the invite code
  of a session that the service now holds, with the service as administrator and with the given names; or, when the identifier the
  service drew is taken, it ends with the service's error text and the sessions are unchanged.
\<close>

theorem driver_creates_session:
  fixes N :: net_env
  assumes "send_ok E cs" "df_cmd a = ''create-session''" "de_client D = None" "de_stream D = None" "de_send D = None"
  defines "sid \<equiv> fresh_uuid N"
  shows "\<exists>p'. (case GetSession sid (sm_of p) of
      None \<Rightarrow> driver_session E N cs D a t p = Some (Output [''SESSION_ID:'' @ sid, ''INVITE_CODE:'' @ sid], p')
        \<and> GetSession sid (sm_of p') = Some (created (ID p) sid (df_username a) (df_session_name a))
    | Some s \<Rightarrow> driver_session E N cs D a t p =
          Some (Fatal (''CreateSession failed: Failed to create session: session ID '' @ sid @ '' already exists (collision)''), p')
        \<and> sm_of p' = sm_of p)"
proof -
  let ?m = "CreateSessionRequest (Some (df_session_name a)) (Some (df_username a))"
  define p0 where "p0 = stream_opened E cs p"
  define q where "q = sync_hlc 0 p0"
  have q: "trace q = trace p0" "sm_of q = sm_of p" "ID q = ID p"
    by (simp_all add: q_def p0_def sync_hlc_def update_hlc_def stream_opened_def ID_def)
  obtain es0 where es0: "trace p0 = trace p @ es0" "list_all (\<lambda>e. \<not> is_create_response e) es0"
    using quiet_opened [of p E cs] unfolding p0_def quiet_def by blast
  define p' where "p' = handleCreateSession E N cs (Some (df_session_name a)) (Some (df_username a)) q"
  have sess: "driver_session E N cs D a t p = Some (await_create (de_recv D) (received cs (drop (length (trace p)) (trace p'))), p')"
    using assms(2-5) by (simp add: driver_session_def driver_request_def client_step_def describe_panics_def run_driver_def p'_def q_def p0_def)
  show ?thesis
  proof (cases "GetSession sid (sm_of p)")
    case None
    let ?s = "created (ID p) sid (df_username a) (df_session_name a)"
    let ?cs = "on_sessions (CreateSession (codec_of E) sid (ID q) (df_username a) (df_session_name a)) q"
    have c: "fst ?cs = Inr ?s" "trace (snd ?cs) = trace q" "sm_of (snd ?cs) = mput (sm_of q) sid ?s"
      using None q by (simp_all add: on_sessions_def CreateSession_def GetSession_def created_def Let_def case_prod_beta)
    have p': "p' = session_created E cs ?s (snd ?cs)"
      using c(1) by (simp add: p'_def handleCreateSession_def from_opt_def sid_def case_prod_beta split: sum.split)
    obtain es where es: "trace p' = trace (snd ?cs) @ es @ [Send cs (CreateSessionResponse \<lparr>cr_session_id = sid, cr_invite_code = sid, cr_error = None\<rparr>)]"
      "list_all (\<lambda>e. \<not> is_create_response e) es"
      using quiet_created [OF assms(1), of ?s "snd ?cs"] unfolding p' by (auto simp: created_def)
    have "sm_of p' = sm_of (snd ?cs)" unfolding p' by (simp add: session_created_def Let_def case_prod_beta)
    with None c(3) sess es es0 q(1) c(2) show ?thesis
      by (intro exI [of _ p']) (simp add: received_append await_quiet GetSession_def)
  next
    case (Some s)
    then have c: "on_sessions (CreateSession (codec_of E) sid (ID q) (df_username a) (df_session_name a)) q = (Inl (SessionCollision sid), q)"
      using q by (simp add: on_sessions_def CreateSession_def GetSession_def)
    then have "trace p' = trace p @ es0 @ [Send cs (CreateSessionResponse \<lparr>cr_session_id = '''', cr_invite_code = '''',
        cr_error = Some (''Failed to create session: session ID '' @ sid @ '' already exists (collision)'')\<rparr>)]" "sm_of p' = sm_of p"
      using assms(1) q es0(1) by (simp_all add: p'_def handleCreateSession_def from_opt_def sid_def stream_send_def)
    with Some sess es0(2) show ?thesis by (intro exI [of _ p']) (simp add: received_append await_quiet)
  qed
qed

text \<open>
  The flag \<^verbatim>\<open>-roles\<close> is documented as a comma-separated list and sent as one name. So two roles are none: as long as no role
  has a comma in its name, the service refuses the command and nobody's roles change, while the driver reports that it was sent.
\<close>

lemma comma_trim: "CHR '','' \<in> set s \<Longrightarrow> CHR '','' \<in> set (to_lower (trim_space s))"
proof -
  have d: "CHR '','' \<in> set (dropWhile is_space s)" if "CHR '','' \<in> set s" for s
    using that by (induction s) (auto simp: is_space_def ascii_code_def)
  assume "CHR '','' \<in> set s"
  then have "CHR '','' \<in> set (trim_space s)" unfolding trim_space_def by (metis d set_rev)
  moreover have "char_lower (CHR '','') = CHR '',''" by code_simp
  ultimately show ?thesis unfolding to_lower_def by (metis image_eqI set_map)
qed

theorem driver_role_list_is_refused:
  assumes "send_ok E cs" "df_cmd a = ''assign-role''" "CHR '','' \<in> set (df_roles a)" "de_client D = None" "de_stream D = None" "de_send D = None"
    "\<forall>k. mhas (definitions (rm_of p)) k \<longrightarrow> CHR '','' \<notin> set k"
  shows "\<exists>p'. driver_session E N cs D a t p = Some (Output [''Role assignment sent.''], p') \<and> rm_of p' = rm_of p"
proof -
  define p0 where "p0 = sync_hlc t (stream_opened E cs p)"
  have rm: "rm_of p0 = rm_of p" by (simp add: p0_def sync_hlc_def update_hlc_def stream_opened_def)
  have "\<not> mhas (definitions (rm_of p)) (to_lower (trim_space (df_roles a)))" using comma_trim [OF assms(3)] assms(7) by blast
  then have "SetPeerRoles K tgt [df_roles a] (rm_of p, c) = (Inl (RoleNotDefined (df_roles a)), rm_of p, c)" for K tgt c
    by (simp add: SetPeerRoles_def Let_def)
  then have "rm_of (handleSetPeerRolesCmd E (df_target_peer a) [df_roles a] (ID p0) p0) = rm_of p"
    using rm by (simp add: handleSetPeerRolesCmd_def on_roles_def Let_def)
  moreover have "df_roles a \<noteq> ''''" using assms(3) by auto
  ultimately show ?thesis using assms(2,4-6)
    by (simp add: driver_session_def driver_request_def run_driver_def client_step_def describe_panics_def p0_def)
qed

section \<open>Witnesses\<close>

definition ex_driver_env :: driver_env where
  "ex_driver_env = \<lparr>de_client = None, de_stream = None, de_send = None, de_recv = ''EOF''\<rparr>"

theorem driver_creates_session_witness:
  "\<exists>p'. driver_session ex_env ex_net 0 ex_driver_env default_flags 0 ex_fresh = Some (Output [''SESSION_ID:u1'', ''INVITE_CODE:u1''], p')
    \<and> GetSession ''u1'' (sm_of p') = Some (created (ID ex_fresh) ''u1'' ''AdminUser'' ''test-session'')"
  using driver_creates_session [where E = ex_env and cs = 0 and a = default_flags and D = ex_driver_env and N = ex_net and p = ex_fresh and t = 0]
  by (simp add: ex_env_def default_flags_def ex_driver_env_def ex_net_def ex_fresh_def ex_peer_def NewSessionManager_def GetSession_def)

theorem driver_role_list_is_refused_witness:
  "\<exists>p'. driver_session ex_env ex_net 0 ex_driver_env (default_flags\<lparr>df_cmd := ''assign-role'', df_roles := ''Streamer,Viewer''\<rparr>) 0 ex_admin =
      Some (Output [''Role assignment sent.''], p') \<and> rm_of p' = rm_of ex_admin"
proof -
  have keys: "list_all (\<lambda>(k, r). CHR '','' \<notin> set k) (definitions (rm_of ex_admin))" by code_simp
  have "\<forall>k. mhas (definitions (rm_of ex_admin)) k \<longrightarrow> CHR '','' \<notin> set k"
  proof (intro allI impI)
    fix k assume "mhas (definitions (rm_of ex_admin)) k"
    then obtain r where "mget (definitions (rm_of ex_admin)) k = Some r" by auto
    from mget_SomeD [OF this] keys show "CHR '','' \<notin> set k" unfolding list_all_iff by auto
  qed
  with driver_role_list_is_refused [of ex_env 0 "default_flags\<lparr>df_cmd := ''assign-role'', df_roles := ''Streamer,Viewer''\<rparr>" ex_driver_env ex_admin ex_net 0]
  show ?thesis by (simp add: ex_env_def ex_driver_env_def)
qed

end
