(* ===== verification/Spec2Isabelle.thy ===== *)
theory Spec2Isabelle
  imports Hlc RoleReplication Sessions QueueFlow NodeTopics Server Admission Gossip Discovery ControlStream
    Service Subscriptions Hls Encoder Delivery Replication Network Startup ToolMain Driver
begin

text \<open>
  Verification of the peer service of P2PTogether, the Go program under \<^verbatim>\<open>src/peer_service\<close>: one process
  per user that keeps a shared playlist, roles and sessions with the services of other users over
  GossipSub, streams the current item from the peer that stores it, and serves it to the local player
  over HTTP. A local client drives it over one gRPC stream. The five command line programs under \<^verbatim>\<open>tools\<close> drive running
  services, take part in their sessions and measure them; they are modelled as well.

  \<^bold>\<open>Shape of the model.\<close> The state of a service is the record \<open>peer\<close> (theory \<open>Peer\<close>): the node, the queue
  controller, the role manager, the ring buffer of segments, the hub of clients, the sessions and the
  hybrid logical clock, one record each with the fields of the Go structure, and the list \<open>trace\<close> of what
  it has sent and published. Every Go function that changes state is a function from state to state; a
  returned error is a sum or an option, a panic is \<open>None\<close>. Machine integers keep their width (\<open>u32\<close>, \<open>i64\<close>,
  \<open>u64\<close> are words); a \<^verbatim>\<open>float64\<close> is the rational it denotes and a Go map an association list without
  duplicate keys (\<open>gomap\<close>). Code outside the repository is an argument: \<open>codec\<close> and \<open>env\<close> (protobuf,
  peer identifiers, whether a send or a join succeeds, ffprobe), \<open>net_env\<close> (the DHT, libp2p and the answers of other peers),
  the wall clock (an input sequence) and the content of files. Each operation is one atomic step. The mutexes of the code make most of them
  so, but not \<^verbatim>\<open>Handle\<close>, \<^verbatim>\<open>ApplyUpdate\<close> and \<^verbatim>\<open>checkAndAttemptQueueAdvance\<close>, which lock the queue, the runner and the completion
  states one after the other: the last one unlocks the completion states before it calls \<^verbatim>\<open>Handle\<close>, so two notifications that arrive
  together could both advance the queue. Such overlaps inside an operation are not in the model.

  \<^bold>\<open>Theories and sources.\<close>
  \<^item> \<open>Prelude\<close>, \<open>GoStrings\<close>, \<open>GoFloat\<close>, \<open>Json\<close>: types, maps, and the parts of Go's \<^verbatim>\<open>strings\<close>, \<^verbatim>\<open>strconv\<close> and
    \<^verbatim>\<open>encoding/json\<close> the code uses. Printed JSON is one line and is read back, with bytes that are not UTF-8 replaced.
    Lower case and white space are those of ASCII, where Go's \<^verbatim>\<open>strings\<close> follows Unicode.
  \<^item> \<open>Hlc\<close>: \<^verbatim>\<open>internal/common/time.go\<close>. Timestamps increase while the 16-bit counter has room; packing is invertible.
  \<^item> \<open>Messages\<close>: the messages of \<^verbatim>\<open>proto/\<close>.
  \<^item> \<open>Roles\<close>, \<open>RoleManager\<close>, \<open>RoleReplication\<close>: \<^verbatim>\<open>internal/roles\<close>. Normal form of the tables, effect of
    every operation, convergence of replicated assignments and definitions.
  \<^item> \<open>Sessions\<close>: \<^verbatim>\<open>internal/session\<close>.
  \<^item> \<open>Queue\<close>: \<^verbatim>\<open>internal/p2p/queue.go\<close>, with the playlist it refines. \<open>Hub\<close>: \<^verbatim>\<open>hub.go\<close>.
  \<^item> \<open>RingBuffer\<close>: \<^verbatim>\<open>internal/media/ring_buffer.go\<close> as a window of consecutive numbers.
  \<^item> \<open>Peer\<close>, \<open>QueueControl\<close>, \<open>Streaming\<close>, \<open>QueueFlow\<close>: \<^verbatim>\<open>queue_controller.go\<close> and the encoder
    management of \<^verbatim>\<open>node.go\<close>: commands, advance of the queue, and the goroutines that run encoders, as steps.
  \<^item> \<open>NodeTopics\<close>: the session topics of \<^verbatim>\<open>node.go\<close>.
  \<^item> \<open>Server\<close>, \<open>Admission\<close>: the role, kick and ban commands and the join protocol \<^verbatim>\<open>/p2ptogether/auth/1\<close> of \<^verbatim>\<open>main.go\<close>.
  \<^item> \<open>Gossip\<close>: the handlers of received gossip. \<open>Discovery\<close>: finding and reaching the administrator of a
    session. \<open>ControlStream\<close>: the stream of the local client, every message of it. All of \<^verbatim>\<open>main.go\<close>.
  \<^item> \<open>Service\<close>: \<^verbatim>\<open>main()\<close> and \<open>service_step\<close>, the relation of everything that can happen to a running service:
    client messages, gossip, join requests, HTTP requests, encoder goroutines, the status ticker. On it rest who may expel whom,
    that a ban lasts for the rest of the run, and what a joiner has after the join.
    \<open>Subscriptions\<close>: the three loops of \<^verbatim>\<open>main()\<close> that follow the topics. \<open>Startup\<close>: \<^verbatim>\<open>main()\<close> from the flags to the exit,
    with the routes of the HTTP server, the loops under its context, and the shutdown after a signal: four calls, each of which blocks until the
    streams, requests or the time it waits for let it return.
  \<^item> \<open>Monitor\<close>, \<open>Hls\<close>, \<open>Encoder\<close>: \<^verbatim>\<open>m3u8_monitor.go\<close>; \<^verbatim>\<open>hls.go\<close>, \<^verbatim>\<open>ingest.go\<close> and \<^verbatim>\<open>status.go\<close>;
    \<^verbatim>\<open>encoder.go\<close> and \<^verbatim>\<open>encode_runner.go\<close>. \<open>Encoder\<close> has the runner in detail, with overlapping calls of
    \<^verbatim>\<open>Start\<close>; \<open>Peer\<close> and \<open>QueueControl\<close> use the three fields of it the node reads, and \<open>Encoder\<close> proves
    that the detailed runner refines these.
  \<^item> \<open>Delivery\<close>: a segment from ffmpeg at the streamer to the player of another peer.
  \<^item> \<open>Replication\<close>: a command of one peer's client on the queue, on roles or on members, published and received by another peer.
  \<^item> \<open>Network\<close>: any number of services and what they publish, delivered in any order and any number of times, each time
    handed on by any peer: the handlers take the last hop for the sender.
  \<^item> \<open>Host\<close>: the libp2p host, the DHT and mDNS of the service, and the advertisement of a new session.
  \<^item> \<open>Agent\<close>, \<open>Orchestrator\<close>: \<^verbatim>\<open>tools/test_agent\<close> and \<^verbatim>\<open>tools/test_orchestrator\<close>, each alone and connected.
    \<open>ScaleSim\<close>: \<^verbatim>\<open>tools/scale_sim\<close>.
  \<^item> \<open>NetScenario\<close>, \<open>Driver\<close>: \<^verbatim>\<open>tools/net_scenario\<close> and \<^verbatim>\<open>tools/grpc_driver\<close>, composed with the service they talk to.
    \<open>ToolMain\<close>: the \<^verbatim>\<open>main\<close> functions of the tools: starts, the discovery of the agents, a whole run of the simulation.
  \<^item> \<open>Examples\<close>: concrete peers for the instances.

  \<^bold>\<open>Contracts.\<close> \<open>event_clock\<close> (a clock of increasing stamps), \<open>playlist_impl\<close> (an implementation of a
  playlist), \<open>lww_store\<close> (the newest write of a key wins), \<open>window_store\<close> (a bounded window of numbered
  segments) and \<open>step_invariant\<close> (an invariant of a step relation) are the locales; each is interpreted on the
  code's model in the theory of the component that provides it.

  \<^bold>\<open>What is shown.\<close> The invariants of every component hold in every run of the service. Only permitted
  senders change queue, roles and sessions through the client's commands; the exceptions, and what gossip
  accepts without a check, are stated as properties of their own. At most one encoder has a live context,
  it runs for the current item, and the queue advances when encoder and player have both finished. The queue
  refines a playlist, the ring buffer a window, the address order a stable sort. Replicas converge for
  assignments (peers that received the same set of grants agree, in whatever order and among other messages that leave the definitions and the members alone), definitions and playback state, and what a client changes with a queue, role or moderation command is what
  the other peers have after the message it publishes; for the queue the last delivery decides. Between services that all run this
  program nobody is expelled, no role redefined and no permission granted without a permission of the publisher, held in its own table each time it published, although the receivers do not check it. What is put is served, locally and at the other peers, and
  the served playlist is read back by the repository's own reader. A call of \<^verbatim>\<open>Start\<close> alone, with a live context, ends only with
  nil for the end of the file. A command of a test scenario reaches its agent as it is written, and chat and sessions made by the tools arrive
  at the service. The process starts exactly when its listeners and libraries do and its roles are known, and after a signal it ends, as long as
  time passes and the libraries do what their documentation says, even if streams and requests under way never end; the encoder is not stopped by that. Several properties state behaviour that is not what the code means to do; they say so.

  \<^bold>\<open>Bounds.\<close> No fuel is used: the loops of the code are structural recursions, or bounded counters with a
  measure (\<open>dht_attempts\<close>, \<open>direct_attempts\<close>, \<open>substitute\<close>, \<open>fields\<close>); the endless loops of goroutines are steps of relations.
  The reader of JSON counts down the nesting limit of Go's decoder, 10000, beyond which that decoder fails as well. The index of a
  percentile in \<open>ScaleSim\<close> is computed exactly, which agrees with the doubles of the code for fewer than \<open>2 ^ 45\<close> measurements. The ring buffer
  properties exclude sequence number \<^verbatim>\<open>0xFFFFFFFF\<close>, after which the next one wraps to zero; \<open>RingBuffer\<close> states
  what happens there, and \<open>Hlc\<close> what happens when the counter of the clock is full.

  \<^bold>\<open>Not modelled.\<close> The HTTP, gRPC and libp2p servers themselves, logging, waiting times and the reading of flags (I/O with no effect on the
  state), and a failure of the HTTP server while it runs, which ends the process; \<^verbatim>\<open>cid.go\<close> (a call of a library, unused); the generated protobuf code, which is not in the repository; the C++ client.
  What libp2p, the DHT, GossipSub, zeroconf, gRPC, ffmpeg and the GUI answer are arguments. Goroutines are
  interleaved as atomic steps; overlaps inside an operation, and races on unguarded state, as in the orchestrator, are not shown.
\<close>

end
